(* ===== verification/Prelude.thy ===== *)
theory Prelude
  imports Main "HOL-Library.Word"
begin

text \<open>
  Shared vocabulary of the development: bytes as \<open>8 word\<close>, little-endian
  byte and bit strings and their numeric values, the Rust reader model
  (a reader is the list of bytes it has left; a read returns the value and
  the rest), Rust failures as values of a sum type, and the bind of that sum
  type, which plays the role of the \<open>?\<close> operator of the sources.
\<close>

named_theorems codec_simps \<open>equations that evaluate encoders and decoders\<close>

type_synonym byte = "8 word"

section \<open>Positional notation\<close>

text \<open>One digit step of a little-endian numeral: shared by the byte and bit codecs.\<close>

lemma digit_mod_step:
  fixes a c k m :: nat
  assumes "a < k"
  shows "(a + k * c) mod (k * m) = a + k * (c mod m)"
proof -
  have "(a + k * c) mod (k * m) = k * ((a + k * c) div k mod m) + (a + k * c) mod k"
    by (rule mod_mult2_eq)
  moreover have "(a + k * c) div k = c" and "(a + k * c) mod k = a"
    using assms by simp_all
  ultimately show ?thesis by simp
qed

section \<open>Little-endian byte strings\<close>

fun le_bytes :: "nat \<Rightarrow> nat \<Rightarrow> byte list" where
  "le_bytes 0 x = []"
| "le_bytes (Suc n) x = word_of_nat (x mod 256) # le_bytes n (x div 256)"

fun le_nat :: "byte list \<Rightarrow> nat" where
  "le_nat [] = 0"
| "le_nat (b # bs) = unat b + 256 * le_nat bs"

lemma length_le_bytes [simp]: "length (le_bytes n x) = n"
  by (induction n arbitrary: x) auto

lemma unat_byte_mod: "unat (word_of_nat (x mod 256) :: byte) = x mod 256"
  by (simp add: unat_of_nat)

lemma le_nat_le_bytes [codec_simps]: "le_nat (le_bytes n x) = x mod 256 ^ n"
proof (induction n arbitrary: x)
  case 0
  then show ?case by simp
next
  case (Suc n)
  have "x mod (256 * 256 ^ n) = 256 * (x div 256 mod 256 ^ n) + x mod 256"
    by (rule mod_mult2_eq)
  then show ?case by (simp add: Suc.IH unat_byte_mod)
qed

lemma le_nat_bound: "le_nat bs < 256 ^ length bs"
proof (induction bs)
  case Nil
  then show ?case by simp
next
  case (Cons b bs)
  have "unat b < 256" using unsigned_less [of b] by simp
  with Cons.IH show ?case by simp
qed

lemma le_bytes_le_nat [codec_simps]: "le_bytes (length bs) (le_nat bs) = bs"
proof (induction bs)
  case Nil
  then show ?case by simp
next
  case (Cons b bs)
  have lt: "unat b < 256" using unsigned_less [of b] by simp
  then have "(unat b + 256 * le_nat bs) mod 256 = unat b"
    and "(unat b + 256 * le_nat bs) div 256 = le_nat bs" by simp_all
  with Cons.IH show ?case by simp
qed

lemma le_bytes_inj:
  "x < 256 ^ n \<Longrightarrow> y < 256 ^ n \<Longrightarrow> le_bytes n x = le_bytes n y \<Longrightarrow> x = y"
  by (metis le_nat_le_bytes mod_less)

section \<open>Little-endian bit strings\<close>

text \<open>
  A bit string is a \<open>bool list\<close>, least significant bit first, as
  \<open>field_into_boolean_vec_le\<close> and the point representation gadget produce it.
\<close>

fun bits_le :: "nat \<Rightarrow> nat \<Rightarrow> bool list" where
  "bits_le 0 x = []"
| "bits_le (Suc n) x = odd x # bits_le n (x div 2)"

fun bits_val :: "bool list \<Rightarrow> nat" where
  "bits_val [] = 0"
| "bits_val (b # bs) = of_bool b + 2 * bits_val bs"

lemma length_bits_le [simp]: "length (bits_le n x) = n"
  by (induction n arbitrary: x) auto

lemma bits_val_bits_le [codec_simps]: "bits_val (bits_le n x) = x mod 2 ^ n"
proof (induction n arbitrary: x)
  case 0
  then show ?case by simp
next
  case (Suc n)
  have "x mod (2 * 2 ^ n) = 2 * (x div 2 mod 2 ^ n) + x mod 2"
    by (rule mod_mult2_eq)
  then show ?case by (simp add: Suc.IH of_bool_odd_eq_mod_2)
qed

lemma bits_val_bound: "bits_val bs < 2 ^ length bs"
  by (induction bs) auto

lemma bits_le_bits_val [codec_simps]: "bits_le (length bs) (bits_val bs) = bs"
  by (induction bs) auto

lemma bits_val_take: "bits_val (take k bs) = bits_val bs mod 2 ^ k"
proof (induction bs arbitrary: k)
  case Nil
  then show ?case by simp
next
  case (Cons b bs)
  show ?case
  proof (cases k)
    case 0
    then show ?thesis by simp
  next
    case (Suc j)
    have "of_bool b < (2::nat)" by simp
    then have "(of_bool b + 2 * bits_val bs) mod (2 * 2 ^ j) = of_bool b + 2 * (bits_val bs mod 2 ^ j)"
      by (rule digit_mod_step)
    with Cons.IH Suc show ?thesis by simp
  qed
qed

lemma bits_le_take: "k \<le> n \<Longrightarrow> take k (bits_le n x) = bits_le k x"
proof (induction n arbitrary: k x)
  case 0
  then show ?case by simp
next
  case (Suc n)
  then show ?case by (cases k) auto
qed

lemma bits_le_add: "bits_le (m + n) x = bits_le m x @ bits_le n (x div 2 ^ m)"
proof (induction m arbitrary: x)
  case 0
  then show ?case by simp
next
  case (Suc m)
  then show ?case by (simp add: div_mult2_eq)
qed

lemma bits_le_mod: "bits_le n (x mod 2 ^ n) = bits_le n x"
  using bits_le_bits_val [of "bits_le n x"] by (simp add: bits_val_bits_le)

lemma bits_val_append: "bits_val (xs @ ys) = bits_val xs + 2 ^ length xs * bits_val ys"
  by (induction xs) simp_all

subsection \<open>Bytes as bit strings\<close>

text \<open>
  The in-circuit Blake2s gadget and the out-of-circuit hash see the same data: a byte
  string is the bit string of its bytes in order, each byte least significant bit first.
\<close>

definition bytes_to_bits :: "byte list \<Rightarrow> bool list" where
  "bytes_to_bits bs = concat (map (\<lambda>b. bits_le 8 (unat b)) bs)"

fun bits_to_bytes :: "bool list \<Rightarrow> byte list" where
  "bits_to_bytes [] = []"
| "bits_to_bytes (b # bs) = word_of_nat (bits_val (take 8 (b # bs))) # bits_to_bytes (drop 7 bs)"

lemma bytes_to_bits_Cons [simp]: "bytes_to_bits (b # bs) = bits_le 8 (unat b) @ bytes_to_bits bs"
  by (simp add: bytes_to_bits_def)

lemma bytes_to_bits_Nil [simp]: "bytes_to_bits [] = []"
  by (simp add: bytes_to_bits_def)

lemma length_bytes_to_bits [simp]: "length (bytes_to_bits bs) = 8 * length bs"
  by (induction bs) simp_all

lemma bytes_to_bits_append [simp]: "bytes_to_bits (xs @ ys) = bytes_to_bits xs @ bytes_to_bits ys"
  by (simp add: bytes_to_bits_def)

lemma bytes_to_bits_le_bytes: "bytes_to_bits (le_bytes n x) = bits_le (8 * n) x"
proof (induction n arbitrary: x)
  case 0
  then show ?case by simp
next
  case (Suc n)
  have "bits_le (8 + 8 * n) x = bits_le 8 x @ bits_le (8 * n) (x div 2 ^ 8)"
    by (rule bits_le_add)
  moreover have "bits_le 8 (x mod 2 ^ 8) = bits_le 8 x"
    by (rule bits_le_mod)
  ultimately show ?case by (simp add: Suc.IH unat_byte_mod)
qed

lemma le_nat_bits_val: "le_nat bs = bits_val (bytes_to_bits bs)"
proof (induction bs)
  case Nil
  then show ?case by simp
next
  case (Cons b bs)
  have "unat b < 2 ^ 8" using unsigned_less [of b] by simp
  then have "bits_val (bits_le 8 (unat b)) = unat b" by (simp add: bits_val_bits_le)
  with Cons.IH show ?case by (simp add: bits_val_append)
qed

lemma bits_to_bytes_eq: "bits_to_bytes bs = (if bs = [] then [] else word_of_nat (bits_val (take 8 bs)) # bits_to_bytes (drop 8 bs))"
  by (cases bs) simp_all

lemma bits_to_bytes_inverse:
  "length bs = 8 * n \<Longrightarrow> bytes_to_bits (bits_to_bytes bs) = bs \<and> length (bits_to_bytes bs) = n"
proof (induction n arbitrary: bs)
  case 0
  then show ?case by simp
next
  case (Suc n)
  then have ne: "bs \<noteq> []" and l: "length (drop 8 bs) = 8 * n" by auto
  have "bits_val (take 8 bs) < 2 ^ 8"
    using bits_val_bound [of "take 8 bs"] Suc.prems by simp
  then have "bits_le 8 (unat (word_of_nat (bits_val (take 8 bs)) :: byte)) = bits_le 8 (bits_val (take 8 bs))"
    by (simp add: unat_of_nat)
  also have "\<dots> = take 8 bs"
    using bits_le_bits_val [of "take 8 bs"] Suc.prems by simp
  finally have hd8: "bits_le 8 (unat (word_of_nat (bits_val (take 8 bs)) :: byte)) = take 8 bs" .
  from Suc.IH [OF l] hd8 ne show ?case
    by (subst (1 2) bits_to_bytes_eq) simp
qed


section \<open>Results and failures\<close>

text \<open>
  A Rust function returning \<open>Result\<close> is modelled with a sum type, the error on the
  left. A panic (\<open>unwrap\<close> of an error, a failed \<open>assert!\<close>, a slice index out of
  range) is a failure value too, so that every way the source can stop is a branch
  of the model.
\<close>

datatype io_kind = UnexpectedEof | InvalidInput | InvalidData

datatype failure = IoError io_kind | Panic string

fun bind_res :: "'e + 'a \<Rightarrow> ('a \<Rightarrow> 'e + 'b) \<Rightarrow> 'e + 'b" where
  "bind_res (Inl e) f = Inl e"
| "bind_res (Inr x) f = f x"

lemma bind_res_eq_Inr [simp]:
  "bind_res m f = Inr y \<longleftrightarrow> (\<exists>x. m = Inr x \<and> f x = Inr y)"
  by (cases m) auto

lemma bind_res_eq_Inl [simp]:
  "bind_res m f = Inl e \<longleftrightarrow> m = Inl e \<or> (\<exists>x. m = Inr x \<and> f x = Inl e)"
  by (cases m) auto

lemma bind_res_Inr_Inl: "m = Inr x \<Longrightarrow> bind_res m f = f x"
  by simp

section \<open>The reader model\<close>

text \<open>
  \<open>std::io::Read\<close> over a byte slice: a reader is the list of bytes not yet
  consumed. \<open>read_u8\<close> and \<open>read_exact\<close> fail with \<open>UnexpectedEof\<close> when the
  input is too short, as \<open>byteorder\<close> and the standard library do.
\<close>

definition read_u8 :: "byte list \<Rightarrow> failure + (byte \<times> byte list)" where
  "read_u8 bs = (case bs of [] \<Rightarrow> Inl (IoError UnexpectedEof) | b # rest \<Rightarrow> Inr (b, rest))"

definition read_exact :: "nat \<Rightarrow> byte list \<Rightarrow> failure + (byte list \<times> byte list)" where
  "read_exact n bs =
     (if length bs < n then Inl (IoError UnexpectedEof) else Inr (take n bs, drop n bs))"

lemma read_u8_Cons [simp, codec_simps]: "read_u8 (b # rest) = Inr (b, rest)"
  by (simp add: read_u8_def)

lemma read_u8_Nil [simp, codec_simps]: "read_u8 [] = Inl (IoError UnexpectedEof)"
  by (simp add: read_u8_def)

lemma read_exact_append [codec_simps]:
  "length xs = n \<Longrightarrow> read_exact n (xs @ rest) = Inr (xs, rest)"
  by (simp add: read_exact_def)

lemma read_exact_short: "length bs < n \<Longrightarrow> read_exact n bs = Inl (IoError UnexpectedEof)"
  by (simp add: read_exact_def)

subsection \<open>Parsers and their prefixes\<close>

text \<open>
  A reader-based parser \<open>p\<close> \<^emph>\<open>parses\<close> the encoding \<open>xs\<close> to \<open>v\<close> when it
  returns \<open>v\<close> and the rest of the input after \<open>xs\<close>, whatever follows, and fails
  with \<open>UnexpectedEof\<close> on every strict prefix of \<open>xs\<close>. The property composes
  along \<open>bind_res\<close>, so that a sequence of reads is handled one read at a time.
\<close>

definition parses :: "(byte list \<Rightarrow> failure + ('a \<times> byte list)) \<Rightarrow> byte list \<Rightarrow> 'a \<Rightarrow> bool" where
  "parses p xs v \<longleftrightarrow>
     (\<forall>rest. p (xs @ rest) = Inr (v, rest)) \<and>
     (\<forall>n < length xs. p (take n xs) = Inl (IoError UnexpectedEof))"

lemma parses_read_u8: "parses read_u8 [b] b"
  by (simp add: parses_def)

lemma parses_read_exact: "length xs = k \<Longrightarrow> parses (read_exact k) xs xs"
  by (simp add: parses_def read_exact_def)

lemma parses_return: "parses (\<lambda>r. Inr (v, r)) [] v"
  by (simp add: parses_def)

lemma parses_bind:
  assumes p: "parses p xs v" and q: "parses (q v) ys w"
  shows "parses (\<lambda>r. bind_res (p r) (\<lambda>(a, r'). q a r')) (xs @ ys) w"
  unfolding parses_def
proof (intro conjI allI impI)
  fix rest
  from p have "p (xs @ ys @ rest) = Inr (v, ys @ rest)" by (simp add: parses_def)
  moreover from q have "q v (ys @ rest) = Inr (w, rest)" by (simp add: parses_def)
  ultimately show "bind_res (p ((xs @ ys) @ rest)) (\<lambda>(a, r'). q a r') = Inr (w, rest)" by simp
next
  fix n assume n: "n < length (xs @ ys)"
  show "bind_res (p (take n (xs @ ys))) (\<lambda>(a, r'). q a r') = Inl (IoError UnexpectedEof)"
  proof (cases "n < length xs")
    case True
    with p have "p (take n xs) = Inl (IoError UnexpectedEof)" by (simp add: parses_def)
    with True show ?thesis by simp
  next
    case False
    then have split: "take n (xs @ ys) = xs @ take (n - length xs) ys" by simp
    from p have "p (xs @ take (n - length xs) ys) = Inr (v, take (n - length xs) ys)"
      by (simp add: parses_def)
    moreover from q n False have "q v (take (n - length xs) ys) = Inl (IoError UnexpectedEof)"
      by (simp add: parses_def)
    moreover from False have "take n xs = xs" by simp
    ultimately show ?thesis by simp
  qed
qed

lemma parses_prefix_eof:
  "parses p xs v \<Longrightarrow> n < length xs \<Longrightarrow> p (take n xs) = Inl (IoError UnexpectedEof)"
  by (simp add: parses_def)

lemma parses_some:
  "parses p xs v \<Longrightarrow> parses (\<lambda>r. bind_res (p r) (\<lambda>(k, r'). Inr (Some k, r'))) xs (Some v)"
  using parses_bind [of p xs v "\<lambda>k r'. Inr (Some k, r')" "[]" "Some v"]
  by (simp add: parses_return)

text \<open>An optional field: a presence byte, then the value when the byte is 1.\<close>

definition opt_flag :: "'a option \<Rightarrow> byte" where
  "opt_flag x = (if x = None then 0 else 1)"

definition opt_bytes :: "('a \<Rightarrow> byte list) \<Rightarrow> 'a option \<Rightarrow> byte list" where
  "opt_bytes enc x = (case x of None \<Rightarrow> [] | Some v \<Rightarrow> enc v)"

lemma parses_optional:
  assumes "\<forall>v. x = Some v \<longrightarrow> parses p (enc v) v"
  shows "parses (\<lambda>r. if opt_flag x = 1 then bind_res (p r) (\<lambda>(k, r'). Inr (Some k, r')) else Inr (None, r))
           (opt_bytes enc x) x"
proof (cases x)
  case None
  then show ?thesis by (simp add: opt_flag_def opt_bytes_def parses_return)
next
  case (Some v)
  with assms have "parses p (enc v) v" by simp
  then show ?thesis using Some by (simp add: opt_flag_def opt_bytes_def parses_some)
qed

lemma those_map_Some [simp]: "those (map Some xs) = Some xs"
  by (induction xs) auto

lemma those_Some_iff: "those xs = Some ys \<longleftrightarrow> xs = map Some ys"
  by (induction xs arbitrary: ys) (auto split: option.splits)

end
