(* ===== verification/Scalar_Fields.thy ===== *)
theory Scalar_Fields
  imports Prelude
begin

text \<open>
  The two prime fields the sources use, as canonical natural numbers below the
  modulus: \<open>jubjub::Fr\<close> (the scalar field of the prime-order Jubjub subgroup: the
  type of \<open>nsk\<close>, \<open>ar\<close>, \<open>ivk\<close> and the ephemeral secret) and \<open>jubjub::Fq\<close>,
  which is \<open>blstrs::Scalar\<close> (the field the circuit's variables live in and the
  field of the curve's coordinates). With them: the \<open>PrimeField\<close> constants
  \<open>NUM_BITS\<close> and \<open>CAPACITY\<close>, the canonical 32-byte little-endian codec
  (\<open>to_bytes\<close>/\<open>from_bytes\<close>, which rejects a non-canonical encoding), and the
  arithmetic of \<open>Fq\<close>, with an inverse computed by the Bezout coefficients of
  \<open>bezw\<close>.
\<close>

section \<open>Moduli and the PrimeField constants\<close>

definition fq_modulus :: nat where
  "fq_modulus = 52435875175126190479447740508185965837690552500527637822603658699938581184513"

definition fr_modulus :: nat where
  "fr_modulus = 6554484396890773809930967563523245729705921265872317281365359162392183254199"

text \<open>\<open>NUM_BITS\<close> is the bit length of the modulus, \<open>CAPACITY = NUM_BITS - 1\<close>.\<close>

definition fr_num_bits :: nat where "fr_num_bits = 252"
definition fr_capacity :: nat where "fr_capacity = fr_num_bits - 1"
definition fq_num_bits :: nat where "fq_num_bits = 255"

lemma fr_modulus_bits: "2 ^ (fr_num_bits - 1) < fr_modulus \<and> fr_modulus < 2 ^ fr_num_bits"
  by (simp add: fr_modulus_def fr_num_bits_def)

lemma fq_modulus_bits: "2 ^ (fq_num_bits - 1) < fq_modulus \<and> fq_modulus < 2 ^ fq_num_bits"
  by (simp add: fq_modulus_def fq_num_bits_def)

lemma fr_capacity_val: "fr_capacity = 251"
  by (simp add: fr_capacity_def fr_num_bits_def)

lemma fr_modulus_pos [simp]: "0 < fr_modulus"
  by (simp add: fr_modulus_def)

lemma fq_modulus_gt1 [simp]: "1 < fq_modulus"
  by (simp add: fq_modulus_def)

lemma fq_modulus_simps [simp]: "0 < fq_modulus" "Suc 0 < fq_modulus" "fq_modulus \<noteq> Suc 0"
  by (simp_all add: fq_modulus_def)

lemma fr_below_num_bits: "x < fr_modulus \<Longrightarrow> x < 2 ^ fr_num_bits"
  using fr_modulus_bits by linarith

lemma fq_below_num_bits: "x < fq_modulus \<Longrightarrow> x < 2 ^ fq_num_bits"
  using fq_modulus_bits by linarith

section \<open>Canonical 32-byte encodings\<close>

text \<open>
  \<open>to_bytes\<close> writes the canonical representative little-endian in 32 bytes;
  \<open>from_bytes\<close> reads 32 bytes and succeeds only when the value is below the
  modulus (\<open>CtOption\<close> is \<open>None\<close> otherwise). One definition serves both fields.
\<close>

definition field_to_bytes :: "nat \<Rightarrow> byte list" where
  "field_to_bytes x = le_bytes 32 x"

definition field_from_bytes :: "nat \<Rightarrow> byte list \<Rightarrow> nat option" where
  "field_from_bytes m bs = (if length bs = 32 \<and> le_nat bs < m then Some (le_nat bs) else None)"

abbreviation fr_to_bytes :: "nat \<Rightarrow> byte list" where "fr_to_bytes \<equiv> field_to_bytes"
abbreviation fr_from_bytes :: "byte list \<Rightarrow> nat option" where "fr_from_bytes \<equiv> field_from_bytes fr_modulus"
abbreviation fq_to_bytes :: "nat \<Rightarrow> byte list" where "fq_to_bytes \<equiv> field_to_bytes"
abbreviation fq_from_bytes :: "byte list \<Rightarrow> nat option" where "fq_from_bytes \<equiv> field_from_bytes fq_modulus"

lemma length_field_to_bytes [simp]: "length (field_to_bytes x) = 32"
  by (simp add: field_to_bytes_def)

lemma modulus_below_256: "fr_modulus < 256 ^ 32" "fq_modulus < 256 ^ 32"
  by (simp_all add: fr_modulus_def fq_modulus_def)

lemma field_from_to_bytes [codec_simps]:
  "x < m \<Longrightarrow> m \<le> 256 ^ 32 \<Longrightarrow> field_from_bytes m (field_to_bytes x) = Some x"
  by (simp add: field_from_bytes_def field_to_bytes_def le_nat_le_bytes)

lemma field_to_from_bytes:
  assumes "field_from_bytes m bs = Some x"
  shows "field_to_bytes x = bs"
proof -
  from assms have "length bs = 32" and "x = le_nat bs"
    by (simp_all add: field_from_bytes_def split: if_splits)
  then show ?thesis using le_bytes_le_nat [of bs] by (simp add: field_to_bytes_def)
qed

lemma field_from_bytes_canonical:
  "field_from_bytes m bs = Some x \<Longrightarrow> x < m"
  by (simp add: field_from_bytes_def split: if_splits)

lemma field_from_bytes_None_iff:
  "length bs = 32 \<Longrightarrow> field_from_bytes m bs = None \<longleftrightarrow> m \<le> le_nat bs"
  by (auto simp: field_from_bytes_def)

lemma fr_roundtrip [codec_simps]: "x < fr_modulus \<Longrightarrow> fr_from_bytes (fr_to_bytes x) = Some x"
  using modulus_below_256(1) by (simp add: field_from_to_bytes)

lemma fq_roundtrip [codec_simps]: "x < fq_modulus \<Longrightarrow> fq_from_bytes (fq_to_bytes x) = Some x"
  using modulus_below_256(2) by (simp add: field_from_to_bytes)

section \<open>Arithmetic of Fq\<close>

definition fq_add :: "nat \<Rightarrow> nat \<Rightarrow> nat" where
  "fq_add x y = (x + y) mod fq_modulus"

definition fq_mul :: "nat \<Rightarrow> nat \<Rightarrow> nat" where
  "fq_mul x y = (x * y) mod fq_modulus"

definition fq_neg :: "nat \<Rightarrow> nat" where
  "fq_neg x = (fq_modulus - x mod fq_modulus) mod fq_modulus"

definition fq_sub :: "nat \<Rightarrow> nat \<Rightarrow> nat" where
  "fq_sub x y = fq_add x (fq_neg y)"

text \<open>
  The inverse from the Bezout coefficients of \<open>x\<close> and the modulus; it is 0 at 0.
  \<open>invert\<close> of the sources returns \<open>None\<close> at 0, which the gadgets turn into
  \<open>SynthesisError::DivisionByZero\<close>: that check is written where the gadgets divide.
\<close>

definition fq_inv :: "nat \<Rightarrow> nat" where
  "fq_inv x = nat (fst (bezw (x mod fq_modulus) fq_modulus) mod int fq_modulus)"

definition fq_div :: "nat \<Rightarrow> nat \<Rightarrow> nat" where
  "fq_div x y = fq_mul x (fq_inv y)"

lemma fq_add_lt [simp]: "fq_add x y < fq_modulus"
  and fq_mul_lt [simp]: "fq_mul x y < fq_modulus"
  and fq_neg_lt [simp]: "fq_neg x < fq_modulus"
  using fq_modulus_gt1 by (simp_all add: fq_add_def fq_mul_def fq_neg_def)

lemma fq_inv_lt [simp]: "fq_inv x < fq_modulus"
proof -
  let ?s = "fst (bezw (x mod fq_modulus) fq_modulus)"
  have "0 \<le> ?s mod int fq_modulus" and "?s mod int fq_modulus < int fq_modulus"
    using fq_modulus_gt1 by simp_all
  then show ?thesis by (simp add: fq_inv_def nat_less_iff)
qed

lemma fq_div_lt [simp]: "fq_div x y < fq_modulus"
  by (simp add: fq_div_def)

lemma mod_one_coprime:
  fixes a b m :: nat
  assumes "(a * b) mod m = 1"
  shows "gcd a m = 1"
proof -
  have "gcd a m dvd a * b" and "gcd a m dvd m" by simp_all
  then have "gcd a m dvd (a * b) mod m" by (simp add: dvd_mod)
  with assms show ?thesis by simp
qed

text \<open>
  The inverse is characterised by one product: a value whose product with \<open>x\<close>
  is 1 modulo the modulus is \<open>fq_inv x\<close>. Concrete instances are checked this way,
  by one multiplication instead of a run of the Euclidean algorithm.
\<close>

lemma fq_inv_eqI:
  assumes prod: "(x * y) mod fq_modulus = 1" and y: "y < fq_modulus"
  shows "fq_inv x = y"
proof -
  let ?q = "fq_modulus" and ?x = "x mod fq_modulus"
  define s where "s = fst (bezw ?x ?q)"
  define t where "t = snd (bezw ?x ?q)"
  have xy: "(?x * y) mod ?q = 1"
    using prod mod_mult_left_eq [of x ?q y] by simp
  then have g: "gcd ?x ?q = 1" by (rule mod_one_coprime)
  have bez: "s * int ?x + t * int ?q = 1"
    using bezw_aux [of ?x ?q] g unfolding s_def t_def by simp
  have xyi: "(int ?x * int y) mod int ?q = 1"
    using xy by (simp only: of_nat_mult [symmetric] of_nat_mod [symmetric])
  have "s mod int ?q = (s * ((int ?x * int y) mod int ?q)) mod int ?q"
    using xyi by simp
  also have "\<dots> = ((s * int ?x) * int y) mod int ?q"
    by (simp only: mod_mult_right_eq mult.assoc)
  also have "s * int ?x = 1 - t * int ?q"
    using bez by simp
  also have "(1 - t * int ?q) * int y = int y + (- t * int y) * int ?q"
    by (simp add: algebra_simps)
  also have "(int y + (- t * int y) * int ?q) mod int ?q = int y mod int ?q"
    by (rule mod_mult_self1)
  also have "\<dots> = int y"
    using y by simp
  finally have "s mod int ?q = int y" .
  then show ?thesis by (simp add: fq_inv_def s_def)
qed
end
