(* ===== verification/Jubjub.thy ===== *)
theory Jubjub
  imports Scalar_Fields
begin

text \<open>
  The Jubjub curve \<open>-u\<^sup>2 + v\<^sup>2 = 1 + d u\<^sup>2 v\<^sup>2\<close> over \<open>Fq\<close>, with
  \<open>d = -(10240/10241)\<close>: affine points, the unified addition and the doubling formulas
  exactly as the circuit gadgets \<open>EdwardsPoint::add\<close> and \<open>EdwardsPoint::double\<close>
  compute their witnesses (with the denominators they invert), scalar multiplication by
  double-and-add from the most significant bit (as \<open>jubjub\<close> multiplies), the
  representation \<open>repr\<close> hashed into \<open>ivk\<close> and its 32-byte form \<open>to_bytes\<close>,
  the 160-byte extended-coordinate form of a \<open>SubgroupPoint\<close>, and the three fixed
  generators, which are inputs of the model.
\<close>

type_synonym point = "nat \<times> nat"

section \<open>Curve constants and points\<close>

definition jubjub_a :: nat where "jubjub_a = fq_neg 1"

definition jubjub_d :: nat where
  "jubjub_d = 19257038036680949359750312669786877991949435402254120286184196891950884077233"

definition on_curve :: "point \<Rightarrow> bool" where
  "on_curve p = (case p of (u, v) \<Rightarrow> u < fq_modulus \<and> v < fq_modulus \<and>
     fq_add (fq_mul jubjub_a (fq_mul u u)) (fq_mul v v) =
     fq_add 1 (fq_mul jubjub_d (fq_mul (fq_mul u u) (fq_mul v v))))"

definition identity :: point where "identity = (0, 1)"

section \<open>Addition and doubling as the gadgets compute them\<close>

text \<open>
  \<open>EdwardsPoint::add\<close>: \<open>U = (u1 + v1)(v2 - a u2)\<close>, \<open>A = v2 u1\<close>, \<open>B = u2 v1\<close>,
  \<open>C = d A B\<close>, \<open>u3 = (A + B)/(1 + C)\<close>, \<open>v3 = (U - A - B)/(1 - C)\<close>.
\<close>

definition add_c :: "point \<Rightarrow> point \<Rightarrow> nat" where
  "add_c p q = fq_mul jubjub_d (fq_mul (fq_mul (snd q) (fst p)) (fq_mul (fst q) (snd p)))"

definition ed_add :: "point \<Rightarrow> point \<Rightarrow> point" where
  "ed_add p q =
     (let a = fq_mul (snd q) (fst p); b = fq_mul (fst q) (snd p); c = add_c p q;
          uu = fq_mul (fq_add (fst p) (snd p)) (fq_sub (snd q) (fq_mul jubjub_a (fst q)))
      in (fq_div (fq_add a b) (fq_add 1 c), fq_div (fq_sub (fq_sub uu a) b) (fq_sub 1 c)))"

text \<open>The witness computation fails with \<open>DivisionByZero\<close> when a denominator is 0.\<close>

definition add_defined :: "point \<Rightarrow> point \<Rightarrow> bool" where
  "add_defined p q \<longleftrightarrow> fq_add 1 (add_c p q) \<noteq> 0 \<and> fq_sub 1 (add_c p q) \<noteq> 0"

text \<open>
  \<open>EdwardsPoint::double\<close>: \<open>T = (u + v)(v - a u)\<close>, \<open>A = u v\<close>, \<open>C = d A\<^sup>2\<close>,
  \<open>u3 = 2A/(1 + C)\<close>, \<open>v3 = (T + (a - 1) A)/(1 - C)\<close>.
\<close>

definition double_c :: "point \<Rightarrow> nat" where
  "double_c p = fq_mul jubjub_d (fq_mul (fq_mul (fst p) (snd p)) (fq_mul (fst p) (snd p)))"

definition ed_double :: "point \<Rightarrow> point" where
  "ed_double p =
     (let a = fq_mul (fst p) (snd p); c = double_c p;
          t = fq_mul (fq_add (fst p) (snd p)) (fq_sub (snd p) (fq_mul jubjub_a (fst p)))
      in (fq_div (fq_add a a) (fq_add 1 c),
          fq_div (fq_add t (fq_mul (fq_sub jubjub_a 1) a)) (fq_sub 1 c)))"

definition double_defined :: "point \<Rightarrow> bool" where
  "double_defined p \<longleftrightarrow> fq_add 1 (double_c p) \<noteq> 0 \<and> fq_sub 1 (double_c p) \<noteq> 0"

text \<open>
  The check \<open>assert_not_small_order\<close> performs: three doublings, each with its
  denominators non-zero, and a non-zero \<open>u\<close> at the end. A point of order dividing 8
  becomes the identity or \<open>(0, -1)\<close> after three doublings and fails it.
\<close>

definition not_small_order :: "point \<Rightarrow> bool" where
  "not_small_order p \<longleftrightarrow>
     (let p1 = ed_double p; p2 = ed_double p1; p3 = ed_double p2
      in double_defined p \<and> double_defined p1 \<and> double_defined p2 \<and> fst p3 \<noteq> 0)"

section \<open>Scalar multiplication\<close>

text \<open>
  \<open>[n] P\<close> by double-and-add from the most significant bit: \<open>[n] P\<close> is the double of
  \<open>[n div 2] P\<close>, plus \<open>P\<close> when \<open>n\<close> is odd. Both the out-of-circuit
  \<open>generator * scalar\<close> and the value of \<open>fixed_base_multiplication\<close> are this
  function of the scalar.
\<close>

fun smul :: "nat \<Rightarrow> point \<Rightarrow> point" where
  "smul n p = (if n = 0 then identity
               else let h = ed_double (smul (n div 2) p) in if even n then h else ed_add h p)"

declare smul.simps [simp del]

lemma smul_0 [simp]: "smul 0 p = identity"
  by (simp add: smul.simps)

section \<open>Representations of a point\<close>

text \<open>
  \<open>repr\<close> (the circuit's \<open>EdwardsPoint::repr\<close>): the 255 bits of \<open>v\<close>, least
  significant first, then the low bit of \<open>u\<close>. \<open>to_bytes\<close> (\<open>AffinePoint::to_bytes\<close>):
  \<open>v\<close> in 32 little-endian bytes with the low bit of \<open>u\<close> in the top bit of byte 31.
\<close>

definition point_repr :: "point \<Rightarrow> bool list" where
  "point_repr p = bits_le fq_num_bits (snd p) @ [odd (fst p)]"

definition point_to_bytes :: "point \<Rightarrow> byte list" where
  "point_to_bytes p = le_bytes 32 (snd p + 2 ^ 255 * (fst p mod 2))"

lemma length_point_repr [simp]: "length (point_repr p) = 256"
  by (simp add: point_repr_def fq_num_bits_def)

lemma length_point_to_bytes [simp]: "length (point_to_bytes p) = 32"
  by (simp add: point_to_bytes_def)

section \<open>Extended coordinates and the 160-byte form\<close>

text \<open>
  A \<open>SubgroupPoint\<close> is stored in extended coordinates \<open>(U, V, Z, T1, T2)\<close> with
  \<open>u = U/Z\<close>, \<open>v = V/Z\<close>, \<open>T1 T2 = U V / Z\<close>; two values are the same point when
  they agree projectively (\<open>ConstantTimeEq\<close> compares \<open>U1 Z2 = U2 Z1\<close> and
  \<open>V1 Z2 = V2 Z1\<close>). The 160-byte form writes the five coordinates, 32 bytes each.
  Its decoder (modelled from the spec, which makes an invalid point encoding fatal) reads
  each coordinate as a canonical \<open>Fq\<close> element and fails on a non-canonical one; it does
  not check that the coordinates describe a point of the curve or of the subgroup.
\<close>

record ext_point =
  ext_u :: nat
  ext_v :: nat
  ext_z :: nat
  ext_t1 :: nat
  ext_t2 :: nat

definition ext_of_affine :: "point \<Rightarrow> ext_point" where
  "ext_of_affine p = \<lparr>ext_u = fst p, ext_v = snd p, ext_z = 1, ext_t1 = fst p, ext_t2 = snd p\<rparr>"

definition ext_eq :: "ext_point \<Rightarrow> ext_point \<Rightarrow> bool" where
  "ext_eq p q \<longleftrightarrow> fq_mul (ext_u p) (ext_z q) = fq_mul (ext_u q) (ext_z p) \<and>
                  fq_mul (ext_v p) (ext_z q) = fq_mul (ext_v q) (ext_z p)"

definition ext_coords :: "ext_point \<Rightarrow> nat list" where
  "ext_coords p = [ext_u p, ext_v p, ext_z p, ext_t1 p, ext_t2 p]"

definition ext_to_bytes_le :: "ext_point \<Rightarrow> byte list" where
  "ext_to_bytes_le p = concat (map (le_bytes 32) (ext_coords p))"

definition ext_from_bytes_le :: "byte list \<Rightarrow> ext_point option" where
  "ext_from_bytes_le bs =
     Option.bind (fq_from_bytes (take 32 bs)) (\<lambda>u.
     Option.bind (fq_from_bytes (take 32 (drop 32 bs))) (\<lambda>v.
     Option.bind (fq_from_bytes (take 32 (drop 64 bs))) (\<lambda>z.
     Option.bind (fq_from_bytes (take 32 (drop 96 bs))) (\<lambda>t1.
     Option.bind (fq_from_bytes (take 32 (drop 128 bs))) (\<lambda>t2.
     Some \<lparr>ext_u = u, ext_v = v, ext_z = z, ext_t1 = t1, ext_t2 = t2\<rparr>)))))"

text \<open>\<open>ExtendedPoint::identity()\<close>: \<open>u = 0, v = 1, z = 1, t1 = t2 = 0\<close>.\<close>

definition ext_identity :: ext_point where
  "ext_identity = \<lparr>ext_u = 0, ext_v = 1, ext_z = 1, ext_t1 = 0, ext_t2 = 0\<rparr>"

section \<open>The fixed generators\<close>

text \<open>
  \<open>SPENDING_KEY_GENERATOR\<close>, \<open>PROOF_GENERATION_KEY_GENERATOR\<close> (from
  \<open>zcash_proofs\<close>) and \<open>PUBLIC_KEY_GENERATOR\<close> (from the crate's constants) are fixed
  points derived by a hash-to-curve the sources do not contain: the model takes them as
  parameters, and every theorem holds for all choices.
\<close>

record generators =
  spending_key_generator :: point
  proof_generation_key_generator :: point
  public_key_generator :: point

section \<open>Basic facts\<close>

text \<open>The constant \<open>d\<close> is \<open>-(10240/10241)\<close>, checked by one multiplication.\<close>

lemma jubjub_d_spec: "fq_mul 10241 jubjub_d = fq_neg 10240"
  by (simp add: fq_mul_def fq_neg_def jubjub_d_def fq_modulus_def)

lemma fq_inv_1 [simp]: "fq_inv 1 = 1"
  by (rule fq_inv_eqI) simp_all

lemma on_curve_identity: "on_curve identity"
  by (simp add: on_curve_def identity_def fq_add_def fq_mul_def)

text \<open>
  The representation the circuit hashes is the bit string of the 32-byte encoding the
  out-of-circuit derivation hashes, for every point with a canonical \<open>v\<close>.
\<close>

lemma point_repr_bytes:
  assumes "snd p < 2 ^ 255"
  shows "bytes_to_bits (point_to_bytes p) = point_repr p"
proof -
  let ?s = "fst p mod 2" and ?x = "snd p + 2 ^ 255 * (fst p mod 2)"
  have "bytes_to_bits (point_to_bytes p) = bits_le (255 + 1) ?x"
    by (simp add: point_to_bytes_def bytes_to_bits_le_bytes)
  also have "\<dots> = bits_le 255 ?x @ bits_le 1 (?x div 2 ^ 255)"
    by (rule bits_le_add)
  also have "bits_le 255 ?x = bits_le 255 (?x mod 2 ^ 255)"
    by (rule bits_le_mod [symmetric])
  also have "?x mod 2 ^ 255 = snd p"
    using assms by simp
  also have "?x div 2 ^ 255 = ?s"
    using assms by simp
  finally show ?thesis
    by (simp add: point_repr_def fq_num_bits_def odd_iff_mod_2_eq_one)
qed

lemma length_ext_to_bytes_le [simp]: "length (ext_to_bytes_le p) = 160"
  by (simp add: ext_to_bytes_le_def ext_coords_def)

lemma ext_roundtrip:
  assumes "\<forall>c \<in> set (ext_coords p). c < fq_modulus"
  shows "ext_from_bytes_le (ext_to_bytes_le p) = Some p"
  using assms modulus_below_256(2)
  by (simp add: ext_from_bytes_le_def ext_to_bytes_le_def ext_coords_def field_from_bytes_def le_nat_le_bytes)

lemma ext_from_bytes_canonical:
  "ext_from_bytes_le bs = Some p \<Longrightarrow> \<forall>c \<in> set (ext_coords p). c < fq_modulus"
  by (auto simp: ext_from_bytes_le_def ext_coords_def bind_eq_Some_conv dest!: field_from_bytes_canonical)

lemma ext_from_bytes_None:
  assumes "length bs = 160"
  shows "ext_from_bytes_le bs = None \<longleftrightarrow>
           \<not> list_all (\<lambda>i. le_nat (take 32 (drop (32 * i) bs)) < fq_modulus) [0, 1, 2, 3, 4]"
  using assms by (simp add: ext_from_bytes_le_def bind_eq_None_conv field_from_bytes_def)

lemma ext_eq_refl: "ext_eq p p"
  by (simp add: ext_eq_def)

text \<open>Every point the formulas produce has canonical coordinates.\<close>

lemma ed_add_lt: "fst (ed_add p q) < fq_modulus \<and> snd (ed_add p q) < fq_modulus"
  by (simp add: ed_add_def Let_def)

lemma ed_double_lt: "fst (ed_double p) < fq_modulus \<and> snd (ed_double p) < fq_modulus"
  by (simp add: ed_double_def Let_def)

lemma smul_lt: "fst (smul n p) < fq_modulus \<and> snd (smul n p) < fq_modulus"
  by (simp add: smul.simps [of n p] identity_def Let_def ed_add_lt ed_double_lt)

lemma ed_double_identity: "ed_double identity = identity"
  by (simp add: ed_double_def double_c_def identity_def Let_def fq_div_def fq_add_def fq_mul_def
                fq_sub_def jubjub_a_def fq_neg_def fq_inv_1 [unfolded One_nat_def])

lemma identity_small_order: "\<not> not_small_order identity"
  unfolding not_small_order_def Let_def ed_double_identity by (simp add: identity_def)

lemma fq_sub_add_cancel:
  assumes "x < fq_modulus" "y < fq_modulus" shows "fq_sub (fq_add x y) x = y"
proof -
  have "fq_sub (fq_add x y) x = ((x + y) mod fq_modulus + (fq_modulus - x) mod fq_modulus) mod fq_modulus"
    using assms by (simp add: fq_sub_def fq_add_def fq_neg_def)
  also have "\<dots> = (x + y + (fq_modulus - x)) mod fq_modulus" by (simp add: mod_add_eq)
  also have "x + y + (fq_modulus - x) = y + fq_modulus" using assms by simp
  finally show ?thesis using assms by simp
qed

lemma ed_add_identity:
  assumes "fst p < fq_modulus" "snd p < fq_modulus" shows "ed_add p identity = p"
proof -
  have s1: "fq_sub 1 0 = 1" by (simp add: fq_sub_def fq_add_def fq_neg_def)
  have "fq_sub (fq_add (fst p) (snd p)) (fst p) = snd p" using assms by (rule fq_sub_add_cancel)
  moreover have "fq_mul (fq_add (fst p) (snd p)) 1 = fq_add (fst p) (snd p)" by (simp add: fq_mul_def fq_add_def)
  moreover have "fq_sub x 0 = x" if "x < fq_modulus" for x using that by (simp add: fq_sub_def fq_add_def fq_neg_def)
  moreover have "fq_add (fst p) 0 = fst p" "fq_add 1 0 = 1" using assms by (simp_all add: fq_add_def)
  moreover have "fq_add (fst p) (snd p) < fq_modulus" by (simp add: fq_add_def)
  ultimately show ?thesis using assms s1
    by (cases p) (simp add: ed_add_def add_c_def identity_def Let_def fq_div_def fq_mul_def fq_sub_def
                            fq_neg_def fq_inv_1 [unfolded One_nat_def])
qed

end
