(* ===== verification/Constraint_System.thy ===== *)
theory Constraint_System
  imports Jubjub
begin

text \<open>
  The constraint system and the gadgets the circuit calls (\<open>bellperson\<close>'s
  \<open>ConstraintSystem\<close>, \<open>boolean\<close>, \<open>blake2s\<close>, and \<open>zcash_proofs\<close>'s \<open>ecc\<close>), at
  the granularity of gadgets: every gadget call allocates its output variables and emits
  one gadget constraint, tagged with the namespace it was called in. The variables a
  gadget allocates internally, and the rank-1 constraints it expands into, are not
  modelled; what a gadget constraint demands of an assignment is its contract
  (\<open>gadget_sat\<close>).

  A constraint system runs in one of two modes. \<open>Prove\<close> (\<open>TestConstraintSystem\<close>,
  the prover) evaluates every witness closure: an allocation without a value fails with
  \<open>AssignmentMissing\<close>, a division by zero in a closure with \<open>DivisionByZero\<close>.
  \<open>Shape\<close> (key generation) evaluates no closure: it records \<open>None\<close> for every value,
  so the variables and constraints it records do not depend on the witness. Every gadget
  computes its values only from the values of its inputs, which are known exactly in
  \<open>Prove\<close> mode.
\<close>

section \<open>Errors, modes, gadget constraints and the system\<close>

datatype synthesis_error = AssignmentMissing | DivisionByZero | AssertionPanic

datatype cs_mode = Prove | Shape

type_synonym var = nat
type_synonym pvar = "var \<times> var"

datatype gen_id = SpendingKeyGen | ProofGenerationKeyGen | PublicKeyGen

datatype gadget =
    Witness_point pvar
  | Not_small_order pvar
  | Boolean_bits "var list"
  | Fixed_base_mul gen_id "var list" pvar
  | Edwards_add pvar pvar pvar
  | Inputize nat var
  | Unpack_strict var "var list"
  | Blake2s "var list" "var list"

record cs =
  cs_mode :: cs_mode
  cs_aux :: "nat option list"
  cs_inputs :: "nat option list"
  cs_gadgets :: "(string \<times> gadget) list"

text \<open>
  The parameters the circuit is built over: the three generators and the in-circuit
  Blake2s with the personalization \<open>CRH_IVK_PERSONALIZATION\<close>, as a function on bit
  strings (the gadget agrees bit for bit with the out-of-circuit hash).
\<close>

record params =
  gens :: generators
  crh_ivk :: "bool list \<Rightarrow> bool list"

definition generator :: "params \<Rightarrow> gen_id \<Rightarrow> point" where
  "generator P g = (case g of
     SpendingKeyGen \<Rightarrow> spending_key_generator (gens P)
   | ProofGenerationKeyGen \<Rightarrow> proof_generation_key_generator (gens P)
   | PublicKeyGen \<Rightarrow> public_key_generator (gens P))"

definition crh_len :: "params \<Rightarrow> bool" where
  "crh_len P \<longleftrightarrow> (\<forall>bs. length (crh_ivk P bs) = 256)"

definition cs_new :: "cs_mode \<Rightarrow> cs" where
  "cs_new m = \<lparr>cs_mode = m, cs_aux = [], cs_inputs = [], cs_gadgets = []\<rparr>"

section \<open>Reading values\<close>

definition var_val :: "cs \<Rightarrow> var \<Rightarrow> nat option" where
  "var_val cs x = (if x < length (cs_aux cs) then cs_aux cs ! x else None)"

definition pt_val :: "cs \<Rightarrow> pvar \<Rightarrow> point option" where
  "pt_val cs p = (case (var_val cs (fst p), var_val cs (snd p)) of
                    (Some a, Some b) \<Rightarrow> Some (a, b)
                  | _ \<Rightarrow> None)"

definition bits_vals :: "cs \<Rightarrow> var list \<Rightarrow> bool list option" where
  "bits_vals cs bs = map_option (map (\<lambda>a. a = 1)) (those (map (var_val cs) bs))"

section \<open>Allocation\<close>

definition alloc :: "nat option \<Rightarrow> cs \<Rightarrow> synthesis_error + (var \<times> cs)" where
  "alloc x cs =
     (case cs_mode cs of
        Prove \<Rightarrow> (case x of
                    None \<Rightarrow> Inl AssignmentMissing
                  | Some a \<Rightarrow> Inr (length (cs_aux cs), cs\<lparr>cs_aux := cs_aux cs @ [Some a]\<rparr>))
      | Shape \<Rightarrow> Inr (length (cs_aux cs), cs\<lparr>cs_aux := cs_aux cs @ [None]\<rparr>))"

definition alloc_input :: "nat option \<Rightarrow> cs \<Rightarrow> synthesis_error + (nat \<times> cs)" where
  "alloc_input x cs =
     (case cs_mode cs of
        Prove \<Rightarrow> (case x of
                    None \<Rightarrow> Inl AssignmentMissing
                  | Some a \<Rightarrow> Inr (length (cs_inputs cs), cs\<lparr>cs_inputs := cs_inputs cs @ [Some a]\<rparr>))
      | Shape \<Rightarrow> Inr (length (cs_inputs cs), cs\<lparr>cs_inputs := cs_inputs cs @ [None]\<rparr>))"

fun allocs :: "nat option list \<Rightarrow> cs \<Rightarrow> synthesis_error + (var list \<times> cs)" where
  "allocs [] cs = Inr ([], cs)"
| "allocs (x # xs) cs =
     bind_res (alloc x cs) (\<lambda>(v, cs1). bind_res (allocs xs cs1) (\<lambda>(vs, cs2). Inr (v # vs, cs2)))"

definition alloc_point :: "point option \<Rightarrow> cs \<Rightarrow> synthesis_error + (pvar \<times> cs)" where
  "alloc_point r cs =
     bind_res (alloc (map_option fst r) cs) (\<lambda>(u, cs1).
     bind_res (alloc (map_option snd r) cs1) (\<lambda>(v, cs2). Inr ((u, v), cs2)))"

definition emit :: "string \<Rightarrow> gadget \<Rightarrow> cs \<Rightarrow> cs" where
  "emit ns g cs = cs\<lparr>cs_gadgets := cs_gadgets cs @ [(ns, g)]\<rparr>"

section \<open>The gadgets\<close>

text \<open>
  The values a bit decomposition or a hash allocates: known exactly when its input is.
\<close>

definition bit_values :: "nat \<Rightarrow> nat option \<Rightarrow> nat option list" where
  "bit_values n x = (case x of Some a \<Rightarrow> map (\<lambda>b. Some (of_bool b)) (bits_le n a) | None \<Rightarrow> replicate n None)"

definition hash_values :: "params \<Rightarrow> bool list option \<Rightarrow> nat option list" where
  "hash_values P x = (case x of Some vals \<Rightarrow> map (\<lambda>b. Some (of_bool b)) (crh_ivk P vals) | None \<Rightarrow> replicate 256 None)"

text \<open>\<open>EdwardsPoint::witness\<close>: allocate \<open>u\<close> and \<open>v\<close>, constrain the point to the curve.\<close>

definition witness_point :: "string \<Rightarrow> point option \<Rightarrow> cs \<Rightarrow> synthesis_error + (pvar \<times> cs)" where
  "witness_point ns p cs =
     bind_res (alloc_point p cs) (\<lambda>(pv, cs1). Inr (pv, emit ns (Witness_point pv) cs1))"

text \<open>
  \<open>assert_not_small_order\<close>: double three times and assert that \<open>u\<close> is non-zero by
  witnessing its inverse; each doubling divides by \<open>1 + C\<close> and \<open>1 - C\<close>.
\<close>

definition assert_not_small_order :: "string \<Rightarrow> pvar \<Rightarrow> cs \<Rightarrow> synthesis_error + cs" where
  "assert_not_small_order ns p cs =
     (case pt_val cs p of
        None \<Rightarrow> Inr (emit ns (Not_small_order p) cs)
      | Some a \<Rightarrow> if not_small_order a then Inr (emit ns (Not_small_order p) cs)
                 else Inl DivisionByZero)"

text \<open>
  \<open>field_into_boolean_vec_le\<close>: the \<open>n\<close> bits of a scalar, least significant first,
  each allocated as a boolean variable.
\<close>

definition boolean_vec :: "string \<Rightarrow> nat \<Rightarrow> nat option \<Rightarrow> cs \<Rightarrow> synthesis_error + (var list \<times> cs)" where
  "boolean_vec ns n x cs =
     bind_res (allocs (bit_values n x) cs) (\<lambda>(bs, cs1). Inr (bs, emit ns (Boolean_bits bs) cs1))"

text \<open>\<open>fixed_base_multiplication\<close>: the generator times the value of the bits.\<close>

definition fixed_base_mul ::
  "params \<Rightarrow> string \<Rightarrow> gen_id \<Rightarrow> var list \<Rightarrow> cs \<Rightarrow> synthesis_error + (pvar \<times> cs)" where
  "fixed_base_mul P ns g bs cs =
     bind_res (alloc_point (map_option (\<lambda>vals. smul (bits_val vals) (generator P g)) (bits_vals cs bs)) cs)
       (\<lambda>(pv, cs1). Inr (pv, emit ns (Fixed_base_mul g bs pv) cs1))"

text \<open>\<open>EdwardsPoint::add\<close>: its closures fail when a denominator is 0.\<close>

definition edwards_add :: "string \<Rightarrow> pvar \<Rightarrow> pvar \<Rightarrow> cs \<Rightarrow> synthesis_error + (pvar \<times> cs)" where
  "edwards_add ns p q cs =
     bind_res (case (pt_val cs p, pt_val cs q) of
                 (Some a, Some b) \<Rightarrow> if add_defined a b then Inr (Some (ed_add a b)) else Inl DivisionByZero
               | _ \<Rightarrow> Inr None) (\<lambda>r.
     bind_res (alloc_point r cs) (\<lambda>(pv, cs1). Inr (pv, emit ns (Edwards_add p q pv) cs1)))"

text \<open>\<open>EdwardsPoint::inputize\<close>: \<open>u\<close>, then \<open>v\<close>, each a new public input equal to it.\<close>

definition inputize :: "string \<Rightarrow> pvar \<Rightarrow> cs \<Rightarrow> synthesis_error + cs" where
  "inputize ns p cs =
     bind_res (alloc_input (var_val cs (fst p)) cs) (\<lambda>(i, cs1).
     bind_res (alloc_input (var_val cs (snd p)) (emit ns (Inputize i (fst p)) cs1)) (\<lambda>(j, cs2).
     Inr (emit ns (Inputize j (snd p)) cs2)))"

text \<open>
  \<open>into_bits_le_strict\<close>: the 255 bits of an \<open>Fq\<close> value with the check that they
  encode a value below the modulus; \<open>EdwardsPoint::repr\<close> unpacks \<open>u\<close>, then \<open>v\<close>,
  and returns the bits of \<open>v\<close> followed by the low bit of \<open>u\<close>.
\<close>

definition unpack_strict :: "string \<Rightarrow> var \<Rightarrow> cs \<Rightarrow> synthesis_error + (var list \<times> cs)" where
  "unpack_strict ns x cs =
     bind_res (allocs (bit_values fq_num_bits (var_val cs x)) cs)
       (\<lambda>(bs, cs1). Inr (bs, emit ns (Unpack_strict x bs) cs1))"

definition repr_gadget :: "string \<Rightarrow> pvar \<Rightarrow> cs \<Rightarrow> synthesis_error + (var list \<times> cs)" where
  "repr_gadget ns p cs =
     bind_res (unpack_strict ns (fst p) cs) (\<lambda>(ub, cs1).
     bind_res (unpack_strict ns (snd p) cs1) (\<lambda>(vb, cs2). Inr (vb @ [hd ub], cs2)))"

text \<open>\<open>blake2s\<close>: 256 output bits, the hash of the input bits.\<close>

definition blake2s_gadget :: "params \<Rightarrow> string \<Rightarrow> var list \<Rightarrow> cs \<Rightarrow> synthesis_error + (var list \<times> cs)" where
  "blake2s_gadget P ns ins cs =
     bind_res (allocs (hash_values P (bits_vals cs ins)) cs)
       (\<lambda>(outs, cs1). Inr (outs, emit ns (Blake2s ins outs) cs1))"

section \<open>What a gadget constraint demands\<close>

text \<open>
  An assignment gives every auxiliary variable and every public input a value. A bit
  variable holds 0 or 1 and reads as the boolean \<open>1\<close>.
\<close>

definition bit_of :: "(var \<Rightarrow> nat) \<Rightarrow> var \<Rightarrow> bool" where
  "bit_of \<sigma> b = (\<sigma> b = 1)"

definition is_bits :: "(var \<Rightarrow> nat) \<Rightarrow> var list \<Rightarrow> bool" where
  "is_bits \<sigma> bs \<longleftrightarrow> list_all (\<lambda>b. \<sigma> b \<le> 1) bs"

fun gadget_sat :: "params \<Rightarrow> (var \<Rightarrow> nat) \<Rightarrow> (nat \<Rightarrow> nat) \<Rightarrow> gadget \<Rightarrow> bool" where
  "gadget_sat P \<sigma> \<iota> (Witness_point p) = on_curve (\<sigma> (fst p), \<sigma> (snd p))"
| "gadget_sat P \<sigma> \<iota> (Not_small_order p) = not_small_order (\<sigma> (fst p), \<sigma> (snd p))"
| "gadget_sat P \<sigma> \<iota> (Boolean_bits bs) = is_bits \<sigma> bs"
| "gadget_sat P \<sigma> \<iota> (Fixed_base_mul g bs p) =
     ((\<sigma> (fst p), \<sigma> (snd p)) = smul (bits_val (map (bit_of \<sigma>) bs)) (generator P g))"
| "gadget_sat P \<sigma> \<iota> (Edwards_add p q r) =
     (add_defined (\<sigma> (fst p), \<sigma> (snd p)) (\<sigma> (fst q), \<sigma> (snd q)) \<and>
      (\<sigma> (fst r), \<sigma> (snd r)) = ed_add (\<sigma> (fst p), \<sigma> (snd p)) (\<sigma> (fst q), \<sigma> (snd q)))"
| "gadget_sat P \<sigma> \<iota> (Inputize i x) = (\<iota> i = \<sigma> x)"
| "gadget_sat P \<sigma> \<iota> (Unpack_strict x bs) =
     (is_bits \<sigma> bs \<and> bits_val (map (bit_of \<sigma>) bs) = \<sigma> x \<and> \<sigma> x < fq_modulus)"
| "gadget_sat P \<sigma> \<iota> (Blake2s ins outs) =
     (is_bits \<sigma> outs \<and> map (bit_of \<sigma>) outs = crh_ivk P (map (bit_of \<sigma>) ins))"

definition cs_sat :: "params \<Rightarrow> (var \<Rightarrow> nat) \<Rightarrow> (nat \<Rightarrow> nat) \<Rightarrow> cs \<Rightarrow> bool" where
  "cs_sat P \<sigma> \<iota> cs \<longleftrightarrow> list_all (\<lambda>(ns, g). gadget_sat P \<sigma> \<iota> g) (cs_gadgets cs)"

text \<open>
  The assignment a proving run recorded, and \<open>TestConstraintSystem\<close>'s checks:
  \<open>is_satisfied\<close> (every constraint holds under it) and \<open>verify\<close> (\<open>tcs_verify\<close>),
  which asserts that the expected vector has one entry per public input and then compares
  them pairwise, and nothing else. The system's input vector starts with the constant
  \<open>ONE\<close>, which \<open>cs_inputs\<close> leaves out: \<open>verify\<close>'s \<open>assert_eq!(expected.len() + 1,
  self.inputs.len())\<close> and \<open>skip(1)\<close> are written against that. \<open>verify\<close> is the
  predicate "the call returns \<open>true\<close>".
\<close>

definition aux_assignment :: "cs \<Rightarrow> var \<Rightarrow> nat" where
  "aux_assignment cs x = (case var_val cs x of Some a \<Rightarrow> a | None \<Rightarrow> 0)"

definition input_assignment :: "cs \<Rightarrow> nat \<Rightarrow> nat" where
  "input_assignment cs i = (if i < length (cs_inputs cs) then (case cs_inputs cs ! i of Some a \<Rightarrow> a | None \<Rightarrow> 0) else 0)"

definition is_satisfied :: "params \<Rightarrow> cs \<Rightarrow> bool" where
  "is_satisfied P cs \<longleftrightarrow> cs_sat P (aux_assignment cs) (input_assignment cs) cs"

definition tcs_verify :: "cs \<Rightarrow> nat list \<Rightarrow> failure + bool" where
  "tcs_verify cs expected =
     (if length expected + 1 \<noteq> Suc (length (cs_inputs cs))
      then Inl (Panic ''assertion failed: left == right'')
      else Inr (list_all (\<lambda>(a, b). a = Some b) (zip (cs_inputs cs) expected)))"

definition verify :: "cs \<Rightarrow> nat list \<Rightarrow> bool" where
  "verify cs expected \<longleftrightarrow> tcs_verify cs expected = Inr True"

section \<open>verify compares the whole input vector\<close>

lemma list_all_zip_Some:
  "length ys = length xs \<Longrightarrow> list_all (\<lambda>(a, b). a = Some b) (zip ys xs) \<longleftrightarrow> ys = map Some xs"
proof (induction ys arbitrary: xs)
  case (Cons a ys)
  then obtain x xs' where "xs = x # xs'" "length ys = length xs'" by (cases xs) auto
  with Cons.IH show ?case by simp
qed simp

lemma verify_iff: "verify cs xs \<longleftrightarrow> cs_inputs cs = map Some xs"
  by (auto simp: verify_def tcs_verify_def list_all_zip_Some dest: arg_cong [where f = length])

lemma tcs_verify_eq: "length xs = length (cs_inputs cs) \<Longrightarrow> tcs_verify cs xs = Inr (verify cs xs)"
  by (simp add: verify_def tcs_verify_def)

section \<open>Frame lemmas: what a successful call appends\<close>

text \<open>
  What a mode stores for a value, and the relation \<open>extends_by cs k j gs cs'\<close>: \<open>cs'\<close>
  is \<open>cs\<close> with \<open>k\<close> more variables, \<open>j\<close> more public inputs and the gadget
  constraints \<open>gs\<close> appended, in the same mode, every new value known in \<open>Prove\<close>
  mode and unknown in \<open>Shape\<close> mode. Every gadget call that succeeds is such an
  extension, whatever the mode, with the fresh variables it returns.
\<close>

definition stored :: "cs_mode \<Rightarrow> nat option \<Rightarrow> nat option" where
  "stored m x = (if m = Prove then x else None)"

definition extends_by :: "cs \<Rightarrow> nat \<Rightarrow> nat \<Rightarrow> (string \<times> gadget) list \<Rightarrow> cs \<Rightarrow> bool" where
  "extends_by cs k j gs cs' \<longleftrightarrow>
     cs_mode cs' = cs_mode cs \<and> cs_gadgets cs' = cs_gadgets cs @ gs \<and>
     (\<exists>ys. cs_aux cs' = cs_aux cs @ ys \<and> length ys = k \<and>
           (cs_mode cs = Shape \<longrightarrow> ys = replicate k None) \<and> (cs_mode cs = Prove \<longrightarrow> None \<notin> set ys)) \<and>
     (\<exists>zs. cs_inputs cs' = cs_inputs cs @ zs \<and> length zs = j \<and>
           (cs_mode cs = Shape \<longrightarrow> zs = replicate j None) \<and> (cs_mode cs = Prove \<longrightarrow> None \<notin> set zs))"

lemma alloc_Inr:
  "alloc x cs = Inr (v, cs') \<longleftrightarrow>
     (cs_mode cs = Prove \<longrightarrow> x \<noteq> None) \<and> v = length (cs_aux cs) \<and>
     cs' = cs\<lparr>cs_aux := cs_aux cs @ [stored (cs_mode cs) x]\<rparr>"
  by (cases "cs_mode cs"; cases x) (auto simp: alloc_def stored_def)

lemma alloc_input_Inr:
  "alloc_input x cs = Inr (i, cs') \<longleftrightarrow>
     (cs_mode cs = Prove \<longrightarrow> x \<noteq> None) \<and> i = length (cs_inputs cs) \<and>
     cs' = cs\<lparr>cs_inputs := cs_inputs cs @ [stored (cs_mode cs) x]\<rparr>"
  by (cases "cs_mode cs"; cases x) (auto simp: alloc_input_def stored_def)

lemma allocs_Inr:
  "allocs xs cs = Inr (vs, cs') \<longleftrightarrow>
     (cs_mode cs = Prove \<longrightarrow> None \<notin> set xs) \<and>
     vs = [length (cs_aux cs)..<length (cs_aux cs) + length xs] \<and>
     cs' = cs\<lparr>cs_aux := cs_aux cs @ map (stored (cs_mode cs)) xs\<rparr>"
proof (induction xs arbitrary: cs vs cs')
  case Nil
  then show ?case by auto
next
  case (Cons x xs)
  show ?case
    by (cases x) (auto simp: alloc_Inr Cons.IH upt_conv_Cons simp del: upt_Suc)
qed

lemma alloc_point_Inr:
  "alloc_point r cs = Inr (pv, cs') \<longleftrightarrow>
     (cs_mode cs = Prove \<longrightarrow> r \<noteq> None) \<and>
     pv = (length (cs_aux cs), Suc (length (cs_aux cs))) \<and>
     cs' = cs\<lparr>cs_aux := cs_aux cs @ [stored (cs_mode cs) (map_option fst r), stored (cs_mode cs) (map_option snd r)]\<rparr>"
  by (auto simp: alloc_point_def alloc_Inr)

lemma extends_by_trans:
  assumes "extends_by cs k j gs cs'" and "extends_by cs' k' j' gs' cs''"
  shows "extends_by cs (k + k') (j + j') (gs @ gs') cs''"
  using assms unfolding extends_by_def
  by (elim conjE exE) (rule conjI, simp, rule conjI, simp, rule conjI;
      rule exI, rule conjI, simp, auto simp: replicate_add)

lemma stored_Shape: "stored Shape x = None" and stored_Prove: "stored Prove x = x"
  by (simp_all add: stored_def)

lemma map_stored_Shape: "map (stored Shape) xs = replicate (length xs) None"
  by (induction xs) (simp_all add: stored_Shape)

lemma alloc_extends:
  "alloc x cs = Inr (v, cs') \<Longrightarrow> v = length (cs_aux cs) \<and> extends_by cs 1 0 [] cs'"
  by (cases "cs_mode cs") (auto simp: alloc_Inr extends_by_def stored_def)

lemma allocs_extends:
  "allocs xs cs = Inr (vs, cs') \<Longrightarrow>
     vs = [length (cs_aux cs)..<length (cs_aux cs) + length xs] \<and> extends_by cs (length xs) 0 [] cs'"
  by (cases "cs_mode cs") (auto simp: allocs_Inr extends_by_def map_stored_Shape stored_Prove)

lemma alloc_point_extends:
  "alloc_point r cs = Inr (pv, cs') \<Longrightarrow>
     pv = (length (cs_aux cs), Suc (length (cs_aux cs))) \<and> extends_by cs 2 0 [] cs'"
  by (cases "cs_mode cs") (auto simp: alloc_point_Inr extends_by_def stored_def numeral_2_eq_2)

lemma emit_extends: "extends_by cs k j gs cs' \<Longrightarrow> extends_by cs k j (gs @ [(ns, g)]) (emit ns g cs')"
  by (simp add: extends_by_def emit_def)

lemma witness_point_extends:
  "witness_point ns p cs = Inr (pv, cs') \<Longrightarrow>
     pv = (length (cs_aux cs), Suc (length (cs_aux cs))) \<and>
     extends_by cs 2 0 [(ns, Witness_point pv)] cs'"
  by (auto simp: witness_point_def dest!: alloc_point_extends intro: emit_extends [where gs = "[]", simplified])


lemma alloc_input_extends:
  "alloc_input x cs = Inr (i, cs') \<Longrightarrow> i = length (cs_inputs cs) \<and> extends_by cs 0 1 [] cs'"
  by (cases "cs_mode cs") (auto simp: alloc_input_Inr extends_by_def stored_def)

lemma assert_not_small_order_extends:
  "assert_not_small_order ns p cs = Inr cs' \<Longrightarrow> extends_by cs 0 0 [(ns, Not_small_order p)] cs'"
  using emit_extends [of cs 0 0 "[]" cs ns "Not_small_order p"]
  by (auto simp: assert_not_small_order_def extends_by_def split: option.splits if_splits)

lemma length_bit_values [simp]: "length (bit_values n x) = n"
  by (simp add: bit_values_def split: option.splits)

lemma boolean_vec_extends:
  "boolean_vec ns n x cs = Inr (bs, cs') \<Longrightarrow>
     bs = [length (cs_aux cs)..<length (cs_aux cs) + n] \<and> extends_by cs n 0 [(ns, Boolean_bits bs)] cs'"
  unfolding boolean_vec_def
  by (auto dest!: allocs_extends intro: emit_extends [where gs = "[]", simplified])

lemma fixed_base_mul_extends:
  "fixed_base_mul P ns g bs cs = Inr (pv, cs') \<Longrightarrow>
     pv = (length (cs_aux cs), Suc (length (cs_aux cs))) \<and> extends_by cs 2 0 [(ns, Fixed_base_mul g bs pv)] cs'"
  by (auto simp: fixed_base_mul_def dest!: alloc_point_extends intro: emit_extends [where gs = "[]", simplified])

lemma edwards_add_extends:
  "edwards_add ns p q cs = Inr (pv, cs') \<Longrightarrow>
     pv = (length (cs_aux cs), Suc (length (cs_aux cs))) \<and> extends_by cs 2 0 [(ns, Edwards_add p q pv)] cs'"
  by (auto simp: edwards_add_def dest!: alloc_point_extends intro: emit_extends [where gs = "[]", simplified])

lemma extends_by_lengths:
  "extends_by cs k j gs cs' \<Longrightarrow>
     length (cs_aux cs') = length (cs_aux cs) + k \<and> length (cs_inputs cs') = length (cs_inputs cs) + j"
  by (auto simp: extends_by_def)

lemma emit_inputs [simp]: "cs_inputs (emit ns g cs) = cs_inputs cs"
  and emit_aux [simp]: "cs_aux (emit ns g cs) = cs_aux cs"
  and emit_mode [simp]: "cs_mode (emit ns g cs) = cs_mode cs"
  by (simp_all add: emit_def)

lemma inputize_extends:
  assumes "inputize ns p cs = Inr cs'"
  shows "extends_by cs 0 2 [(ns, Inputize (length (cs_inputs cs)) (fst p)),
                            (ns, Inputize (Suc (length (cs_inputs cs))) (snd p))] cs'"
proof -
  from assms obtain i cs1 j cs2 where
    a1: "alloc_input (var_val cs (fst p)) cs = Inr (i, cs1)" and
    a2: "alloc_input (var_val cs (snd p)) (emit ns (Inputize i (fst p)) cs1) = Inr (j, cs2)" and
    c: "cs' = emit ns (Inputize j (snd p)) cs2"
    by (auto simp: inputize_def split: prod.splits)
  from alloc_input_extends [OF a1] have i: "i = length (cs_inputs cs)" and e1: "extends_by cs 0 1 [] cs1"
    by auto
  from emit_extends [OF e1] have e1': "extends_by cs 0 1 [(ns, Inputize i (fst p))] (emit ns (Inputize i (fst p)) cs1)"
    by simp
  from alloc_input_extends [OF a2] extends_by_lengths [OF e1]
  have j: "j = Suc (length (cs_inputs cs))"
    and e2: "extends_by (emit ns (Inputize i (fst p)) cs1) 0 1 [] cs2" by auto
  from emit_extends [OF e2] have e2': "extends_by (emit ns (Inputize i (fst p)) cs1) 0 1 [(ns, Inputize j (snd p))] cs'"
    by (simp add: c)
  from extends_by_trans [OF e1' e2'] show ?thesis by (simp add: i j numeral_2_eq_2)
qed

lemma unpack_strict_extends:
  "unpack_strict ns x cs = Inr (bs, cs') \<Longrightarrow>
     bs = [length (cs_aux cs)..<length (cs_aux cs) + fq_num_bits] \<and>
     extends_by cs fq_num_bits 0 [(ns, Unpack_strict x bs)] cs'"
  unfolding unpack_strict_def
  by (auto dest!: allocs_extends intro: emit_extends [where gs = "[]", simplified])


lemma repr_gadget_extends:
  assumes "repr_gadget ns p cs = Inr (rb, cs')"
  shows "rb = [length (cs_aux cs) + fq_num_bits..<length (cs_aux cs) + 2 * fq_num_bits] @ [length (cs_aux cs)] \<and>
         extends_by cs (2 * fq_num_bits) 0
           [(ns, Unpack_strict (fst p) [length (cs_aux cs)..<length (cs_aux cs) + fq_num_bits]),
            (ns, Unpack_strict (snd p) [length (cs_aux cs) + fq_num_bits..<length (cs_aux cs) + 2 * fq_num_bits])] cs'"
proof -
  from assms obtain ub cs1 vb where
    u: "unpack_strict ns (fst p) cs = Inr (ub, cs1)" and
    v: "unpack_strict ns (snd p) cs1 = Inr (vb, cs')" and
    rb: "rb = vb @ [hd ub]"
    by (auto simp: repr_gadget_def split: prod.splits)
  from unpack_strict_extends [OF u] have ub: "ub = [length (cs_aux cs)..<length (cs_aux cs) + fq_num_bits]"
    and e1: "extends_by cs fq_num_bits 0 [(ns, Unpack_strict (fst p) ub)] cs1" by auto
  from unpack_strict_extends [OF v] extends_by_lengths [OF e1]
  have vb: "vb = [length (cs_aux cs) + fq_num_bits..<length (cs_aux cs) + 2 * fq_num_bits]"
    and e2: "extends_by cs1 fq_num_bits 0 [(ns, Unpack_strict (snd p) vb)] cs'" by (auto simp: mult_2 add.assoc)
  have "hd ub = length (cs_aux cs)" by (simp add: ub fq_num_bits_def)
  with extends_by_trans [OF e1 e2] show ?thesis by (simp add: rb ub vb mult_2)
qed

lemma blake2s_extends:
  "crh_len P \<Longrightarrow> blake2s_gadget P ns ins cs = Inr (outs, cs') \<Longrightarrow>
     outs = [length (cs_aux cs)..<length (cs_aux cs) + 256] \<and> extends_by cs 256 0 [(ns, Blake2s ins outs)] cs'"
  unfolding blake2s_gadget_def
  by (auto simp: crh_len_def hash_values_def split: option.splits
           dest!: allocs_extends intro: emit_extends [where gs = "[]", simplified])

section \<open>Shape mode never fails\<close>

text \<open>
  A system in \<open>Shape\<close> mode stores no value; every gadget call on it succeeds, since
  allocation evaluates no closure and every check inside a gadget is on a known value.
\<close>

definition shape_ok :: "cs \<Rightarrow> bool" where
  "shape_ok cs \<longleftrightarrow> cs_mode cs = Shape \<and> list_all (\<lambda>x. x = None) (cs_aux cs)"

lemma shape_ok_var_val: "shape_ok cs \<Longrightarrow> var_val cs x = None"
  by (auto simp: shape_ok_def var_val_def list_all_length)

lemma shape_ok_pt_val: "shape_ok cs \<Longrightarrow> pt_val cs p = None"
  by (simp add: pt_val_def shape_ok_var_val)

lemma shape_ok_extends: "shape_ok cs \<Longrightarrow> extends_by cs k j gs cs' \<Longrightarrow> shape_ok cs'"
  by (auto simp: shape_ok_def extends_by_def list_all_iff)

lemma allocs_Shape: "cs_mode cs = Shape \<Longrightarrow> \<exists>r. allocs xs cs = Inr r"
  by (simp add: allocs_Inr)

lemma alloc_point_Shape: "cs_mode cs = Shape \<Longrightarrow> \<exists>r. alloc_point x cs = Inr r"
  by (simp add: alloc_point_Inr)

lemma alloc_input_Shape: "cs_mode cs = Shape \<Longrightarrow> \<exists>r. alloc_input x cs = Inr r"
  by (simp add: alloc_input_Inr)

lemma shape_ok_mode: "shape_ok cs \<Longrightarrow> cs_mode cs = Shape"
  by (simp add: shape_ok_def)

lemma witness_point_Shape: "shape_ok cs \<Longrightarrow> \<exists>r. witness_point ns x cs = Inr r"
  using alloc_point_Shape [OF shape_ok_mode] by (fastforce simp: witness_point_def)

lemma assert_not_small_order_Shape: "shape_ok cs \<Longrightarrow> \<exists>r. assert_not_small_order ns p cs = Inr r"
  by (simp add: assert_not_small_order_def shape_ok_pt_val)

lemma boolean_vec_Shape: "shape_ok cs \<Longrightarrow> \<exists>r. boolean_vec ns n x cs = Inr r"
  using allocs_Shape [OF shape_ok_mode] by (fastforce simp: boolean_vec_def)

lemma fixed_base_mul_Shape: "shape_ok cs \<Longrightarrow> \<exists>r. fixed_base_mul P ns g bs cs = Inr r"
  using alloc_point_Shape [OF shape_ok_mode] by (fastforce simp: fixed_base_mul_def)

lemma edwards_add_Shape: "shape_ok cs \<Longrightarrow> \<exists>r. edwards_add ns p q cs = Inr r"
  using alloc_point_Shape [OF shape_ok_mode] by (fastforce simp: edwards_add_def shape_ok_pt_val)

lemma inputize_Shape: "shape_ok cs \<Longrightarrow> \<exists>r. inputize ns p cs = Inr r"
  by (auto simp: inputize_def alloc_input_Inr shape_ok_mode)

lemma unpack_strict_Shape: "shape_ok cs \<Longrightarrow> \<exists>r. unpack_strict ns x cs = Inr r"
  using allocs_Shape [OF shape_ok_mode] by (fastforce simp: unpack_strict_def)

lemma repr_gadget_Shape: "shape_ok cs \<Longrightarrow> \<exists>r. repr_gadget ns p cs = Inr r"
proof -
  assume ok: "shape_ok cs"
  then obtain ub cs1 where u: "unpack_strict ns (fst p) cs = Inr (ub, cs1)"
    using unpack_strict_Shape by (metis surj_pair)
  from ok unpack_strict_extends [OF u] have "shape_ok cs1" by (blast intro: shape_ok_extends)
  then obtain vb cs2 where "unpack_strict ns (snd p) cs1 = Inr (vb, cs2)"
    using unpack_strict_Shape by (metis surj_pair)
  with u show ?thesis by (simp add: repr_gadget_def)
qed

lemma blake2s_Shape: "shape_ok cs \<Longrightarrow> \<exists>r. blake2s_gadget P ns ins cs = Inr r"
  using allocs_Shape [OF shape_ok_mode] by (fastforce simp: blake2s_gadget_def)

end
