(* ===== verification/Prove_Mode.thy ===== *)
theory Prove_Mode
  imports Constraint_System
begin

text \<open>
  The prover's run of the gadgets (\<open>Prove\<close> mode, \<open>TestConstraintSystem\<close>): what each
  gadget fails with, and the invariant \<open>prove_inv\<close> of a proving run (every variable
  and input has a value, every gadget constraint mentions only allocated variables and
  inputs, and the recorded assignment satisfies every constraint). Each gadget, given
  values for its inputs and its preconditions, succeeds, keeps the invariant and gives its
  outputs the values the out-of-circuit computation gives.
\<close>

section \<open>The invariant of a proving run\<close>

fun gadget_vars :: "gadget \<Rightarrow> var list" where
  "gadget_vars (Witness_point p) = [fst p, snd p]"
| "gadget_vars (Not_small_order p) = [fst p, snd p]"
| "gadget_vars (Boolean_bits bs) = bs"
| "gadget_vars (Fixed_base_mul g bs p) = bs @ [fst p, snd p]"
| "gadget_vars (Edwards_add p q r) = [fst p, snd p, fst q, snd q, fst r, snd r]"
| "gadget_vars (Inputize i x) = [x]"
| "gadget_vars (Unpack_strict x bs) = x # bs"
| "gadget_vars (Blake2s ins outs) = ins @ outs"

fun gadget_ins :: "gadget \<Rightarrow> nat list" where
  "gadget_ins (Inputize i x) = [i]"
| "gadget_ins _ = []"

definition gadget_wf :: "cs \<Rightarrow> gadget \<Rightarrow> bool" where
  "gadget_wf cs g \<longleftrightarrow>
     list_all (\<lambda>x. x < length (cs_aux cs)) (gadget_vars g) \<and>
     list_all (\<lambda>i. i < length (cs_inputs cs)) (gadget_ins g)"

definition prove_inv :: "params \<Rightarrow> cs \<Rightarrow> bool" where
  "prove_inv P cs \<longleftrightarrow>
     cs_mode cs = Prove \<and> None \<notin> set (cs_aux cs) \<and> None \<notin> set (cs_inputs cs) \<and>
     list_all (\<lambda>(ns, g). gadget_wf cs g) (cs_gadgets cs) \<and> is_satisfied P cs"

section \<open>What a gadget fails with\<close>

lemma alloc_Inl: "alloc x cs = Inl e \<Longrightarrow> e = AssignmentMissing"
  by (auto simp: alloc_def split: cs_mode.splits option.splits)

lemma alloc_input_Inl: "alloc_input x cs = Inl e \<Longrightarrow> e = AssignmentMissing"
  by (auto simp: alloc_input_def split: cs_mode.splits option.splits)

lemma allocs_Inl: "allocs xs cs = Inl e \<Longrightarrow> e = AssignmentMissing"
  by (induction xs cs rule: allocs.induct) (auto dest: alloc_Inl)

lemma alloc_point_Inl: "alloc_point r cs = Inl e \<Longrightarrow> e = AssignmentMissing"
  by (auto simp: alloc_point_def dest: alloc_Inl)

lemma gadget_Inl:
  "witness_point ns r cs = Inl e \<Longrightarrow> e = AssignmentMissing"
  "boolean_vec ns n x cs = Inl e \<Longrightarrow> e = AssignmentMissing"
  "fixed_base_mul P ns g bs cs = Inl e \<Longrightarrow> e = AssignmentMissing"
  "inputize ns p cs = Inl e \<Longrightarrow> e = AssignmentMissing"
  "unpack_strict ns y cs = Inl e \<Longrightarrow> e = AssignmentMissing"
  "repr_gadget ns p cs = Inl e \<Longrightarrow> e = AssignmentMissing"
  "blake2s_gadget P ns ins cs = Inl e \<Longrightarrow> e = AssignmentMissing"
  "assert_not_small_order ns p cs = Inl e \<Longrightarrow> e = DivisionByZero"
  "edwards_add ns p q cs = Inl e \<Longrightarrow> e \<noteq> AssertionPanic"
  by (auto simp: witness_point_def boolean_vec_def fixed_base_mul_def inputize_def unpack_strict_def
       repr_gadget_def blake2s_gadget_def assert_not_small_order_def edwards_add_def
       dest: alloc_point_Inl allocs_Inl alloc_input_Inl split: option.splits if_splits prod.splits)

section \<open>The invariant is kept by every extension that satisfies its new constraints\<close>

lemma gadget_sat_cong:
  assumes "\<forall>x\<in>set (gadget_vars g). \<sigma> x = \<sigma>' x" "\<forall>i\<in>set (gadget_ins g). \<iota> i = \<iota>' i"
  shows "gadget_sat P \<sigma> \<iota> g = gadget_sat P \<sigma>' \<iota>' g"
proof -
  have m: "map (bit_of \<sigma>) bs = map (bit_of \<sigma>') bs \<and> is_bits \<sigma> bs = is_bits \<sigma>' bs"
    if "\<forall>x\<in>set bs. \<sigma> x = \<sigma>' x" for bs
    using that by (auto simp: bit_of_def is_bits_def list_all_iff)
  show ?thesis using assms
    by (cases g) (simp_all add: m)
qed

lemma extends_var_val:
  "extends_by cs k j gs cs' \<Longrightarrow> x < length (cs_aux cs) \<Longrightarrow> var_val cs' x = var_val cs x"
  by (auto simp: extends_by_def var_val_def nth_append)

lemma extends_input_assignment:
  "extends_by cs k j gs cs' \<Longrightarrow> i < length (cs_inputs cs) \<Longrightarrow> input_assignment cs' i = input_assignment cs i"
  by (auto simp: extends_by_def input_assignment_def nth_append)

lemma prove_inv_mode: "prove_inv P cs \<Longrightarrow> cs_mode cs = Prove"
  by (simp add: prove_inv_def)

lemma prove_inv_extends:
  assumes inv: "prove_inv P cs" and e: "extends_by cs k j gs cs'"
    and new: "list_all (\<lambda>(ns, g). gadget_wf cs' g \<and> gadget_sat P (aux_assignment cs') (input_assignment cs') g) gs"
  shows "prove_inv P cs'"
proof -
  have old: "gadget_wf cs' g \<and> gadget_sat P (aux_assignment cs') (input_assignment cs') g"
    if "(ns, g) \<in> set (cs_gadgets cs)" for ns g
  proof -
    from that inv have wf: "gadget_wf cs g" and sat: "gadget_sat P (aux_assignment cs) (input_assignment cs) g"
      by (auto simp: prove_inv_def is_satisfied_def cs_sat_def list_all_iff)
    from wf e have "gadget_wf cs' g" by (auto simp: gadget_wf_def list_all_iff extends_by_def)
    moreover have "gadget_sat P (aux_assignment cs') (input_assignment cs') g =
                   gadget_sat P (aux_assignment cs) (input_assignment cs) g"
      using wf by (intro gadget_sat_cong)
        (auto simp: gadget_wf_def list_all_iff aux_assignment_def extends_var_val [OF e]
                    extends_input_assignment [OF e])
    ultimately show ?thesis using sat by simp
  qed
  from inv e new old show ?thesis
    by (auto simp: prove_inv_def extends_by_def is_satisfied_def cs_sat_def list_all_iff)
qed

lemma var_val_emit [simp]: "var_val (emit ns g cs) = var_val cs"
  and aux_assignment_emit [simp]: "aux_assignment (emit ns g cs) = aux_assignment cs"
  and input_assignment_emit [simp]: "input_assignment (emit ns g cs) = input_assignment cs"
  by (simp_all add: fun_eq_iff var_val_def aux_assignment_def input_assignment_def)

lemma map_var_val_appended:
  "cs_aux cs' = cs_aux cs @ ys \<Longrightarrow>
     map (var_val cs') [length (cs_aux cs)..<length (cs_aux cs) + length ys] = ys"
  by (rule nth_equalityI) (auto simp: var_val_def nth_append)

lemma var_val_appended:
  "cs_aux cs' = cs_aux cs @ ys \<Longrightarrow> i < length ys \<Longrightarrow> var_val cs' (length (cs_aux cs) + i) = ys ! i"
  by (simp add: var_val_def nth_append)

lemma aux_assignment_Some: "var_val cs x = Some a \<Longrightarrow> aux_assignment cs x = a"
  by (simp add: aux_assignment_def)

lemma vals_bits:
  assumes "map (var_val cs) xs = map (\<lambda>b. Some (of_bool b)) bs"
  shows "bits_vals cs xs = Some bs \<and> map (bit_of (aux_assignment cs)) xs = bs \<and> is_bits (aux_assignment cs) xs"
proof -
  have len: "length xs = length bs" using arg_cong [OF assms, of length] by simp
  have v: "aux_assignment cs (xs ! i) = of_bool (bs ! i)" if "i < length xs" for i
    using that len nth_map [of i xs "var_val cs"] assms by (simp add: aux_assignment_Some)
  have "map (var_val cs) xs = map Some (map of_bool bs)" using assms by simp
  then have "bits_vals cs xs = Some (map (\<lambda>a. a = 1) (map of_bool bs :: nat list))"
    unfolding bits_vals_def by (simp only: those_map_Some option.map)
  then have "bits_vals cs xs = Some bs" by (simp add: comp_def)
  moreover have "map (bit_of (aux_assignment cs)) xs = bs"
    by (rule nth_equalityI) (simp_all add: len v bit_of_def)
  moreover have "is_bits (aux_assignment cs) xs"
    by (simp add: is_bits_def list_all_length v)
  ultimately show ?thesis by simp
qed

lemma alloc_point_Prove:
  "cs_mode cs = Prove \<Longrightarrow> alloc_point (Some p) cs =
     Inr ((length (cs_aux cs), Suc (length (cs_aux cs))), cs\<lparr>cs_aux := cs_aux cs @ [Some (fst p), Some (snd p)]\<rparr>)"
  by (simp add: alloc_point_Inr stored_def)

lemma allocs_Prove:
  "cs_mode cs = Prove \<Longrightarrow> allocs (map Some vs) cs =
     Inr ([length (cs_aux cs)..<length (cs_aux cs) + length vs], cs\<lparr>cs_aux := cs_aux cs @ map Some vs\<rparr>)"
  by (simp add: allocs_Inr stored_Prove)

lemma allocs_None_Prove: "cs_mode cs = Prove \<Longrightarrow> 0 < n \<Longrightarrow> allocs (replicate n None) cs = Inl AssignmentMissing"
  by (cases n) (simp_all add: alloc_def)

lemma alloc_input_Prove:
  "cs_mode cs = Prove \<Longrightarrow> alloc_input (Some a) cs =
     Inr (length (cs_inputs cs), cs\<lparr>cs_inputs := cs_inputs cs @ [Some a]\<rparr>)"
  by (simp add: alloc_input_Inr stored_def)

lemma var_val_Some_lt: "var_val cs x = Some a \<Longrightarrow> x < length (cs_aux cs)"
  by (simp add: var_val_def split: if_splits)

lemma pt_val_Some:
  "pt_val cs p = Some a \<Longrightarrow>
     var_val cs (fst p) = Some (fst a) \<and> var_val cs (snd p) = Some (snd a)"
  by (auto simp: pt_val_def split: option.splits)

lemma pt_val_assignment:
  "pt_val cs p = Some a \<Longrightarrow> (aux_assignment cs (fst p), aux_assignment cs (snd p)) = a"
  by (auto dest!: pt_val_Some simp: aux_assignment_Some)

lemma pt_val_appended:
  "cs_aux cs' = cs_aux cs @ [Some (fst a), Some (snd a)] \<Longrightarrow>
     pt_val cs' (length (cs_aux cs), Suc (length (cs_aux cs))) = Some a"
  using var_val_appended [of cs' cs "[Some (fst a), Some (snd a)]" 0]
        var_val_appended [of cs' cs "[Some (fst a), Some (snd a)]" 1]
  by (simp add: pt_val_def)

lemma bits_vals_Some:
  assumes "bits_vals cs xs = Some vals"
  obtains ns where "length ns = length xs" "vals = map (\<lambda>a. a = 1) ns"
    "\<And>i. i < length xs \<Longrightarrow> var_val cs (xs ! i) = Some (ns ! i)"
proof -
  from assms obtain ns where m: "map (var_val cs) xs = map Some ns" "vals = map (\<lambda>a. a = 1) ns"
    by (auto simp: bits_vals_def those_Some_iff)
  have len: "length ns = length xs" using arg_cong [OF m(1), of length] by simp
  have "var_val cs (xs ! i) = Some (ns ! i)" if "i < length xs" for i
    using that len m(1) by (metis nth_map)
  with len m(2) that show ?thesis by blast
qed

lemma bits_vals_bit_of:
  assumes "bits_vals cs xs = Some vals"
  shows "map (bit_of (aux_assignment cs)) xs = vals"
proof -
  obtain ns where "length ns = length xs" "vals = map (\<lambda>a. a = 1) ns"
    "\<And>i. i < length xs \<Longrightarrow> var_val cs (xs ! i) = Some (ns ! i)"
    using bits_vals_Some [OF assms] by blast
  then show ?thesis
    by (intro nth_equalityI) (simp_all add: bit_of_def aux_assignment_def)
qed

lemma extends_pt_val:
  assumes e: "extends_by cs k j gs cs'" and p: "pt_val cs p = Some a"
  shows "pt_val cs' p = Some a"
proof -
  from pt_val_Some [OF p] have v: "var_val cs (fst p) = Some (fst a)" "var_val cs (snd p) = Some (snd a)"
    by auto
  then have "fst p < length (cs_aux cs)" "snd p < length (cs_aux cs)" by (auto intro: var_val_Some_lt)
  with v show ?thesis by (simp add: pt_val_def extends_var_val [OF e])
qed

lemma extends_bits_vals:
  assumes e: "extends_by cs k j gs cs'" and b: "bits_vals cs xs = Some vals"
  shows "bits_vals cs' xs = Some vals"
proof -
  have "var_val cs' x = var_val cs x" if "x \<in> set xs" for x
  proof -
    obtain ns where "length ns = length xs" "\<And>i. i < length xs \<Longrightarrow> var_val cs (xs ! i) = Some (ns ! i)"
      using bits_vals_Some [OF b] by blast
    with that have "x < length (cs_aux cs)" by (metis in_set_conv_nth var_val_Some_lt)
    then show ?thesis by (rule extends_var_val [OF e])
  qed
  then have m: "map (var_val cs') xs = map (var_val cs) xs" by simp
  show ?thesis using b by (simp only: bits_vals_def m)
qed

section \<open>Each gadget in \<open>Prove\<close> mode\<close>

lemma pt_val_emit [simp]: "pt_val (emit ns g cs) = pt_val cs"
  and bits_vals_emit [simp]: "bits_vals (emit ns g cs) = bits_vals cs"
  by (simp_all add: fun_eq_iff pt_val_def bits_vals_def)

lemma witness_point_prove:
  assumes inv: "prove_inv P cs" and a: "on_curve a" and N: "length (cs_aux cs) = N"
  shows "\<exists>cs'. witness_point ns (Some a) cs = Inr ((N, Suc N), cs') \<and> prove_inv P cs' \<and>
               pt_val cs' (N, Suc N) = Some a"
proof -
  define cs1 where "cs1 = cs\<lparr>cs_aux := cs_aux cs @ [Some (fst a), Some (snd a)]\<rparr>"
  define cs' where "cs' = emit ns (Witness_point (N, Suc N)) cs1"
  have eq: "witness_point ns (Some a) cs = Inr ((N, Suc N), cs')"
    by (simp add: witness_point_def alloc_point_Prove [OF prove_inv_mode [OF inv]] cs1_def cs'_def N)
  have pv: "pt_val cs' (N, Suc N) = Some a"
    using pt_val_appended [of cs1 cs a] by (simp add: cs'_def cs1_def N)
  have "length (cs_aux cs') = N + 2" by (simp add: cs'_def cs1_def N)
  with pt_val_assignment [OF pv] a
  have "list_all (\<lambda>(ns, g). gadget_wf cs' g \<and> gadget_sat P (aux_assignment cs') (input_assignment cs') g)
          [(ns, Witness_point (N, Suc N))]"
    by (simp add: gadget_wf_def)
  with prove_inv_extends [OF inv conjunct2 [OF witness_point_extends [OF eq]]] eq pv
  show ?thesis by (auto simp: N)
qed

lemma assert_not_small_order_prove:
  assumes inv: "prove_inv P cs" and p: "pt_val cs p = Some a" and a: "not_small_order a"
  shows "\<exists>cs'. assert_not_small_order ns p cs = Inr cs' \<and> prove_inv P cs'"
proof -
  have eq: "assert_not_small_order ns p cs = Inr (emit ns (Not_small_order p) cs)"
    by (simp add: assert_not_small_order_def p a)
  from pt_val_Some [OF p] have "fst p < length (cs_aux cs)" "snd p < length (cs_aux cs)"
    by (auto intro: var_val_Some_lt)
  with pt_val_assignment [OF p] a
  have "list_all (\<lambda>(ns, g). gadget_wf (emit ns (Not_small_order p) cs) g \<and>
          gadget_sat P (aux_assignment (emit ns (Not_small_order p) cs)) (input_assignment (emit ns (Not_small_order p) cs)) g)
          [(ns, Not_small_order p)]"
    by (auto simp: gadget_wf_def)
  with prove_inv_extends [OF inv assert_not_small_order_extends [OF eq]] eq
  show ?thesis by auto
qed

lemma bits_appended:
  assumes "cs_aux cs' = cs_aux cs @ map (\<lambda>b. Some (of_bool b)) bs" "length (cs_aux cs) = N"
  shows "bits_vals cs' [N..<N + length bs] = Some bs \<and>
         map (bit_of (aux_assignment cs')) [N..<N + length bs] = bs \<and>
         is_bits (aux_assignment cs') [N..<N + length bs]"
  using map_var_val_appended [OF assms(1)] assms(2) by (intro vals_bits) simp

lemma boolean_vec_prove:
  assumes inv: "prove_inv P cs" and N: "length (cs_aux cs) = N"
  shows "\<exists>cs'. boolean_vec ns n (Some x) cs = Inr ([N..<N + n], cs') \<and> prove_inv P cs' \<and>
               bits_vals cs' [N..<N + n] = Some (bits_le n x)"
proof -
  define vs :: "nat option list" where "vs = map (\<lambda>b. Some (of_bool b)) (bits_le n x)"
  define cs' where "cs' = emit ns (Boolean_bits [N..<N + n]) (cs\<lparr>cs_aux := cs_aux cs @ vs\<rparr>)"
  have "allocs (bit_values n (Some x)) cs = Inr ([N..<N + n], cs\<lparr>cs_aux := cs_aux cs @ vs\<rparr>)"
    using allocs_Prove [OF prove_inv_mode [OF inv], of "map of_bool (bits_le n x)"]
    by (simp add: bit_values_def vs_def N comp_def length_bits_le)
  then have eq: "boolean_vec ns n (Some x) cs = Inr ([N..<N + n], cs')"
    by (simp add: boolean_vec_def cs'_def)
  have b: "bits_vals cs' [N..<N + n] = Some (bits_le n x) \<and> is_bits (aux_assignment cs') [N..<N + n]"
    using bits_appended [of cs' cs "bits_le n x" N] by (simp add: cs'_def vs_def N length_bits_le)
  have "length (cs_aux cs') = N + n" by (simp add: cs'_def vs_def N length_bits_le)
  with b have "list_all (\<lambda>(ns, g). gadget_wf cs' g \<and> gadget_sat P (aux_assignment cs') (input_assignment cs') g)
          [(ns, Boolean_bits [N..<N + n])]"
    by (simp add: gadget_wf_def list_all_iff)
  with prove_inv_extends [OF inv conjunct2 [OF boolean_vec_extends [OF eq]]] eq b
  show ?thesis by (auto simp: N)
qed

lemma fixed_base_mul_prove:
  assumes inv: "prove_inv P cs" and N: "length (cs_aux cs) = N" and bs: "bits_vals cs bs = Some vals"
  shows "\<exists>cs'. fixed_base_mul P ns g bs cs = Inr ((N, Suc N), cs') \<and> prove_inv P cs' \<and>
               pt_val cs' (N, Suc N) = Some (smul (bits_val vals) (generator P g))"
proof -
  define a where "a = smul (bits_val vals) (generator P g)"
  define cs1 where "cs1 = cs\<lparr>cs_aux := cs_aux cs @ [Some (fst a), Some (snd a)]\<rparr>"
  define cs' where "cs' = emit ns (Fixed_base_mul g bs (N, Suc N)) cs1"
  have eq: "fixed_base_mul P ns g bs cs = Inr ((N, Suc N), cs')"
    by (simp add: fixed_base_mul_def bs alloc_point_Prove [OF prove_inv_mode [OF inv]] cs1_def cs'_def N a_def)
  note e = conjunct2 [OF fixed_base_mul_extends [OF eq]]
  have pv: "pt_val cs' (N, Suc N) = Some a"
    using pt_val_appended [of cs1 cs a] by (simp add: cs'_def cs1_def N)
  have bs': "map (bit_of (aux_assignment cs')) bs = vals"
    by (rule bits_vals_bit_of [OF extends_bits_vals [OF e bs]])
  from bits_vals_Some [OF bs] have "\<forall>x\<in>set bs. x < N"
    by (metis N in_set_conv_nth var_val_Some_lt)
  moreover have "length (cs_aux cs') = N + 2" by (simp add: cs'_def cs1_def N)
  ultimately have "list_all (\<lambda>(ns, g). gadget_wf cs' g \<and> gadget_sat P (aux_assignment cs') (input_assignment cs') g)
          [(ns, Fixed_base_mul g bs (N, Suc N))]"
    using pt_val_assignment [OF pv] bs' by (auto simp: gadget_wf_def list_all_iff a_def)
  with prove_inv_extends [OF inv e] eq pv
  show ?thesis by (auto simp: a_def)
qed

lemma edwards_add_prove:
  assumes inv: "prove_inv P cs" and N: "length (cs_aux cs) = N"
    and p: "pt_val cs p = Some a" and q: "pt_val cs q = Some b" and d: "add_defined a b"
  shows "\<exists>cs'. edwards_add ns p q cs = Inr ((N, Suc N), cs') \<and> prove_inv P cs' \<and>
               pt_val cs' (N, Suc N) = Some (ed_add a b)"
proof -
  define c where "c = ed_add a b"
  define cs1 where "cs1 = cs\<lparr>cs_aux := cs_aux cs @ [Some (fst c), Some (snd c)]\<rparr>"
  define cs' where "cs' = emit ns (Edwards_add p q (N, Suc N)) cs1"
  have eq: "edwards_add ns p q cs = Inr ((N, Suc N), cs')"
    by (simp add: edwards_add_def p q d alloc_point_Prove [OF prove_inv_mode [OF inv]] cs1_def cs'_def N c_def)
  note e = conjunct2 [OF edwards_add_extends [OF eq]]
  have pv: "pt_val cs' (N, Suc N) = Some c"
    using pt_val_appended [of cs1 cs c] by (simp add: cs'_def cs1_def N)
  from pt_val_Some [OF p] pt_val_Some [OF q] N
  have "fst p < N" "snd p < N" "fst q < N" "snd q < N" by (auto intro: var_val_Some_lt)
  moreover have "length (cs_aux cs') = N + 2" by (simp add: cs'_def cs1_def N)
  ultimately have "list_all (\<lambda>(ns, g). gadget_wf cs' g \<and> gadget_sat P (aux_assignment cs') (input_assignment cs') g)
          [(ns, Edwards_add p q (N, Suc N))]"
    using pt_val_assignment [OF pv] pt_val_assignment [OF extends_pt_val [OF e p]]
          pt_val_assignment [OF extends_pt_val [OF e q]] d
    by (auto simp: gadget_wf_def c_def)
  with prove_inv_extends [OF inv e] eq pv
  show ?thesis by (auto simp: c_def)
qed

lemma inputize_prove:
  assumes inv: "prove_inv P cs" and p: "pt_val cs p = Some a" and I: "length (cs_inputs cs) = I"
  shows "\<exists>cs'. inputize ns p cs = Inr cs' \<and> prove_inv P cs' \<and>
               cs_inputs cs' = cs_inputs cs @ [Some (fst a), Some (snd a)]"
proof -
  define cs' where "cs' = cs\<lparr>cs_inputs := cs_inputs cs @ [Some (fst a), Some (snd a)],
    cs_gadgets := cs_gadgets cs @ [(ns, Inputize I (fst p)), (ns, Inputize (Suc I) (snd p))]\<rparr>"
  from pt_val_Some [OF p] have v: "var_val cs (fst p) = Some (fst a)" "var_val cs (snd p) = Some (snd a)"
    by auto
  have eq: "inputize ns p cs = Inr cs'"
    using prove_inv_mode [OF inv]
    by (simp add: inputize_def v alloc_input_Prove emit_def cs'_def I)
  have "extends_by cs 0 2 [(ns, Inputize I (fst p)), (ns, Inputize (Suc I) (snd p))] cs'"
    using inputize_extends [OF eq] by (simp add: I)
  moreover have "aux_assignment cs' = aux_assignment cs"
    by (simp add: cs'_def fun_eq_iff aux_assignment_def var_val_def)
  moreover have "input_assignment cs' I = fst a" "input_assignment cs' (Suc I) = snd a"
    by (simp_all add: cs'_def input_assignment_def I nth_append)
  moreover have "fst p < length (cs_aux cs')" "snd p < length (cs_aux cs')"
    using v by (auto simp: cs'_def intro: var_val_Some_lt)
  ultimately show ?thesis
    using prove_inv_extends [OF inv] eq pt_val_assignment [OF p]
    by (auto simp: gadget_wf_def cs'_def I)
qed

lemma unpack_strict_prove:
  assumes inv: "prove_inv P cs" and N: "length (cs_aux cs) = N"
    and x: "var_val cs x = Some a" and a: "a < fq_modulus"
  shows "\<exists>cs'. unpack_strict ns x cs = Inr ([N..<N + fq_num_bits], cs') \<and> prove_inv P cs' \<and>
               bits_vals cs' [N..<N + fq_num_bits] = Some (bits_le fq_num_bits a)"
proof -
  define vs :: "nat option list" where "vs = map (\<lambda>b. Some (of_bool b)) (bits_le fq_num_bits a)"
  define cs' where "cs' = emit ns (Unpack_strict x [N..<N + fq_num_bits]) (cs\<lparr>cs_aux := cs_aux cs @ vs\<rparr>)"
  have "allocs (bit_values fq_num_bits (Some a)) cs = Inr ([N..<N + fq_num_bits], cs\<lparr>cs_aux := cs_aux cs @ vs\<rparr>)"
    using allocs_Prove [OF prove_inv_mode [OF inv], of "map of_bool (bits_le fq_num_bits a)"]
    by (simp add: bit_values_def vs_def N comp_def length_bits_le)
  then have eq: "unpack_strict ns x cs = Inr ([N..<N + fq_num_bits], cs')"
    by (simp add: unpack_strict_def x cs'_def)
  have b: "bits_vals cs' [N..<N + fq_num_bits] = Some (bits_le fq_num_bits a) \<and>
           map (bit_of (aux_assignment cs')) [N..<N + fq_num_bits] = bits_le fq_num_bits a \<and>
           is_bits (aux_assignment cs') [N..<N + fq_num_bits]"
    using bits_appended [of cs' cs "bits_le fq_num_bits a" N] by (simp add: cs'_def vs_def N length_bits_le)
  have "bits_val (bits_le fq_num_bits a) = a"
    using a fq_below_num_bits by (simp add: bits_val_bits_le)
  moreover have "aux_assignment cs' x = a"
    using x var_val_Some_lt [OF x] by (simp add: aux_assignment_def cs'_def var_val_def nth_append)
  moreover have "length (cs_aux cs') = N + fq_num_bits" "x < N"
    using var_val_Some_lt [OF x] by (simp_all add: cs'_def vs_def N length_bits_le)
  ultimately show ?thesis
    using prove_inv_extends [OF inv conjunct2 [OF unpack_strict_extends [OF eq]]] eq b a
    by (auto simp: gadget_wf_def list_all_iff)
qed

lemma bits_vals_map_Some:
  assumes "map (var_val cs) xs = map Some ns" shows "bits_vals cs xs = Some (map (\<lambda>a. a = 1) ns)"
  unfolding bits_vals_def assms those_map_Some by simp

lemma bits_vals_append:
  assumes "bits_vals cs xs = Some v" "bits_vals cs ys = Some w" shows "bits_vals cs (xs @ ys) = Some (v @ w)"
proof -
  from assms obtain z za where "map (var_val cs) xs = map Some z" "v = map (\<lambda>a. a = 1) z"
    "map (var_val cs) ys = map Some za" "w = map (\<lambda>a. a = 1) za"
    by (auto simp: bits_vals_def those_Some_iff)
  then have "map (var_val cs) (xs @ ys) = map Some (z @ za)" "v @ w = map (\<lambda>a. a = 1) (z @ za)" by simp_all
  then show ?thesis by (simp only: bits_vals_map_Some)
qed

lemma bits_vals_take:
  assumes "bits_vals cs xs = Some v" shows "bits_vals cs (take k xs) = Some (take k v)"
proof -
  from assms obtain z where "map (var_val cs) xs = map Some z" "v = map (\<lambda>a. a = 1) z"
    by (auto simp: bits_vals_def those_Some_iff)
  then have "map (var_val cs) (take k xs) = map Some (take k z)" "take k v = map (\<lambda>a. a = 1) (take k z)"
    by (simp_all add: take_map [symmetric])
  then show ?thesis by (simp only: bits_vals_map_Some)
qed

lemma take_one_bits_le: "0 < n \<Longrightarrow> take (Suc 0) (bits_le n x) = [odd x]"
  by (cases n) auto

lemma repr_gadget_prove:
  assumes inv: "prove_inv P cs" and N: "length (cs_aux cs) = N"
    and p: "pt_val cs p = Some a" and a: "fst a < fq_modulus" "snd a < fq_modulus"
  shows "\<exists>cs'. repr_gadget ns p cs = Inr ([N + fq_num_bits..<N + 2 * fq_num_bits] @ [N], cs') \<and>
               prove_inv P cs' \<and> bits_vals cs' ([N + fq_num_bits..<N + 2 * fq_num_bits] @ [N]) = Some (point_repr a)"
proof -
  from pt_val_Some [OF p] have u: "var_val cs (fst p) = Some (fst a)" and v: "var_val cs (snd p) = Some (snd a)"
    by auto
  obtain cs1 where u1: "unpack_strict ns (fst p) cs = Inr ([N..<N + fq_num_bits], cs1)" and inv1: "prove_inv P cs1"
    and ub: "bits_vals cs1 [N..<N + fq_num_bits] = Some (bits_le fq_num_bits (fst a))"
    using unpack_strict_prove [OF inv N u a(1)] by blast
  note e1 = conjunct2 [OF unpack_strict_extends [OF u1]]
  have N1: "length (cs_aux cs1) = N + fq_num_bits" using extends_by_lengths [OF e1] N by simp
  have v1: "var_val cs1 (snd p) = Some (snd a)"
    using v extends_var_val [OF e1 var_val_Some_lt [OF v]] by simp
  obtain cs2 where u2: "unpack_strict ns (snd p) cs1 = Inr ([N + fq_num_bits..<N + 2 * fq_num_bits], cs2)"
    and inv2: "prove_inv P cs2"
    and vb: "bits_vals cs2 [N + fq_num_bits..<N + 2 * fq_num_bits] = Some (bits_le fq_num_bits (snd a))"
    using unpack_strict_prove [OF inv1 N1 v1 a(2)] by (auto simp: mult_2 add.assoc)
  note e2 = conjunct2 [OF unpack_strict_extends [OF u2]]
  have "bits_vals cs2 (take 1 [N..<N + fq_num_bits]) = Some (take 1 (bits_le fq_num_bits (fst a)))"
    by (rule bits_vals_take [OF extends_bits_vals [OF e2 ub]])
  moreover have "take 1 [N..<N + fq_num_bits] = [N]" by (simp add: fq_num_bits_def upt_rec)
  ultimately have hb: "bits_vals cs2 [N] = Some [odd (fst a)]"
    using take_one_bits_le [of fq_num_bits "fst a"] by (simp add: fq_num_bits_def)
  have "hd [N..<N + fq_num_bits] = N" by (simp add: fq_num_bits_def)
  with u1 u2 inv2 bits_vals_append [OF vb hb] show ?thesis
    by (simp add: repr_gadget_def point_repr_def)
qed

lemma blake2s_prove:
  assumes inv: "prove_inv P cs" and N: "length (cs_aux cs) = N" and P: "crh_len P"
    and ins: "bits_vals cs ins = Some vals"
  shows "\<exists>cs'. blake2s_gadget P ns ins cs = Inr ([N..<N + 256], cs') \<and> prove_inv P cs' \<and>
               bits_vals cs' [N..<N + 256] = Some (crh_ivk P vals)"
proof -
  have len: "length (crh_ivk P vals) = 256" using P by (simp add: crh_len_def)
  define vs :: "nat option list" where "vs = map (\<lambda>b. Some (of_bool b)) (crh_ivk P vals)"
  define cs' where "cs' = emit ns (Blake2s ins [N..<N + 256]) (cs\<lparr>cs_aux := cs_aux cs @ vs\<rparr>)"
  have "allocs (hash_values P (Some vals)) cs = Inr ([N..<N + 256], cs\<lparr>cs_aux := cs_aux cs @ vs\<rparr>)"
    using allocs_Prove [OF prove_inv_mode [OF inv], of "map of_bool (crh_ivk P vals)"]
    by (simp add: hash_values_def vs_def N comp_def len)
  then have eq: "blake2s_gadget P ns ins cs = Inr ([N..<N + 256], cs')"
    by (simp add: blake2s_gadget_def ins cs'_def)
  note e = conjunct2 [OF blake2s_extends [OF P eq]]
  have b: "bits_vals cs' [N..<N + 256] = Some (crh_ivk P vals) \<and>
           map (bit_of (aux_assignment cs')) [N..<N + 256] = crh_ivk P vals \<and>
           is_bits (aux_assignment cs') [N..<N + 256]"
    using bits_appended [of cs' cs "crh_ivk P vals" N] by (simp add: cs'_def vs_def N len)
  from bits_vals_Some [OF ins] have "\<forall>x\<in>set ins. x < N"
    by (metis N in_set_conv_nth var_val_Some_lt)
  moreover have "length (cs_aux cs') = N + 256" by (simp add: cs'_def vs_def N len)
  ultimately have "list_all (\<lambda>x. x < length (cs_aux cs')) (ins @ [N..<N + 256])"
    by (auto simp: list_all_iff)
  then show ?thesis
    using prove_inv_extends [OF inv e] eq b bits_vals_bit_of [OF extends_bits_vals [OF e ins]]
    by (simp add: gadget_wf_def)
qed

end
