(* ===== verification/Mint_Witness.thy ===== *)
theory Mint_Witness
  imports Jubjub
begin

text \<open>
  The Mint-Asset witness (\<open>struct MintAsset\<close> of \<open>src/ironfish-zkp/src/circuits/mint_asset.rs\<close>)
  and its byte format: \<open>write\<close>, \<open>read\<close>, and the serde bridge (\<open>serialize\<close> writes
  the same bytes into a \<open>Vec\<close>, \<open>visit_bytes\<close> reads them back and unwraps).
  A writer is a \<open>Vec<u8>\<close> (appending cannot fail, which is what \<open>serialize\<close>
  uses); a reader is the list of bytes it has left.

  \<open>ProofGenerationKey\<close> comes from \<open>zcash_primitives\<close>: its 64-byte form is \<open>ak\<close>
  compressed (32 bytes) followed by \<open>nsk\<close> (32 bytes). Decoding \<open>ak\<close> needs the curve's
  square root and a subgroup check, which the model does not evaluate: the decoder of
  compressed subgroup points is a parameter \<open>dec\<close>, and the lemmas ask of it only what
  they use, that it decodes the encoding of the key's own \<open>ak\<close>.
\<close>

section \<open>The witness record\<close>

record proof_generation_key =
  ak :: point
  nsk :: nat

record mint_asset =
  proof_generation_key :: "proof_generation_key option"
  public_key_randomness :: "nat option"

type_synonym point_decoder = "byte list \<Rightarrow> point option"

section \<open>The proof-generation key's 64-byte form\<close>

definition pgk_to_bytes_le :: "proof_generation_key \<Rightarrow> byte list" where
  "pgk_to_bytes_le k = point_to_bytes (ak k) @ fr_to_bytes (nsk k)"

definition pgk_read :: "point_decoder \<Rightarrow> byte list \<Rightarrow> failure + (proof_generation_key \<times> byte list)" where
  "pgk_read dec r0 =
     bind_res (read_exact 32 r0) (\<lambda>(ak_bytes, r1).
       case dec ak_bytes of
         None \<Rightarrow> Inl (IoError InvalidInput)
       | Some a \<Rightarrow>
           bind_res (read_exact 32 r1) (\<lambda>(nsk_bytes, r2).
             case fr_from_bytes nsk_bytes of
               None \<Rightarrow> Inl (IoError InvalidInput)
             | Some n \<Rightarrow> Inr (\<lparr>ak = a, nsk = n\<rparr>, r2)))"

section \<open>write and read\<close>

text \<open>\<open>MintAsset::write\<close>: a presence byte and the value, for each field in turn.\<close>

definition mint_write :: "mint_asset \<Rightarrow> byte list" where
  "mint_write m =
     (case proof_generation_key m of
        Some k \<Rightarrow> 1 # pgk_to_bytes_le k
      | None \<Rightarrow> [0]) @
     (case public_key_randomness m of
        Some ar \<Rightarrow> 1 # fr_to_bytes ar
      | None \<Rightarrow> [0])"

text \<open>
  \<open>MintAsset::read\<close>: a field is present exactly when its presence byte is 1; the
  scalar \<open>ar\<close> is decoded with \<open>Fr::from_bytes(..).unwrap()\<close>, a panic when the
  32 bytes are not canonical.
\<close>

definition read_ar :: "byte list \<Rightarrow> failure + (nat \<times> byte list)" where
  "read_ar r0 =
     bind_res (read_exact 32 r0) (\<lambda>(bytes, r1).
       case fr_from_bytes bytes of
         None \<Rightarrow> Inl (Panic ''called unwrap on a None CtOption'')
       | Some ar \<Rightarrow> Inr (ar, r1))"

definition mint_read :: "point_decoder \<Rightarrow> byte list \<Rightarrow> failure + (mint_asset \<times> byte list)" where
  "mint_read dec r0 =
     bind_res (read_u8 r0) (\<lambda>(flag1, r1).
     bind_res (if flag1 = 1
               then bind_res (pgk_read dec r1) (\<lambda>(k, r). Inr (Some k, r))
               else Inr (None, r1)) (\<lambda>(pgk, r2).
     bind_res (read_u8 r2) (\<lambda>(flag2, r3).
     bind_res (if flag2 = 1
               then bind_res (read_ar r3) (\<lambda>(ar, r). Inr (Some ar, r))
               else Inr (None, r3)) (\<lambda>(ar, r4).
     Inr (\<lparr>proof_generation_key = pgk, public_key_randomness = ar\<rparr>, r4)))))"

section \<open>The serde bridge\<close>

text \<open>
  \<open>serialize\<close> writes into a fresh \<open>Vec\<close> (the \<open>unwrap\<close> cannot fail there) and
  hands the bytes to the serializer; \<open>visit_bytes\<close> reads the blob and unwraps the
  result, so any read error becomes a panic, and bytes after the witness are ignored.
\<close>

definition mint_serialize :: "mint_asset \<Rightarrow> byte list" where
  "mint_serialize m = mint_write m"

definition mint_deserialize :: "point_decoder \<Rightarrow> byte list \<Rightarrow> failure + mint_asset" where
  "mint_deserialize dec v =
     (case mint_read dec v of
        Inl (Panic msg) \<Rightarrow> Inl (Panic msg)
      | Inl (IoError e) \<Rightarrow> Inl (Panic ''called unwrap on an Err value'')
      | Inr (m, rest) \<Rightarrow> Inr m)"

section \<open>Valid witnesses\<close>

text \<open>
  A witness the format can carry: the key's \<open>ak\<close> is a point the decoder accepts back
  from its own encoding, and the scalars are canonical elements of \<open>Fr\<close>.
\<close>

definition pgk_valid :: "point_decoder \<Rightarrow> proof_generation_key \<Rightarrow> bool" where
  "pgk_valid dec k \<longleftrightarrow> dec (point_to_bytes (ak k)) = Some (ak k) \<and> nsk k < fr_modulus"

definition witness_valid :: "point_decoder \<Rightarrow> mint_asset \<Rightarrow> bool" where
  "witness_valid dec m \<longleftrightarrow>
     pred_option (pgk_valid dec) (proof_generation_key m) \<and>
     pred_option (\<lambda>ar. ar < fr_modulus) (public_key_randomness m)"

section \<open>Lemmas on the pieces\<close>

lemma length_pgk_to_bytes_le [simp]: "length (pgk_to_bytes_le k) = 64"
  by (simp add: pgk_to_bytes_le_def)

lemma pgk_read_roundtrip:
  "pgk_valid dec k \<Longrightarrow> pgk_read dec (pgk_to_bytes_le k @ rest) = Inr (k, rest)"
  by (simp add: pgk_valid_def pgk_read_def pgk_to_bytes_le_def read_exact_append fr_roundtrip)

lemma read_ar_roundtrip:
  "ar < fr_modulus \<Longrightarrow> read_ar (fr_to_bytes ar @ rest) = Inr (ar, rest)"
  by (simp add: read_ar_def read_exact_append fr_roundtrip)

lemma parses_pgk_read:
  assumes "pgk_valid dec k"
  shows "parses (pgk_read dec) (pgk_to_bytes_le k) k"
  unfolding parses_def
proof (intro conjI allI impI)
  fix rest show "pgk_read dec (pgk_to_bytes_le k @ rest) = Inr (k, rest)"
    using assms by (rule pgk_read_roundtrip)
next
  fix n assume n: "n < length (pgk_to_bytes_le k)"
  show "pgk_read dec (take n (pgk_to_bytes_le k)) = Inl (IoError UnexpectedEof)"
  proof (cases "n < 32")
    case True
    then show ?thesis by (simp add: pgk_read_def pgk_to_bytes_le_def read_exact_short)
  next
    case False
    with n have "n - 32 < 32" by simp
    with False assms show ?thesis
      by (simp add: pgk_read_def pgk_to_bytes_le_def pgk_valid_def read_exact_append read_exact_short)
  qed
qed

lemma parses_read_ar: "ar < fr_modulus \<Longrightarrow> parses read_ar (fr_to_bytes ar) ar"
  unfolding read_ar_def
  by (rule parses_bind [OF parses_read_exact [OF length_field_to_bytes], where ys = "[]", simplified])
     (simp add: fr_roundtrip parses_return)

lemma mint_write_fields:
  "mint_write m =
     [opt_flag (proof_generation_key m)] @ opt_bytes pgk_to_bytes_le (proof_generation_key m) @
     [opt_flag (public_key_randomness m)] @ opt_bytes fr_to_bytes (public_key_randomness m) @ []"
  by (simp add: mint_write_def opt_flag_def opt_bytes_def split: option.splits)

lemma mint_asset_eta:
  "\<lparr>proof_generation_key = proof_generation_key m, public_key_randomness = public_key_randomness m\<rparr> = m"
  by (cases m) simp

lemma parses_mint_read:
  assumes "witness_valid dec m"
  shows "parses (mint_read dec) (mint_write m) m"
  unfolding mint_write_fields mint_read_def
  apply (rule parses_bind [OF parses_read_u8])
  apply (rule parses_bind [OF parses_optional])
  subgoal using assms by (auto simp: witness_valid_def parses_pgk_read)
  apply (rule parses_bind [OF parses_read_u8])
  apply (rule parses_bind [OF parses_optional])
  subgoal using assms by (auto simp: witness_valid_def parses_read_ar)
  apply (simp only: mint_asset_eta)
  apply (rule parses_return)
  done

section \<open>Properties of the format\<close>

text \<open>
  C15. Round trip: reading back what \<open>write\<close> wrote gives the same witness and leaves the
  reader exactly after it, for the four combinations of present and absent fields.
\<close>

theorem mint_read_write:
  assumes "witness_valid dec m"
  shows "mint_read dec (mint_write m @ rest) = Inr (m, rest)"
  using parses_mint_read [OF assms] by (simp add: parses_def)

text \<open>
  C17. Short reads: every strict prefix of an encoded witness is rejected with
  \<open>UnexpectedEof\<close>; a truncated witness is never read as a different one.
\<close>

theorem mint_read_truncated:
  assumes "witness_valid dec m" and "n < length (mint_write m)"
  shows "mint_read dec (take n (mint_write m)) = Inl (IoError UnexpectedEof)"
  using parses_mint_read [OF assms(1)] assms(2) by (rule parses_prefix_eof)

text \<open>
  C18. Length of the encoding: two presence bytes always, 64 bytes for a key, 32 for
  \<open>ar\<close>: 2, 34, 66 or 98 bytes.
\<close>

theorem mint_write_length:
  "length (mint_write m) =
     2 + (if proof_generation_key m = None then 0 else 64)
       + (if public_key_randomness m = None then 0 else 32)"
  by (simp add: mint_write_def split: option.splits)

text \<open>
  C19. Presence bytes: \<open>read\<close> treats every presence byte other than 1 as absent, so
  inputs that \<open>write\<close> never produces (a presence byte of 2, say) are accepted.
\<close>

theorem mint_read_other_flags:
  assumes "f1 \<noteq> 1" and "f2 \<noteq> 1"
  shows "mint_read dec (f1 # f2 # rest) =
           Inr (\<lparr>proof_generation_key = None, public_key_randomness = None\<rparr>, rest)"
  using assms by (simp add: mint_read_def)

text \<open>
  C20. A non-canonical \<open>ar\<close> is not an error value: \<open>read\<close> panics in the
  \<open>unwrap\<close> of \<open>Fr::from_bytes\<close>.
\<close>

theorem mint_read_noncanonical_ar:
  assumes "length bs = 32" and "fr_modulus \<le> le_nat bs" and "f1 \<noteq> 1"
  shows "mint_read dec (f1 # 1 # bs @ rest) = Inl (Panic ''called unwrap on a None CtOption'')"
  using assms by (simp add: mint_read_def read_ar_def read_exact_append field_from_bytes_def)

text \<open>
  C16. The serde bridge round-trips, and ignores whatever follows the witness in the blob.
\<close>

theorem mint_deserialize_serialize:
  assumes "witness_valid dec m"
  shows "mint_deserialize dec (mint_serialize m @ junk) = Inr m"
  using parses_mint_read [OF assms]
  by (simp add: mint_deserialize_def mint_serialize_def parses_def)

text \<open>
  C21. The serde bridge never reports a malformed blob as a deserializer error: every
  failure of \<open>read\<close> becomes a panic.
\<close>

theorem mint_deserialize_never_error:
  assumes "mint_read dec v = Inl e"
  shows "\<exists>msg. mint_deserialize dec v = Inl (Panic msg)"
  using assms by (cases e) (simp_all add: mint_deserialize_def)

text \<open>
  C26. A key whose \<open>ak\<close> bytes the decoder rejects makes \<open>read\<close> fail with
  \<open>InvalidInput\<close>, an error value, whatever follows.
\<close>

theorem mint_read_bad_ak:
  assumes "length akb = 32" and "dec akb = None"
  shows "mint_read dec (1 # akb @ rest) = Inl (IoError InvalidInput)"
  using assms by (simp add: mint_read_def pgk_read_def read_exact_append)

text \<open>
  C27. A non-canonical \<open>nsk\<close> is an error value (\<open>InvalidInput\<close> from
  \<open>ProofGenerationKey::read\<close>), unlike a non-canonical \<open>ar\<close>, which panics (C20).
\<close>

theorem mint_read_noncanonical_nsk:
  assumes "length akb = 32" and "dec akb = Some a" and "length nb = 32" and "fr_modulus \<le> le_nat nb"
  shows "mint_read dec (1 # akb @ nb @ rest) = Inl (IoError InvalidInput)"
  using assms by (simp add: mint_read_def pgk_read_def read_exact_append field_from_bytes_def)

section \<open>Witnesses at concrete inputs\<close>

text \<open>
  A decoder that accepts exactly the encoding of the identity, and a witness whose key
  has \<open>ak\<close> the identity: the hypotheses above hold there.
\<close>

definition sample_decoder :: point_decoder where
  "sample_decoder bs = (if bs = point_to_bytes identity then Some identity else None)"

definition sample_witness :: mint_asset where
  "sample_witness = \<lparr>proof_generation_key = Some \<lparr>ak = identity, nsk = 5\<rparr>,
                     public_key_randomness = Some 7\<rparr>"

lemma sample_witness_valid: "witness_valid sample_decoder sample_witness"
  by (simp add: witness_valid_def pgk_valid_def sample_decoder_def sample_witness_def fr_modulus_def)

theorem mint_read_write_witness:
  "mint_read sample_decoder (mint_write sample_witness @ [0]) = Inr (sample_witness, [0])"
  by (rule mint_read_write [OF sample_witness_valid])

theorem mint_read_truncated_witness:
  "mint_read sample_decoder (take 50 (mint_write sample_witness)) = Inl (IoError UnexpectedEof)"
  by (rule mint_read_truncated [OF sample_witness_valid])
     (simp add: mint_write_def sample_witness_def)

theorem mint_read_other_flags_witness:
  "mint_read sample_decoder [2, 0] =
     Inr (\<lparr>proof_generation_key = None, public_key_randomness = None\<rparr>, [])"
  by (rule mint_read_other_flags) simp_all

theorem mint_read_noncanonical_ar_witness:
  "mint_read sample_decoder (0 # 1 # le_bytes 32 fr_modulus @ []) =
     Inl (Panic ''called unwrap on a None CtOption'')"
  by (rule mint_read_noncanonical_ar) (simp_all add: le_nat_le_bytes fr_modulus_def)

theorem mint_deserialize_serialize_witness:
  "mint_deserialize sample_decoder (mint_serialize sample_witness @ [1, 2, 3]) = Inr sample_witness"
  by (rule mint_deserialize_serialize [OF sample_witness_valid])

theorem mint_deserialize_never_error_witness:
  "mint_read sample_decoder [] = Inl (IoError UnexpectedEof) \<and>
   (\<exists>msg. mint_deserialize sample_decoder [] = Inl (Panic msg))"
proof
  show h: "mint_read sample_decoder [] = Inl (IoError UnexpectedEof)"
    by (simp add: mint_read_def)
  show "\<exists>msg. mint_deserialize sample_decoder [] = Inl (Panic msg)"
    using h by (rule mint_deserialize_never_error)
qed

theorem mint_read_bad_ak_witness:
  "mint_read sample_decoder (1 # le_bytes 32 5 @ []) = Inl (IoError InvalidInput)"
proof (rule mint_read_bad_ak)
  show "length (le_bytes 32 5) = 32" by simp
  have "le_nat (le_bytes 32 5) \<noteq> le_nat (point_to_bytes identity)"
    by (simp add: point_to_bytes_def le_nat_le_bytes identity_def)
  then show "sample_decoder (le_bytes 32 5) = None" by (auto simp: sample_decoder_def)
qed

theorem mint_read_noncanonical_nsk_witness:
  "mint_read sample_decoder (1 # point_to_bytes identity @ le_bytes 32 fr_modulus @ []) = Inl (IoError InvalidInput)"
  by (rule mint_read_noncanonical_nsk [where a = identity])
     (simp_all add: sample_decoder_def le_nat_le_bytes fr_modulus_def)

end
