(* ===== verification/Mint_Circuit.thy ===== *)
theory Mint_Circuit
  imports Prove_Mode Mint_Witness
begin

unbundle bit_operations_syntax

text \<open>
  \<open>Circuit::synthesize\<close> for \<open>MintAsset\<close> (\<open>src/ironfish-zkp/src/circuits/mint_asset.rs\<close>,
  lines 97-190), one definition per block of the source, composed as the source composes
  them; the out-of-circuit computation of the public inputs that the test performs
  (\<open>ViewingKey::rk\<close>, \<open>ViewingKey::ivk\<close> and \<open>PUBLIC_KEY_GENERATOR * ivk\<close> of
  \<open>zcash_primitives\<close>); and the layout every successful synthesis produces.
\<close>

section \<open>Synthesis, block by block\<close>

text \<open>Lines 113-130: rerandomize \<open>ak\<close> by \<open>[ar] SPENDING_KEY_GENERATOR\<close>, expose \<open>rk\<close>.\<close>

definition synth_rk :: "params \<Rightarrow> pvar \<Rightarrow> nat option \<Rightarrow> cs \<Rightarrow> synthesis_error + cs" where
  "synth_rk P akv ar cs0 =
     bind_res (boolean_vec ''ar'' fr_num_bits ar cs0) (\<lambda>(ar_bits, cs1).
     bind_res (fixed_base_mul P ''computation of randomization for the signing key''
                 SpendingKeyGen ar_bits cs1) (\<lambda>(arp, cs2).
     bind_res (edwards_add ''computation of rk'' akv arp cs2) (\<lambda>(rk, cs3).
     inputize ''rk'' rk cs3)))"

text \<open>Lines 132-152: \<open>nk = [nsk] PROOF_GENERATION_KEY_GENERATOR\<close>, \<open>nsk\<close> not range-checked.\<close>

definition synth_nk :: "params \<Rightarrow> nat option \<Rightarrow> cs \<Rightarrow> synthesis_error + (pvar \<times> cs)" where
  "synth_nk P nsk_val cs0 =
     bind_res (boolean_vec ''nsk'' fr_num_bits nsk_val cs0) (\<lambda>(nsk_bits, cs1).
     fixed_base_mul P ''computation of nk'' ProofGenerationKeyGen nsk_bits cs1)"

text \<open>Lines 154-167: the \<open>ivk\<close> preimage \<open>repr ak || repr nk\<close>, asserted to be 512 bits.\<close>

definition synth_ivk_preimage :: "pvar \<Rightarrow> pvar \<Rightarrow> cs \<Rightarrow> synthesis_error + (var list \<times> cs)" where
  "synth_ivk_preimage akv nk cs0 =
     bind_res (repr_gadget ''representation of ak'' akv cs0) (\<lambda>(repr_ak, cs1).
     bind_res (repr_gadget ''representation of nk'' nk cs1) (\<lambda>(repr_nk, cs2).
     (let ivk_preimage = [] @ repr_ak @ repr_nk
      in if length ivk_preimage = 512 then Inr (ivk_preimage, cs2) else Inl AssertionPanic)))"

text \<open>Lines 169-177: Blake2s of the preimage, truncated to \<open>CAPACITY\<close> bits.\<close>

definition synth_ivk :: "params \<Rightarrow> var list \<Rightarrow> cs \<Rightarrow> synthesis_error + (var list \<times> cs)" where
  "synth_ivk P ivk_preimage cs0 =
     bind_res (blake2s_gadget P ''computation of ivk'' ivk_preimage cs0) (\<lambda>(ivk, cs1).
     Inr (take fr_capacity ivk, cs1))"

text \<open>Lines 179-186: \<open>pk_d = [ivk] PUBLIC_KEY_GENERATOR\<close>, exposed.\<close>

definition synth_pk_d :: "params \<Rightarrow> var list \<Rightarrow> cs \<Rightarrow> synthesis_error + cs" where
  "synth_pk_d P ivk cs0 =
     bind_res (fixed_base_mul P ''compute pk_d'' PublicKeyGen ivk cs0) (\<lambda>(pkd, cs1).
     inputize ''owner public address'' pkd cs1)"

text \<open>Lines 97-190: the whole of \<open>synthesize\<close>.\<close>

definition synthesize :: "params \<Rightarrow> mint_asset \<Rightarrow> cs \<Rightarrow> synthesis_error + cs" where
  "synthesize P w cs0 =
     bind_res (witness_point ''ak'' (map_option ak (proof_generation_key w)) cs0) (\<lambda>(akv, cs1).
     bind_res (assert_not_small_order ''ak not small order'' akv cs1) (\<lambda>cs2.
     bind_res (synth_rk P akv (public_key_randomness w) cs2) (\<lambda>cs3.
     bind_res (synth_nk P (map_option nsk (proof_generation_key w)) cs3) (\<lambda>(nk, cs4).
     bind_res (synth_ivk_preimage akv nk cs4) (\<lambda>(ivk_preimage, cs5).
     bind_res (synth_ivk P ivk_preimage cs5) (\<lambda>(ivk, cs6).
     synth_pk_d P ivk cs6))))))"

section \<open>The public inputs computed out of circuit\<close>

text \<open>
  \<open>CRH^ivk\<close> as \<open>ViewingKey::ivk\<close> computes it: Blake2s over \<open>ak.to_bytes() || nk.to_bytes()\<close>,
  the five most significant bits of byte 31 cleared, and the 32 bytes read as a scalar
  with \<open>Fr::from_repr(..).unwrap()\<close>. The byte-level hash is the same function as the
  gadget's, on the bit strings of the bytes.
\<close>

definition crh_ivk_bytes :: "params \<Rightarrow> byte list \<Rightarrow> byte list" where
  "crh_ivk_bytes P bs = bits_to_bytes (crh_ivk P (bytes_to_bits bs))"

definition ivk_ref :: "params \<Rightarrow> point \<Rightarrow> point \<Rightarrow> failure + nat" where
  "ivk_ref P a nk =
     (let h = crh_ivk_bytes P (point_to_bytes a @ point_to_bytes nk);
          h' = h[31 := h ! 31 AND 7]
      in case fr_from_bytes h' of
           None \<Rightarrow> Inl (Panic ''called unwrap on a None CtOption'')
         | Some ivk \<Rightarrow> Inr ivk)"

text \<open>
  The four public inputs the test computes for a witness \<open>(ak, nsk, ar)\<close>:
  \<open>rk = ak + [ar] SPENDING_KEY_GENERATOR\<close> and
  \<open>pk_d = [ivk] PUBLIC_KEY_GENERATOR\<close>, with \<open>nk = [nsk] PROOF_GENERATION_KEY_GENERATOR\<close>.
\<close>

definition public_inputs_ref :: "params \<Rightarrow> point \<Rightarrow> nat \<Rightarrow> nat \<Rightarrow> failure + nat list" where
  "public_inputs_ref P a n ar =
     (let rk = ed_add a (smul ar (generator P SpendingKeyGen));
          nk = smul n (generator P ProofGenerationKeyGen)
      in bind_res (ivk_ref P a nk) (\<lambda>ivk.
           let pkd = smul ivk (generator P PublicKeyGen)
           in Inr [fst rk, snd rk, fst pkd, snd pkd]))"

section \<open>The Mint-Asset statement\<close>

text \<open>
  What a proof for public inputs \<open>[rk.u, rk.v, pk_d.u, pk_d.v]\<close> asserts: the prover
  knows \<open>ak\<close>, \<open>nsk\<close> and \<open>ar\<close> with \<open>rk = ak + [ar] SPENDING_KEY_GENERATOR\<close> and
  \<open>pk_d = [ivk] PUBLIC_KEY_GENERATOR\<close>, where \<open>ivk\<close> is the \<open>CAPACITY\<close>-bit truncation of
  \<open>CRH^ivk(repr ak || repr nk)\<close> and \<open>nk = [nsk] PROOF_GENERATION_KEY_GENERATOR\<close>.
\<close>

definition ivk_bits :: "params \<Rightarrow> point \<Rightarrow> point \<Rightarrow> bool list" where
  "ivk_bits P a nk = take fr_capacity (crh_ivk P (point_repr a @ point_repr nk))"

definition mint_statement :: "params \<Rightarrow> point \<Rightarrow> nat \<Rightarrow> nat \<Rightarrow> nat list" where
  "mint_statement P a n ar =
     (let rk = ed_add a (smul ar (generator P SpendingKeyGen));
          nk = smul n (generator P ProofGenerationKeyGen);
          pkd = smul (bits_val (ivk_bits P a nk)) (generator P PublicKeyGen)
      in [fst rk, snd rk, fst pkd, snd pkd])"

section \<open>The layout\<close>

text \<open>
  The gadget constraints every successful synthesis emits, from an empty system, in
  order, with their namespaces and variables: the circuit's shape at gadget granularity.
\<close>

definition mint_layout :: "(string \<times> gadget) list" where
  "mint_layout =
     [(''ak'', Witness_point (0, 1)),
      (''ak not small order'', Not_small_order (0, 1)),
      (''ar'', Boolean_bits [2..<254]),
      (''computation of randomization for the signing key'',
         Fixed_base_mul SpendingKeyGen [2..<254] (254, 255)),
      (''computation of rk'', Edwards_add (0, 1) (254, 255) (256, 257)),
      (''rk'', Inputize 0 256),
      (''rk'', Inputize 1 257),
      (''nsk'', Boolean_bits [258..<510]),
      (''computation of nk'', Fixed_base_mul ProofGenerationKeyGen [258..<510] (510, 511)),
      (''representation of ak'', Unpack_strict 0 [512..<767]),
      (''representation of ak'', Unpack_strict 1 [767..<1022]),
      (''representation of nk'', Unpack_strict 510 [1022..<1277]),
      (''representation of nk'', Unpack_strict 511 [1277..<1532]),
      (''computation of ivk'', Blake2s ([767..<1022] @ [512] @ [1277..<1532] @ [1022]) [1532..<1788]),
      (''compute pk_d'', Fixed_base_mul PublicKeyGen [1532..<1783] (1788, 1789)),
      (''owner public address'', Inputize 2 1788),
      (''owner public address'', Inputize 3 1789)]"

section \<open>Every successful synthesis has the layout\<close>

text \<open>
  Each block appends a fixed list of gadget constraints over the variables it allocates,
  counted from the number of variables and inputs the system had before it.
\<close>

lemma synth_rk_extends:
  assumes "synth_rk P akv ar cs = Inr cs'" "length (cs_aux cs) = N" "length (cs_inputs cs) = I"
  shows "extends_by cs 256 2
           [(''ar'', Boolean_bits [N..<N + 252]),
            (''computation of randomization for the signing key'',
               Fixed_base_mul SpendingKeyGen [N..<N + 252] (N + 252, N + 253)),
            (''computation of rk'', Edwards_add akv (N + 252, N + 253) (N + 254, N + 255)),
            (''rk'', Inputize I (N + 254)), (''rk'', Inputize (Suc I) (N + 255))] cs'"
proof -
  from assms(1) obtain bs cs1 arp cs2 rk cs3 where
    b: "boolean_vec ''ar'' fr_num_bits ar cs = Inr (bs, cs1)" and
    f: "fixed_base_mul P ''computation of randomization for the signing key'' SpendingKeyGen bs cs1 = Inr (arp, cs2)" and
    e: "edwards_add ''computation of rk'' akv arp cs2 = Inr (rk, cs3)" and
    i: "inputize ''rk'' rk cs3 = Inr cs'"
    by (auto simp: synth_rk_def split: prod.splits)
  from boolean_vec_extends [OF b] have bs: "bs = [N..<N + 252]"
    and e1: "extends_by cs 252 0 [(''ar'', Boolean_bits [N..<N + 252])] cs1"
    by (auto simp: assms(2) fr_num_bits_def)
  from fixed_base_mul_extends [OF f] extends_by_lengths [OF e1] assms(2,3)
  have arp: "arp = (N + 252, N + 253)" and l2: "length (cs_inputs cs1) = I"
    and e2: "extends_by cs1 2 0 [(''computation of randomization for the signing key'', Fixed_base_mul SpendingKeyGen bs arp)] cs2"
    by auto
  from edwards_add_extends [OF e] extends_by_lengths [OF e1] extends_by_lengths [OF e2] assms(2) l2
  have rk: "rk = (N + 254, N + 255)"
    and e3: "extends_by cs2 2 0 [(''computation of rk'', Edwards_add akv arp rk)] cs3"
    by auto
  from extends_by_lengths [OF e3] l2 have l3: "length (cs_inputs cs3) = I"
    by (simp add: extends_by_lengths [OF e2])
  from inputize_extends [OF i] l3
  have e4: "extends_by cs3 0 2 [(''rk'', Inputize I (fst rk)), (''rk'', Inputize (Suc I) (snd rk))] cs'"
    by simp
  from extends_by_trans [OF extends_by_trans [OF extends_by_trans [OF e1 e2] e3] e4]
  show ?thesis by (simp add: bs arp rk numeral_2_eq_2)
qed

lemma synth_nk_extends:
  assumes "synth_nk P x cs = Inr (nk, cs')" "length (cs_aux cs) = N"
  shows "nk = (N + 252, N + 253) \<and>
         extends_by cs 254 0
           [(''nsk'', Boolean_bits [N..<N + 252]),
            (''computation of nk'', Fixed_base_mul ProofGenerationKeyGen [N..<N + 252] (N + 252, N + 253))] cs'"
proof -
  from assms(1) obtain bs cs1 where
    b: "boolean_vec ''nsk'' fr_num_bits x cs = Inr (bs, cs1)" and
    f: "fixed_base_mul P ''computation of nk'' ProofGenerationKeyGen bs cs1 = Inr (nk, cs')"
    by (auto simp: synth_nk_def split: prod.splits)
  from boolean_vec_extends [OF b] have bs: "bs = [N..<N + 252]"
    and e1: "extends_by cs 252 0 [(''nsk'', Boolean_bits [N..<N + 252])] cs1"
    by (auto simp: assms(2) fr_num_bits_def)
  from fixed_base_mul_extends [OF f] extends_by_lengths [OF e1] assms(2)
  have nk: "nk = (N + 252, N + 253)"
    and e2: "extends_by cs1 2 0 [(''computation of nk'', Fixed_base_mul ProofGenerationKeyGen bs nk)] cs'"
    by auto
  from extends_by_trans [OF e1 e2] show ?thesis by (simp add: bs nk)
qed

lemma synth_ivk_preimage_extends:
  assumes "synth_ivk_preimage akv nk cs = Inr (pre, cs')" "length (cs_aux cs) = N"
  shows "pre = [N + 255..<N + 510] @ [N] @ [N + 765..<N + 1020] @ [N + 510] \<and>
         extends_by cs 1020 0
           [(''representation of ak'', Unpack_strict (fst akv) [N..<N + 255]),
            (''representation of ak'', Unpack_strict (snd akv) [N + 255..<N + 510]),
            (''representation of nk'', Unpack_strict (fst nk) [N + 510..<N + 765]),
            (''representation of nk'', Unpack_strict (snd nk) [N + 765..<N + 1020])] cs'"
proof -
  from assms(1) obtain ra cs1 rn where
    a: "repr_gadget ''representation of ak'' akv cs = Inr (ra, cs1)" and
    n: "repr_gadget ''representation of nk'' nk cs1 = Inr (rn, cs')" and
    pre: "pre = ra @ rn"
    by (auto simp: synth_ivk_preimage_def Let_def split: prod.splits if_splits)
  from repr_gadget_extends [OF a] assms(2)
  have ra: "ra = [N + 255..<N + 510] @ [N]"
    and e1: "extends_by cs 510 0
           [(''representation of ak'', Unpack_strict (fst akv) [N..<N + 255]),
            (''representation of ak'', Unpack_strict (snd akv) [N + 255..<N + 510])] cs1"
    by (simp_all add: fq_num_bits_def)
  from repr_gadget_extends [OF n] extends_by_lengths [OF e1] assms(2)
  have rn: "rn = [N + 765..<N + 1020] @ [N + 510]"
    and e2: "extends_by cs1 510 0
           [(''representation of nk'', Unpack_strict (fst nk) [N + 510..<N + 765]),
            (''representation of nk'', Unpack_strict (snd nk) [N + 765..<N + 1020])] cs'"
    by (simp_all add: fq_num_bits_def add.assoc)
  from extends_by_trans [OF e1 e2] show ?thesis by (simp add: pre ra rn)
qed

lemma synth_ivk_extends:
  assumes "crh_len P" "synth_ivk P pre cs = Inr (ivk, cs')" "length (cs_aux cs) = N"
  shows "ivk = [N..<N + 251] \<and> extends_by cs 256 0 [(''computation of ivk'', Blake2s pre [N..<N + 256])] cs'"
proof -
  from assms(2) obtain outs where
    b: "blake2s_gadget P ''computation of ivk'' pre cs = Inr (outs, cs')" and
    ivk: "ivk = take fr_capacity outs"
    by (auto simp: synth_ivk_def split: prod.splits)
  from blake2s_extends [OF assms(1) b] assms(3) ivk show ?thesis
    by (auto simp: fr_capacity_val)
qed

lemma synth_pk_d_extends:
  assumes "synth_pk_d P ivk cs = Inr cs'" "length (cs_aux cs) = N" "length (cs_inputs cs) = I"
  shows "extends_by cs 2 2
           [(''compute pk_d'', Fixed_base_mul PublicKeyGen ivk (N, Suc N)),
            (''owner public address'', Inputize I N),
            (''owner public address'', Inputize (Suc I) (Suc N))] cs'"
proof -
  from assms(1) obtain pkd cs1 where
    f: "fixed_base_mul P ''compute pk_d'' PublicKeyGen ivk cs = Inr (pkd, cs1)" and
    i: "inputize ''owner public address'' pkd cs1 = Inr cs'"
    by (auto simp: synth_pk_d_def split: prod.splits)
  from fixed_base_mul_extends [OF f] assms(2)
  have pkd: "pkd = (N, Suc N)"
    and e1: "extends_by cs 2 0 [(''compute pk_d'', Fixed_base_mul PublicKeyGen ivk pkd)] cs1" by auto
  from inputize_extends [OF i] extends_by_lengths [OF e1] assms(3)
  have e2: "extends_by cs1 0 2 [(''owner public address'', Inputize I (fst pkd)),
                                (''owner public address'', Inputize (Suc I) (snd pkd))] cs'" by simp
  from extends_by_trans [OF e1 e2] show ?thesis by (simp add: pkd numeral_2_eq_2)
qed

lemma synthesize_extends:
  assumes "crh_len P" "synthesize P w (cs_new m) = Inr cs"
  shows "extends_by (cs_new m) 1790 4 mint_layout cs"
proof -
  from assms(2) obtain akv cs1 cs2 cs3 nk cs4 pre cs5 ivk cs6 where
    s1: "witness_point ''ak'' (map_option ak (proof_generation_key w)) (cs_new m) = Inr (akv, cs1)" and
    s2: "assert_not_small_order ''ak not small order'' akv cs1 = Inr cs2" and
    s3: "synth_rk P akv (public_key_randomness w) cs2 = Inr cs3" and
    s4: "synth_nk P (map_option nsk (proof_generation_key w)) cs3 = Inr (nk, cs4)" and
    s5: "synth_ivk_preimage akv nk cs4 = Inr (pre, cs5)" and
    s6: "synth_ivk P pre cs5 = Inr (ivk, cs6)" and
    s7: "synth_pk_d P ivk cs6 = Inr cs"
    by (auto simp: synthesize_def split: prod.splits)
  from witness_point_extends [OF s1] have akv: "akv = (0, 1)"
    and e1: "extends_by (cs_new m) 2 0 [(''ak'', Witness_point (0, 1))] cs1"
    by (auto simp: cs_new_def)
  have e2: "extends_by cs1 0 0 [(''ak not small order'', Not_small_order (0, 1))] cs2"
    using assert_not_small_order_extends [OF s2] akv by simp
  from extends_by_lengths [OF e1] extends_by_lengths [OF e2]
  have l2: "length (cs_aux cs2) = 2" "length (cs_inputs cs2) = 0" by (simp_all add: cs_new_def)
  note e3 = synth_rk_extends [OF s3 l2]
  from extends_by_lengths [OF e3] l2 have l3: "length (cs_aux cs3) = 258" by simp
  from synth_nk_extends [OF s4 l3] have nk: "nk = (510, 511)"
    and e4: "extends_by cs3 254 0 [(''nsk'', Boolean_bits [258..<510]),
             (''computation of nk'', Fixed_base_mul ProofGenerationKeyGen [258..<510] (510, 511))] cs4"
    by simp_all
  from extends_by_lengths [OF e4] l3 have l4: "length (cs_aux cs4) = 512" by simp
  from synth_ivk_preimage_extends [OF s5 l4] nk akv
  have pre: "pre = [767..<1022] @ [512] @ [1277..<1532] @ [1022]"
    and e5: "extends_by cs4 1020 0
           [(''representation of ak'', Unpack_strict 0 [512..<767]),
            (''representation of ak'', Unpack_strict 1 [767..<1022]),
            (''representation of nk'', Unpack_strict 510 [1022..<1277]),
            (''representation of nk'', Unpack_strict 511 [1277..<1532])] cs5"
    by simp_all
  from extends_by_lengths [OF e5] l4 have l5: "length (cs_aux cs5) = 1532" by simp
  from synth_ivk_extends [OF assms(1) s6 l5] have ivk: "ivk = [1532..<1783]"
    and e6: "extends_by cs5 256 0 [(''computation of ivk'', Blake2s pre [1532..<1788])] cs6"
    by simp_all
  from extends_by_lengths [OF e6] l5 have l6: "length (cs_aux cs6) = 1788" by simp
  from extends_by_lengths [OF e3] extends_by_lengths [OF e4] extends_by_lengths [OF e5]
       extends_by_lengths [OF e6] l2
  have i6: "length (cs_inputs cs6) = 2" by simp
  note e7 = synth_pk_d_extends [OF s7 l6 i6]
  from extends_by_trans [OF extends_by_trans [OF extends_by_trans [OF extends_by_trans
         [OF extends_by_trans [OF extends_by_trans [OF e1 e2] e3] e4] e5] e6] e7]
  moreover have "Suc (Suc (Suc (Suc 0))) = (4::nat)" by simp
  ultimately show ?thesis by (simp add: mint_layout_def pre ivk akv del: upt_rec_numeral)
qed

section \<open>Shape mode: synthesis always succeeds\<close>
lemma synth_rk_Shape:
  assumes ok: "shape_ok cs" shows "\<exists>cs'. synth_rk P akv ar cs = Inr cs'"
proof -
  obtain bs cs1 where b: "boolean_vec ''ar'' fr_num_bits ar cs = Inr (bs, cs1)"
    using boolean_vec_Shape [OF ok] by (metis surj_pair)
  from ok boolean_vec_extends [OF b] have ok1: "shape_ok cs1" by (blast intro: shape_ok_extends)
  obtain arp cs2 where f: "fixed_base_mul P ''computation of randomization for the signing key''
                             SpendingKeyGen bs cs1 = Inr (arp, cs2)"
    using fixed_base_mul_Shape [OF ok1] by (metis surj_pair)
  from ok1 fixed_base_mul_extends [OF f] have ok2: "shape_ok cs2" by (blast intro: shape_ok_extends)
  obtain rk cs3 where e: "edwards_add ''computation of rk'' akv arp cs2 = Inr (rk, cs3)"
    using edwards_add_Shape [OF ok2] by (metis surj_pair)
  from ok2 edwards_add_extends [OF e] have ok3: "shape_ok cs3" by (blast intro: shape_ok_extends)
  obtain cs4 where "inputize ''rk'' rk cs3 = Inr cs4"
    using inputize_Shape [OF ok3] by blast
  with b f e show ?thesis by (auto simp: synth_rk_def)
qed

lemma synth_nk_Shape:
  assumes ok: "shape_ok cs" shows "\<exists>r. synth_nk P x cs = Inr r"
proof -
  obtain bs cs1 where b: "boolean_vec ''nsk'' fr_num_bits x cs = Inr (bs, cs1)"
    using boolean_vec_Shape [OF ok] by (metis surj_pair)
  from ok boolean_vec_extends [OF b] have ok1: "shape_ok cs1" by (blast intro: shape_ok_extends)
  obtain r where "fixed_base_mul P ''computation of nk'' ProofGenerationKeyGen bs cs1 = Inr r"
    using fixed_base_mul_Shape [OF ok1] by blast
  with b show ?thesis by (auto simp: synth_nk_def)
qed

lemma repr_gadget_length:
  "repr_gadget ns p cs = Inr (rb, cs') \<Longrightarrow> length rb = 256"
  by (drule repr_gadget_extends) (simp add: fq_num_bits_def)

section \<open>The errors of synthesis\<close>

lemma synth_blocks_Inl:
  "synth_rk P akv ar cs = Inl e \<Longrightarrow> e \<noteq> AssertionPanic"
  "synth_nk P x cs = Inl e \<Longrightarrow> e \<noteq> AssertionPanic"
  "synth_ivk P pre cs = Inl e \<Longrightarrow> e \<noteq> AssertionPanic"
  "synth_pk_d P ivk cs = Inl e \<Longrightarrow> e \<noteq> AssertionPanic"
  by (auto simp: synth_rk_def synth_nk_def synth_ivk_preimage_def synth_ivk_def synth_pk_d_def Let_def
       dest: gadget_Inl repr_gadget_length split: prod.splits if_splits)

lemma synth_ivk_preimage_Inl:
  assumes "synth_ivk_preimage akv nk cs = Inl e" shows "e \<noteq> AssertionPanic"
proof
  assume e: "e = AssertionPanic"
  with assms obtain ra cs1 rn cs2 where
    "repr_gadget ''representation of ak'' akv cs = Inr (ra, cs1)"
    "repr_gadget ''representation of nk'' nk cs1 = Inr (rn, cs2)" "length ra + length rn \<noteq> 512"
    by (auto simp: synth_ivk_preimage_def Let_def dest: gadget_Inl split: prod.splits if_splits)
  then show False by (simp add: repr_gadget_length)
qed

section \<open>Prove mode: an honest witness gives a satisfied system with the expected inputs\<close>

lemma extends_by_inputs0: "extends_by cs k 0 gs cs' \<Longrightarrow> cs_inputs cs' = cs_inputs cs"
  by (auto simp: extends_by_def)

lemma bits_val_field: "x < fr_modulus \<Longrightarrow> bits_val (bits_le fr_num_bits x) = x"
  using fr_below_num_bits by (simp add: bits_val_bits_le)

lemma synth_rk_prove:
  assumes inv: "prove_inv P cs" and N: "length (cs_aux cs) = N"
    and akv: "pt_val cs akv = Some a" and ar: "ar < fr_modulus"
    and d: "add_defined a (smul ar (generator P SpendingKeyGen))"
  shows "\<exists>cs'. synth_rk P akv (Some ar) cs = Inr cs' \<and> prove_inv P cs' \<and>
     cs_inputs cs' = cs_inputs cs @ map Some (take 2 (mint_statement P a n ar))"
proof -
  obtain cs1 where b: "boolean_vec ''ar'' fr_num_bits (Some ar) cs = Inr ([N..<N + fr_num_bits], cs1)"
    and inv1: "prove_inv P cs1" and bv: "bits_vals cs1 [N..<N + fr_num_bits] = Some (bits_le fr_num_bits ar)"
    using boolean_vec_prove [OF inv N] by blast
  note e1 = conjunct2 [OF boolean_vec_extends [OF b]]
  have N1: "length (cs_aux cs1) = N + fr_num_bits" using extends_by_lengths [OF e1] N by simp
  obtain cs2 where f: "fixed_base_mul P ''computation of randomization for the signing key'' SpendingKeyGen
      [N..<N + fr_num_bits] cs1 = Inr ((N + fr_num_bits, Suc (N + fr_num_bits)), cs2)"
    and inv2: "prove_inv P cs2"
    and pv: "pt_val cs2 (N + fr_num_bits, Suc (N + fr_num_bits)) = Some (smul ar (generator P SpendingKeyGen))"
    using fixed_base_mul_prove [OF inv1 N1 bv] by (auto simp: bits_val_field [OF ar])
  note e2 = conjunct2 [OF fixed_base_mul_extends [OF f]]
  have N2: "length (cs_aux cs2) = N + fr_num_bits + 2" using extends_by_lengths [OF e2] N1 by simp
  have akv2: "pt_val cs2 akv = Some a" by (rule extends_pt_val [OF e2 extends_pt_val [OF e1 akv]])
  obtain rk cs3 where e: "edwards_add ''computation of rk'' akv (N + fr_num_bits, Suc (N + fr_num_bits)) cs2 = Inr (rk, cs3)"
    and inv3: "prove_inv P cs3" and rk: "pt_val cs3 rk = Some (ed_add a (smul ar (generator P SpendingKeyGen)))"
    using edwards_add_prove [OF inv2 N2 akv2 pv d] by blast
  note e3 = conjunct2 [OF edwards_add_extends [OF e]]
  obtain cs4 where i: "inputize ''rk'' rk cs3 = Inr cs4" and inv4: "prove_inv P cs4"
    and ins: "cs_inputs cs4 = cs_inputs cs3 @ [Some (fst (ed_add a (smul ar (generator P SpendingKeyGen)))),
                                              Some (snd (ed_add a (smul ar (generator P SpendingKeyGen))))]"
    using inputize_prove [OF inv3 rk refl] by blast
  have "cs_inputs cs3 = cs_inputs cs"
    using extends_by_inputs0 [OF e1] extends_by_inputs0 [OF e2] extends_by_inputs0 [OF e3] by simp
  with b f e i inv4 ins show ?thesis
    by (simp add: synth_rk_def mint_statement_def Let_def)
qed

lemma synth_nk_prove:
  assumes inv: "prove_inv P cs" and N: "length (cs_aux cs) = N" and n: "n < fr_modulus"
  shows "\<exists>cs'. synth_nk P (Some n) cs = Inr ((N + fr_num_bits, Suc (N + fr_num_bits)), cs') \<and> prove_inv P cs' \<and>
     pt_val cs' (N + fr_num_bits, Suc (N + fr_num_bits)) = Some (smul n (generator P ProofGenerationKeyGen))"
proof -
  obtain cs1 where b: "boolean_vec ''nsk'' fr_num_bits (Some n) cs = Inr ([N..<N + fr_num_bits], cs1)"
    and inv1: "prove_inv P cs1" and bv: "bits_vals cs1 [N..<N + fr_num_bits] = Some (bits_le fr_num_bits n)"
    using boolean_vec_prove [OF inv N] by blast
  have N1: "length (cs_aux cs1) = N + fr_num_bits"
    using extends_by_lengths [OF conjunct2 [OF boolean_vec_extends [OF b]]] N by simp
  from fixed_base_mul_prove [OF inv1 N1 bv] b show ?thesis
    by (auto simp: synth_nk_def bits_val_field [OF n])
qed

lemma synth_ivk_preimage_prove:
  assumes inv: "prove_inv P cs" and N: "length (cs_aux cs) = N"
    and akv: "pt_val cs akv = Some a" and nk: "pt_val cs nkv = Some b"
    and a: "fst a < fq_modulus" "snd a < fq_modulus" and b: "fst b < fq_modulus" "snd b < fq_modulus"
  shows "\<exists>pre cs'. synth_ivk_preimage akv nkv cs = Inr (pre, cs') \<and> prove_inv P cs' \<and>
     bits_vals cs' pre = Some (point_repr a @ point_repr b)"
proof -
  obtain ra cs1 where r1: "repr_gadget ''representation of ak'' akv cs = Inr (ra, cs1)"
    and inv1: "prove_inv P cs1" and rb1: "bits_vals cs1 ra = Some (point_repr a)"
    using repr_gadget_prove [OF inv N akv a] by blast
  note e1 = conjunct2 [OF repr_gadget_extends [OF r1]]
  obtain rn cs2 where r2: "repr_gadget ''representation of nk'' nkv cs1 = Inr (rn, cs2)"
    and inv2: "prove_inv P cs2" and rb2: "bits_vals cs2 rn = Some (point_repr b)"
    using repr_gadget_prove [OF inv1 refl extends_pt_val [OF e1 nk] b] by blast
  note e2 = conjunct2 [OF repr_gadget_extends [OF r2]]
  have "length (ra @ rn) = 512" using repr_gadget_length [OF r1] repr_gadget_length [OF r2] by simp
  with r1 r2 inv2 bits_vals_append [OF extends_bits_vals [OF e2 rb1] rb2] show ?thesis
    by (simp add: synth_ivk_preimage_def)
qed

lemma synth_ivk_prove:
  assumes inv: "prove_inv P cs" and P: "crh_len P" and pre: "bits_vals cs pre = Some vals"
  shows "\<exists>ivk cs'. synth_ivk P pre cs = Inr (ivk, cs') \<and> prove_inv P cs' \<and>
     bits_vals cs' ivk = Some (take fr_capacity (crh_ivk P vals))"
proof -
  obtain cs1 where b: "blake2s_gadget P ''computation of ivk'' pre cs = Inr ([length (cs_aux cs)..<length (cs_aux cs) + 256], cs1)"
    and inv1: "prove_inv P cs1" and h: "bits_vals cs1 [length (cs_aux cs)..<length (cs_aux cs) + 256] = Some (crh_ivk P vals)"
    using blake2s_prove [OF inv refl P pre] by blast
  with bits_vals_take [OF h] show ?thesis by (simp add: synth_ivk_def)
qed

lemma synth_pk_d_prove:
  assumes inv: "prove_inv P cs" and ivk: "bits_vals cs ivk = Some vals"
  shows "\<exists>cs'. synth_pk_d P ivk cs = Inr cs' \<and> prove_inv P cs' \<and>
     cs_inputs cs' = cs_inputs cs @ [Some (fst (smul (bits_val vals) (generator P PublicKeyGen))),
                                     Some (snd (smul (bits_val vals) (generator P PublicKeyGen)))]"
proof -
  obtain pkd cs1 where f: "fixed_base_mul P ''compute pk_d'' PublicKeyGen ivk cs = Inr (pkd, cs1)"
    and inv1: "prove_inv P cs1" and pv: "pt_val cs1 pkd = Some (smul (bits_val vals) (generator P PublicKeyGen))"
    using fixed_base_mul_prove [OF inv refl ivk] by blast
  obtain cs2 where i: "inputize ''owner public address'' pkd cs1 = Inr cs2" and inv2: "prove_inv P cs2"
    and ins: "cs_inputs cs2 = cs_inputs cs1 @ [Some (fst (smul (bits_val vals) (generator P PublicKeyGen))),
                                              Some (snd (smul (bits_val vals) (generator P PublicKeyGen)))]"
    using inputize_prove [OF inv1 pv refl] by blast
  have "cs_inputs cs1 = cs_inputs cs"
    by (rule extends_by_inputs0 [OF conjunct2 [OF fixed_base_mul_extends [OF f]]])
  with f i inv2 ins show ?thesis by (simp add: synth_pk_d_def)
qed

lemma prove_inv_new: "prove_inv P (cs_new Prove)"
  by (simp add: prove_inv_def cs_new_def is_satisfied_def cs_sat_def)

lemma synthesize_prove:
  assumes P: "crh_len P" and key: "proof_generation_key w = Some k" and r: "public_key_randomness w = Some ar"
    and ar: "ar < fr_modulus" and n: "nsk k < fr_modulus"
    and c: "on_curve (ak k)" and s: "not_small_order (ak k)"
    and d: "add_defined (ak k) (smul ar (generator P SpendingKeyGen))"
  shows "\<exists>cs. synthesize P w (cs_new Prove) = Inr cs \<and> prove_inv P cs \<and>
     cs_inputs cs = map Some (mint_statement P (ak k) (nsk k) ar)"
proof -
  let ?a = "ak k" and ?nk = "smul (nsk k) (generator P ProofGenerationKeyGen)"
  have a: "fst ?a < fq_modulus" "snd ?a < fq_modulus" using c by (auto simp: on_curve_def split: prod.splits)
  obtain cs1 where w1: "witness_point ''ak'' (Some ?a) (cs_new Prove) = Inr ((0, Suc 0), cs1)"
    and inv1: "prove_inv P cs1" and pv1: "pt_val cs1 (0, Suc 0) = Some ?a"
    using witness_point_prove [OF prove_inv_new c, of 0] by (auto simp: cs_new_def)
  note e1 = conjunct2 [OF witness_point_extends [OF w1]]
  obtain cs2 where s2: "assert_not_small_order ''ak not small order'' (0, Suc 0) cs1 = Inr cs2"
    and inv2: "prove_inv P cs2"
    using assert_not_small_order_prove [OF inv1 pv1 s] by blast
  note e2 = assert_not_small_order_extends [OF s2]
  have pv2: "pt_val cs2 (0, Suc 0) = Some ?a" by (rule extends_pt_val [OF e2 pv1])
  have l2: "length (cs_aux cs2) = 2" "length (cs_inputs cs2) = 0"
    using extends_by_lengths [OF e1] extends_by_lengths [OF e2] by (simp_all add: cs_new_def)
  obtain cs3 where s3: "synth_rk P (0, Suc 0) (Some ar) cs2 = Inr cs3" and inv3: "prove_inv P cs3"
    and i3: "cs_inputs cs3 = cs_inputs cs2 @ map Some (take 2 (mint_statement P ?a (nsk k) ar))"
    using synth_rk_prove [OF inv2 l2(1) pv2 ar d] by blast
  note e3 = synth_rk_extends [OF s3 l2]
  obtain cs4 nkv where s4: "synth_nk P (Some (nsk k)) cs3 = Inr (nkv, cs4)" and inv4: "prove_inv P cs4"
    and pv4: "pt_val cs4 nkv = Some ?nk"
    using synth_nk_prove [OF inv3 refl n] by blast
  note e4 = conjunct2 [OF synth_nk_extends [OF s4 refl]]
  have pv4a: "pt_val cs4 (0, Suc 0) = Some ?a" by (rule extends_pt_val [OF e4 extends_pt_val [OF e3 pv2]])
  obtain pre cs5 where s5: "synth_ivk_preimage (0, Suc 0) nkv cs4 = Inr (pre, cs5)" and inv5: "prove_inv P cs5"
    and b5: "bits_vals cs5 pre = Some (point_repr ?a @ point_repr ?nk)"
    using synth_ivk_preimage_prove [OF inv4 refl pv4a pv4 a smul_lt [THEN conjunct1] smul_lt [THEN conjunct2]]
    by blast
  note e5 = conjunct2 [OF synth_ivk_preimage_extends [OF s5 refl]]
  obtain ivk cs6 where s6: "synth_ivk P pre cs5 = Inr (ivk, cs6)" and inv6: "prove_inv P cs6"
    and b6: "bits_vals cs6 ivk = Some (ivk_bits P ?a ?nk)"
    using synth_ivk_prove [OF inv5 P b5] by (auto simp: ivk_bits_def)
  note e6 = conjunct2 [OF synth_ivk_extends [OF P s6 refl]]
  obtain cs7 where s7: "synth_pk_d P ivk cs6 = Inr cs7" and inv7: "prove_inv P cs7"
    and i7: "cs_inputs cs7 = cs_inputs cs6 @ [Some (fst (smul (bits_val (ivk_bits P ?a ?nk)) (generator P PublicKeyGen))),
                                              Some (snd (smul (bits_val (ivk_bits P ?a ?nk)) (generator P PublicKeyGen)))]"
    using synth_pk_d_prove [OF inv6 b6] by blast
  have "cs_inputs cs6 = cs_inputs cs3"
    using extends_by_inputs0 [OF e4] extends_by_inputs0 [OF e5] extends_by_inputs0 [OF e6] by simp
  with i7 i3 l2 have "cs_inputs cs7 = map Some (mint_statement P ?a (nsk k) ar)"
    by (simp add: mint_statement_def Let_def)
  with w1 s2 s3 s4 s5 s6 s7 inv7 key r show ?thesis
    by (simp add: synthesize_def)
qed

end
