(* ===== verification/Sample_Point.thy ===== *)
theory Sample_Point
  imports Jubjub
begin

text \<open>
  A point of Jubjub of large order, \<open>v = 3\<close> and \<open>u\<close> the smaller square root of
  \<open>(1 - v\<^sup>2) / (a - d v\<^sup>2)\<close>, with its three doublings computed step by step: the
  inverses the doublings take are checked by one multiplication each (\<open>fq_inv_eqI\<close>),
  so that the kernel never runs the Bezout algorithm on 255-bit numbers. The witnesses
  of the circuit's theorems take it as \<open>ak\<close>.
\<close>

definition sample_point :: point where
  "sample_point = (947480793030046690521372793511108844824410854817750647956076029995258996586, 3)"

lemma sample_point_on_curve: "on_curve sample_point"
  by (simp add: sample_point_def on_curve_def fq_add_def fq_mul_def fq_sub_def fq_neg_def jubjub_a_def jubjub_d_def fq_modulus_def)

lemma sample_c0: "double_c (947480793030046690521372793511108844824410854817750647956076029995258996586, 3) = 50079048402401735428173596774117670006267114539774421078468272875732061867619"
  by (simp add: double_c_def fq_add_def fq_mul_def fq_sub_def fq_neg_def jubjub_a_def jubjub_d_def fq_modulus_def)

lemma sample_inv0_0: "fq_inv 50079048402401735428173596774117670006267114539774421078468272875732061867620 = 11024284962856593956371728719719356447201817321210567383291301309631874277178"
  by (rule fq_inv_eqI) (simp_all add: fq_modulus_def)

lemma sample_inv0_1: "fq_inv 2356826772724455051274143734068295831423437960753216744135385824206519316895 = 2447286478721780496848100571934985659930085753246895769018873733186780084092"
  by (rule fq_inv_eqI) (simp_all add: fq_modulus_def)

lemma sample_c1: "double_c (33703489580873383191871275684735209603719325397770298789158413439288982799964, 39156583659548487949569609150959770558881372051950332304301979730988481345473) = 44876114770310451400286092784815664285695292948224379320350652919241541509617"
  by (simp add: double_c_def fq_add_def fq_mul_def fq_sub_def fq_neg_def jubjub_a_def jubjub_d_def fq_modulus_def)

lemma sample_inv1_0: "fq_inv 44876114770310451400286092784815664285695292948224379320350652919241541509618 = 3737599679118285354192008566297435047659959536503417264308988361707185108525"
  by (rule fq_inv_eqI) (simp_all add: fq_modulus_def)

lemma sample_inv1_1: "fq_inv 7559760404815739079161647723370301551995259552303258502253005780697039674897 = 25390482053979759989958238504009048229231217500469695018625131019719428187907"
  by (rule fq_inv_eqI) (simp_all add: fq_modulus_def)

lemma sample_c2: "double_c (22036371545225732830495011938264904140353249959542901847603502837248965645379, 16477533304505040158538134669937021489396603369607093718869568687151284515235) = 15536457329965263551966036126200059080434084918965941648179085508266065112855"
  by (simp add: double_c_def fq_add_def fq_mul_def fq_sub_def fq_neg_def jubjub_a_def jubjub_d_def fq_modulus_def)

lemma sample_inv2_0: "fq_inv 15536457329965263551966036126200059080434084918965941648179085508266065112856 = 24909707519225441048466893968617293177675868519922737841378773720517003326138"
  by (rule fq_inv_eqI) (simp_all add: fq_modulus_def)

lemma sample_inv2_1: "fq_inv 36899417845160926927481704381985906757256467581561696174424573191672516071659 = 28708465184906655602060558718220446169716618151697064279506199853097358215428"
  by (rule fq_inv_eqI) (simp_all add: fq_modulus_def)

lemma sample_dbl0: "ed_double (947480793030046690521372793511108844824410854817750647956076029995258996586, 3) = (33703489580873383191871275684735209603719325397770298789158413439288982799964, 39156583659548487949569609150959770558881372051950332304301979730988481345473)"
  by (simp add: ed_double_def Let_def sample_c0 fq_div_def sample_inv0_0 sample_inv0_1 fq_add_def fq_mul_def fq_sub_def fq_neg_def jubjub_a_def jubjub_d_def fq_modulus_def)

lemma sample_dbl1: "ed_double (33703489580873383191871275684735209603719325397770298789158413439288982799964, 39156583659548487949569609150959770558881372051950332304301979730988481345473) = (22036371545225732830495011938264904140353249959542901847603502837248965645379, 16477533304505040158538134669937021489396603369607093718869568687151284515235)"
  by (simp add: ed_double_def Let_def sample_c1 fq_div_def sample_inv1_0 sample_inv1_1 fq_add_def fq_mul_def fq_sub_def fq_neg_def jubjub_a_def jubjub_d_def fq_modulus_def)

lemma sample_dbl2: "ed_double (22036371545225732830495011938264904140353249959542901847603502837248965645379, 16477533304505040158538134669937021489396603369607093718869568687151284515235) = (26425721312295396735536009845259662215154440146657062145727563247428679108070, 33870355149453697655464584064870436861767017640968433840972803788419917420560)"
  by (simp add: ed_double_def Let_def sample_c2 fq_div_def sample_inv2_0 sample_inv2_1 fq_add_def fq_mul_def fq_sub_def fq_neg_def jubjub_a_def jubjub_d_def fq_modulus_def)

lemma sample_point_not_small_order: "not_small_order sample_point"
  by (simp add: sample_point_def not_small_order_def sample_dbl0 sample_dbl1 sample_dbl2 double_defined_def sample_c0 sample_c1 sample_c2 fq_add_def fq_mul_def fq_sub_def fq_neg_def jubjub_a_def jubjub_d_def fq_modulus_def)

end
