(* ===== verification/Circuit_Correctness.thy ===== *)
theory Circuit_Correctness
  imports Mint_Circuit Sample_Point
begin

unbundle bit_operations_syntax

text \<open>
  The theorems that make \<open>Circuit::synthesize\<close> correct: an honest witness gives a
  satisfied system whose public inputs are the Mint-Asset statement (completeness); any
  assignment that satisfies the emitted constraints proves the statement (soundness);
  key generation succeeds for every witness with the same shape; the errors of
  synthesis; and the agreement of the circuit's \<open>ivk\<close> and public inputs with the
  ones the test computes out of circuit.
\<close>

definition mint_shape :: cs where
  "mint_shape = \<lparr>cs_mode = Shape, cs_aux = replicate 1790 None, cs_inputs = replicate 4 None,
                 cs_gadgets = mint_layout\<rparr>"

definition sample_params :: params where
  "sample_params = \<lparr>gens = \<lparr>spending_key_generator = identity, proof_generation_key_generator = identity,
                                public_key_generator = identity\<rparr>,
                     crh_ivk = (\<lambda>bs. replicate 256 False)\<rparr>"

definition sample_mint :: mint_asset where
  "sample_mint = \<lparr>proof_generation_key = Some \<lparr>ak = sample_point, nsk = 0\<rparr>,
                  public_key_randomness = Some 0\<rparr>"

text \<open>
  What key generation sees of a system: the same constraints and variables, no values.
\<close>

definition cs_erase :: "cs \<Rightarrow> cs" where
  "cs_erase cs = cs\<lparr>cs_mode := Shape, cs_aux := map (\<lambda>_. None) (cs_aux cs),
                    cs_inputs := map (\<lambda>_. None) (cs_inputs cs)\<rparr>"

section \<open>Helper lemmas\<close>

lemma map_bit_of_bits_le:
  "bits_val (map (bit_of \<sigma>) bs) = x \<Longrightarrow> map (bit_of \<sigma>) bs = bits_le (length bs) x"
  by (metis bits_le_bits_val length_map)

lemma layout_sat:
  assumes "list_all (\<lambda>(ns, g). gadget_sat P \<sigma> \<iota> g) mint_layout"
  shows "on_curve (\<sigma> 0, \<sigma> 1) \<and> not_small_order (\<sigma> 0, \<sigma> 1) \<and>
    (\<sigma> 254, \<sigma> 255) = smul (bits_val (map (bit_of \<sigma>) [2..<254])) (generator P SpendingKeyGen) \<and>
    add_defined (\<sigma> 0, \<sigma> 1) (\<sigma> 254, \<sigma> 255) \<and>
    (\<sigma> 256, \<sigma> 257) = ed_add (\<sigma> 0, \<sigma> 1) (\<sigma> 254, \<sigma> 255) \<and>
    \<iota> 0 = \<sigma> 256 \<and> \<iota> 1 = \<sigma> 257 \<and>
    (\<sigma> 510, \<sigma> 511) = smul (bits_val (map (bit_of \<sigma>) [258..<510])) (generator P ProofGenerationKeyGen) \<and>
    bits_val (map (bit_of \<sigma>) [512..<767]) = \<sigma> 0 \<and>
    bits_val (map (bit_of \<sigma>) [767..<1022]) = \<sigma> 1 \<and>
    bits_val (map (bit_of \<sigma>) [1022..<1277]) = \<sigma> 510 \<and>
    bits_val (map (bit_of \<sigma>) [1277..<1532]) = \<sigma> 511 \<and>
    map (bit_of \<sigma>) [1532..<1788] = crh_ivk P (map (bit_of \<sigma>) ([767..<1022] @ [512] @ [1277..<1532] @ [1022])) \<and>
    (\<sigma> 1788, \<sigma> 1789) = smul (bits_val (map (bit_of \<sigma>) [1532..<1783])) (generator P PublicKeyGen) \<and>
    \<iota> 2 = \<sigma> 1788 \<and> \<iota> 3 = \<sigma> 1789"
  using assms unfolding mint_layout_def by (auto simp del: upt_rec_numeral upt_Suc map_append)

lemma bits_of_repr:
  assumes "bits_val (map (bit_of \<sigma>) [x..<x + 255]) = u" "bits_val (map (bit_of \<sigma>) [y..<y + 255]) = v"
  shows "map (bit_of \<sigma>) [y..<y + 255] @ [bit_of \<sigma> x] = point_repr (u, v)"
proof -
  have u: "map (bit_of \<sigma>) [x..<x + 255] = bits_le 255 u" and v: "map (bit_of \<sigma>) [y..<y + 255] = bits_le 255 v"
    using map_bit_of_bits_le [OF assms(1)] map_bit_of_bits_le [OF assms(2)] by simp_all
  have "[bit_of \<sigma> x] = take (Suc 0) (map (bit_of \<sigma>) [x..<x + 255])" by (simp add: upt_rec)
  also have "\<dots> = [odd u]" by (simp add: u take_one_bits_le)
  finally show ?thesis by (simp add: v point_repr_def fq_num_bits_def)
qed

lemma synth_ivk_preimage_Shape:
  assumes ok: "shape_ok cs" shows "\<exists>r. synth_ivk_preimage akv nk cs = Inr r"
proof -
  obtain ra cs1 where a: "repr_gadget ''representation of ak'' akv cs = Inr (ra, cs1)"
    using repr_gadget_Shape [OF ok] by (metis surj_pair)
  from ok repr_gadget_extends [OF a] have ok1: "shape_ok cs1" by (blast intro: shape_ok_extends)
  obtain rn cs2 where n: "repr_gadget ''representation of nk'' nk cs1 = Inr (rn, cs2)"
    using repr_gadget_Shape [OF ok1] by (metis surj_pair)
  with a show ?thesis
    by (simp add: synth_ivk_preimage_def repr_gadget_length [OF a] repr_gadget_length [OF n])
qed

lemma synth_ivk_Shape: "shape_ok cs \<Longrightarrow> \<exists>r. synth_ivk P pre cs = Inr r"
  using blake2s_Shape by (fastforce simp: synth_ivk_def)

lemma synth_pk_d_Shape:
  assumes ok: "shape_ok cs" shows "\<exists>r. synth_pk_d P ivk cs = Inr r"
proof -
  obtain pkd cs1 where f: "fixed_base_mul P ''compute pk_d'' PublicKeyGen ivk cs = Inr (pkd, cs1)"
    using fixed_base_mul_Shape [OF ok] by (metis surj_pair)
  from ok fixed_base_mul_extends [OF f] have "shape_ok cs1" by (blast intro: shape_ok_extends)
  with f inputize_Shape show ?thesis by (fastforce simp: synth_pk_d_def)
qed

lemma synthesize_Shape: "\<exists>cs. synthesize P w (cs_new Shape) = Inr cs"
proof -
  have ok: "shape_ok (cs_new Shape)" by (simp add: shape_ok_def cs_new_def)
  obtain akv cs1 where s1: "witness_point ''ak'' (map_option ak (proof_generation_key w)) (cs_new Shape) = Inr (akv, cs1)"
    using witness_point_Shape [OF ok] by (metis surj_pair)
  note e1 = conjunct2 [OF witness_point_extends [OF s1]]
  have ok1: "shape_ok cs1" by (rule shape_ok_extends [OF ok e1])
  obtain cs2 where s2: "assert_not_small_order ''ak not small order'' akv cs1 = Inr cs2"
    using assert_not_small_order_Shape [OF ok1] by blast
  have ok2: "shape_ok cs2" by (rule shape_ok_extends [OF ok1 assert_not_small_order_extends [OF s2]])
  obtain cs3 where s3: "synth_rk P akv (public_key_randomness w) cs2 = Inr cs3"
    using synth_rk_Shape [OF ok2] by blast
  have ok3: "shape_ok cs3" by (rule shape_ok_extends [OF ok2 synth_rk_extends [OF s3 refl refl]])
  obtain nk cs4 where s4: "synth_nk P (map_option nsk (proof_generation_key w)) cs3 = Inr (nk, cs4)"
    using synth_nk_Shape [OF ok3] by (metis surj_pair)
  have ok4: "shape_ok cs4" by (rule shape_ok_extends [OF ok3 conjunct2 [OF synth_nk_extends [OF s4 refl]]])
  obtain pre cs5 where s5: "synth_ivk_preimage akv nk cs4 = Inr (pre, cs5)"
    using synth_ivk_preimage_Shape [OF ok4] by (metis surj_pair)
  have ok5: "shape_ok cs5"
    by (rule shape_ok_extends [OF ok4 conjunct2 [OF synth_ivk_preimage_extends [OF s5 refl]]])
  obtain ivk cs6 where s6: "synth_ivk P pre cs5 = Inr (ivk, cs6)"
    using synth_ivk_Shape [OF ok5] by (metis surj_pair)
  have ok6: "shape_ok cs6"
  proof -
    obtain outs where "blake2s_gadget P ''computation of ivk'' pre cs5 = Inr (outs, cs6)"
      using s6 by (auto simp: synth_ivk_def split: prod.splits)
    then show ?thesis using ok5 by (auto simp: blake2s_gadget_def shape_ok_def allocs_Inr
                                           map_stored_Shape list_all_iff emit_def)
  qed
  obtain cs7 where "synth_pk_d P ivk cs6 = Inr cs7"
    using synth_pk_d_Shape [OF ok6] by blast
  with s1 s2 s3 s4 s5 s6 show ?thesis by (auto simp: synthesize_def)
qed

lemma bits_le_zero: "bits_le n 0 = replicate n False"
  by (induction n) simp_all

lemma unat_and_7: "unat (y AND 7 :: byte) = unat y mod 8"
proof -
  have "(y AND 7 :: byte) = take_bit 3 y" by (simp add: take_bit_eq_mask mask_eq_exp_minus_1)
  then show ?thesis by (simp only: unsigned_take_bit_eq) (simp add: take_bit_eq_mod)
qed

lemma bits_le_8_and_7: "bits_le 8 (unat (y AND 7 :: byte)) = bits_le 3 (unat y) @ replicate 5 False"
proof -
  have "bits_le (3 + 5) (unat y mod 2 ^ 3) = bits_le 3 (unat y mod 2 ^ 3) @ bits_le 5 (unat y mod 2 ^ 3 div 2 ^ 3)"
    by (rule bits_le_add)
  then show ?thesis using bits_le_mod [of 3 "unat y"] by (simp add: unat_and_7 bits_le_zero)
qed

lemma le_nat_mask_last:
  assumes "length xs = 31"
  shows "le_nat ((xs @ [y])[31 := (xs @ [y]) ! 31 AND 7]) = bits_val (take 251 (bytes_to_bits (xs @ [y])))"
proof -
  have u: "(xs @ [y])[31 := (xs @ [y]) ! 31 AND 7] = xs @ [y AND 7]"
    using assms by (simp add: list_update_append nth_append)
  have "take 251 (bytes_to_bits (xs @ [y])) = bytes_to_bits xs @ take 3 (bits_le 8 (unat y))"
    using assms by simp
  also have "\<dots> = bytes_to_bits xs @ bits_le 3 (unat y)" by (simp add: bits_le_take)
  finally have t: "take 251 (bytes_to_bits (xs @ [y])) = bytes_to_bits xs @ bits_le 3 (unat y)" .
  have "bits_val (replicate n False) = 0" for n by (induction n) simp_all
  then show ?thesis
    unfolding u t le_nat_bits_val by (simp add: bits_le_8_and_7 bits_val_append)
qed

lemma crh_ivk_bytes_bits:
  assumes "crh_len P" "snd a < 2 ^ 255" "snd nk < 2 ^ 255"
  shows "bytes_to_bits (crh_ivk_bytes P (point_to_bytes a @ point_to_bytes nk)) = crh_ivk P (point_repr a @ point_repr nk) \<and>
         length (crh_ivk_bytes P (point_to_bytes a @ point_to_bytes nk)) = 32"
  using bits_to_bytes_inverse [of "crh_ivk P (point_repr a @ point_repr nk)" 32] assms
  by (simp add: crh_ivk_bytes_def point_repr_bytes crh_len_def)

lemma fq_below_2_255: "x < fq_modulus \<Longrightarrow> x < 2 ^ 255"
  using fq_below_num_bits by (simp add: fq_num_bits_def)

lemma sample_params_crh_len: "crh_len sample_params"
  by (simp add: crh_len_def sample_params_def)

lemma sample_add_defined: "add_defined sample_point (smul 0 (generator sample_params SpendingKeyGen))"
  by (simp add: add_defined_def add_c_def generator_def sample_params_def identity_def
                fq_add_def fq_mul_def fq_sub_def fq_neg_def fq_modulus_def)

lemma sample_prove_run:
  "\<exists>cs. synthesize sample_params sample_mint (cs_new Prove) = Inr cs \<and> prove_inv sample_params cs \<and>
     cs_inputs cs = map Some (mint_statement sample_params sample_point 0 0)"
  using synthesize_prove [OF sample_params_crh_len, of sample_mint "\<lparr>ak = sample_point, nsk = 0\<rparr>" 0]
        sample_point_on_curve sample_point_not_small_order sample_add_defined
  by (simp add: sample_mint_def)

lemma synth_prefix_Prove:
  assumes "cs_mode cs = Prove" and "proof_generation_key w = Some k"
  shows "\<exists>cs1. witness_point ''ak'' (map_option ak (proof_generation_key w)) cs =
              Inr ((length (cs_aux cs), Suc (length (cs_aux cs))), cs1) \<and>
           pt_val cs1 (length (cs_aux cs), Suc (length (cs_aux cs))) = Some (ak k) \<and> cs_mode cs1 = Prove"
  using assms pt_val_appended [of "cs\<lparr>cs_aux := cs_aux cs @ [Some (fst (ak k)), Some (snd (ak k))]\<rparr>" cs "ak k"]
  by (simp add: witness_point_def alloc_point_Prove emit_def pt_val_def var_val_def)

lemma synthesize_small_order_fails:
  assumes "cs_mode cs = Prove" and "proof_generation_key w = Some k" and "\<not> not_small_order (ak k)"
  shows "synthesize P w cs = Inl DivisionByZero"
  using synth_prefix_Prove [OF assms(1,2)] assms(3)
  by (auto simp: synthesize_def assert_not_small_order_def)

lemma synthesize_shape_eq:
  assumes "crh_len P" shows "synthesize P w (cs_new Shape) = Inr mint_shape"
proof -
  obtain cs where s: "synthesize P w (cs_new Shape) = Inr cs" using synthesize_Shape by blast
  from synthesize_extends [OF assms s] have "cs = mint_shape"
    by (auto simp: extends_by_def cs_new_def mint_shape_def intro: cs.equality)
  with s show ?thesis by simp
qed

section \<open>Completeness\<close>

text \<open>
  C1. Completeness: for an honest witness (\<open>ak\<close> on the curve and not of small order,
  \<open>nsk\<close> and \<open>ar\<close> scalars, and \<open>ak + [ar] G\<close> defined), the prover's synthesis succeeds,
  every constraint holds, and \<open>verify\<close> accepts exactly the public inputs
  \<open>[rk.u, rk.v, pk_d.u, pk_d.v]\<close> of the statement.
\<close>

theorem synthesize_complete:
  assumes "crh_len P" and "proof_generation_key w = Some k" and "public_key_randomness w = Some ar"
    and "ar < fr_modulus" and "nsk k < fr_modulus"
    and "on_curve (ak k)" and "not_small_order (ak k)"
    and "add_defined (ak k) (smul ar (generator P SpendingKeyGen))"
  shows "\<exists>cs. synthesize P w (cs_new Prove) = Inr cs \<and> is_satisfied P cs \<and>
           (\<forall>xs. verify cs xs \<longleftrightarrow> xs = mint_statement P (ak k) (nsk k) ar)"
  using synthesize_prove [OF assms]
  by (auto simp: prove_inv_def verify_iff inj_map_eq_map)

theorem synthesize_complete_witness:
  "\<exists>cs. synthesize sample_params sample_mint (cs_new Prove) = Inr cs \<and> is_satisfied sample_params cs \<and>
     (\<forall>xs. verify cs xs \<longleftrightarrow> xs = mint_statement sample_params sample_point 0 0)"
  using synthesize_complete [OF sample_params_crh_len, of sample_mint "\<lparr>ak = sample_point, nsk = 0\<rparr>" 0]
        sample_point_on_curve sample_point_not_small_order sample_add_defined
  by (simp add: sample_mint_def)

section \<open>Soundness\<close>

text \<open>
  C2. Soundness: every assignment that satisfies the constraints a synthesis emits (in
  either mode) proves the statement: its public inputs are those of some \<open>ak\<close> on the
  curve and not of small order, some 252-bit \<open>nsk\<close> and \<open>ar\<close>.
\<close>

theorem synthesize_sound:
  assumes P: "crh_len P" and s: "synthesize P w (cs_new m) = Inr cs" and sat: "cs_sat P \<sigma> \<iota> cs"
  shows "\<exists>a n ar. on_curve a \<and> not_small_order a \<and> n < 2 ^ fr_num_bits \<and> ar < 2 ^ fr_num_bits \<and>
     add_defined a (smul ar (generator P SpendingKeyGen)) \<and> map \<iota> [0..<4] = mint_statement P a n ar"
proof -
  have "cs_gadgets cs = mint_layout"
    using synthesize_extends [OF P s] by (simp add: extends_by_def cs_new_def)
  with sat have "list_all (\<lambda>(ns, g). gadget_sat P \<sigma> \<iota> g) mint_layout" by (simp add: cs_sat_def)
  note L = layout_sat [OF this]
  have ua: "bits_val (map (bit_of \<sigma>) [512..<512 + 255]) = \<sigma> 0"
    and va: "bits_val (map (bit_of \<sigma>) [767..<767 + 255]) = \<sigma> 1"
    and un: "bits_val (map (bit_of \<sigma>) [1022..<1022 + 255]) = \<sigma> 510"
    and vn: "bits_val (map (bit_of \<sigma>) [1277..<1277 + 255]) = \<sigma> 511"
    using L by (simp_all del: upt_rec_numeral)
  have nkv: "(\<sigma> 510, \<sigma> 511) = smul (bits_val (map (bit_of \<sigma>) [258..<510])) (generator P ProofGenerationKeyGen)"
    and h: "map (bit_of \<sigma>) [1532..<1788] = crh_ivk P (map (bit_of \<sigma>) ([767..<1022] @ [512] @ [1277..<1532] @ [1022]))"
    using L by blast+
  define a where "a = (\<sigma> 0, \<sigma> 1)"
  define ar where "ar = bits_val (map (bit_of \<sigma>) [2..<254])"
  define n where "n = bits_val (map (bit_of \<sigma>) [258..<510])"
  define nk where "nk = smul n (generator P ProofGenerationKeyGen)"
  have bounds: "ar < 2 ^ fr_num_bits" "n < 2 ^ fr_num_bits"
    using bits_val_bound [of "map (bit_of \<sigma>) [2..<254]"] bits_val_bound [of "map (bit_of \<sigma>) [258..<510]"]
    by (simp_all add: ar_def n_def fr_num_bits_def del: upt_rec_numeral)
  have ra: "map (bit_of \<sigma>) [767..<1022] @ [bit_of \<sigma> 512] = point_repr a"
    using bits_of_repr [OF ua va] by (simp add: a_def del: upt_rec_numeral)
  have rn: "map (bit_of \<sigma>) [1277..<1532] @ [bit_of \<sigma> 1022] = point_repr nk"
    using bits_of_repr [OF un vn] nkv by (simp add: nk_def n_def del: upt_rec_numeral)
  have "[1532..<1783] = take fr_capacity [1532..<1788]" by (simp add: fr_capacity_val del: upt_rec_numeral)
  then have "map (bit_of \<sigma>) [1532..<1783] = take fr_capacity (map (bit_of \<sigma>) [1532..<1788])"
    by (simp only: take_map)
  also have "\<dots> = ivk_bits P a nk"
  proof -
    have "map (bit_of \<sigma>) ([767..<1022] @ [512] @ [1277..<1532] @ [1022]) = point_repr a @ point_repr nk"
      unfolding ra [symmetric] rn [symmetric] by (simp del: upt_rec_numeral)
    with h show ?thesis by (simp only: ivk_bits_def)
  qed
  finally have ivk: "map (bit_of \<sigma>) [1532..<1783] = ivk_bits P a nk" .
  have r: "(\<sigma> 256, \<sigma> 257) = ed_add (\<sigma> 0, \<sigma> 1) (\<sigma> 254, \<sigma> 255)"
    "(\<sigma> 254, \<sigma> 255) = smul ar (generator P SpendingKeyGen)" "\<iota> 0 = \<sigma> 256" "\<iota> 1 = \<sigma> 257"
    "(\<sigma> 1788, \<sigma> 1789) = smul (bits_val (map (bit_of \<sigma>) [1532..<1783])) (generator P PublicKeyGen)"
    "\<iota> 2 = \<sigma> 1788" "\<iota> 3 = \<sigma> 1789"
    using L unfolding ar_def by blast+
  have "ed_add a (smul ar (generator P SpendingKeyGen)) = (\<sigma> 256, \<sigma> 257)"
    using r(1,2) by (simp add: a_def del: upt_rec_numeral)
  then have i01: "\<iota> 0 = fst (ed_add a (smul ar (generator P SpendingKeyGen)))"
    "\<iota> 1 = snd (ed_add a (smul ar (generator P SpendingKeyGen)))"
    using r(3,4) by simp_all
  have "smul (bits_val (ivk_bits P a nk)) (generator P PublicKeyGen) = (\<sigma> 1788, \<sigma> 1789)"
    using r(5) by (simp add: ivk del: upt_rec_numeral)
  then have i23: "\<iota> 2 = fst (smul (bits_val (ivk_bits P a nk)) (generator P PublicKeyGen))"
    "\<iota> 3 = snd (smul (bits_val (ivk_bits P a nk)) (generator P PublicKeyGen))"
    using r(6,7) by simp_all
  have "map \<iota> [0..<4] = [\<iota> 0, \<iota> 1, \<iota> 2, \<iota> 3]" by (simp add: upt_rec numeral_eq_Suc)
  then have "map \<iota> [0..<4] = mint_statement P a n ar"
    using i01 i23 by (simp add: mint_statement_def Let_def nk_def)
  moreover have "on_curve a" "not_small_order a" "add_defined a (\<sigma> 254, \<sigma> 255)"
    using L unfolding a_def by blast+
  ultimately have "add_defined a (smul ar (generator P SpendingKeyGen))"
    and "map \<iota> [0..<4] = mint_statement P a n ar" "on_curve a" "not_small_order a"
    using r(2) by simp_all
  then show ?thesis using bounds by blast
qed

theorem synthesize_sound_witness:
  "\<exists>cs. synthesize sample_params sample_mint (cs_new Prove) = Inr cs \<and>
     cs_sat sample_params (aux_assignment cs) (input_assignment cs) cs \<and>
     (\<exists>a n ar. on_curve a \<and> not_small_order a \<and> n < 2 ^ fr_num_bits \<and> ar < 2 ^ fr_num_bits \<and>
        add_defined a (smul ar (generator sample_params SpendingKeyGen)) \<and>
        map (input_assignment cs) [0..<4] = mint_statement sample_params a n ar)"
proof -
  obtain cs where s: "synthesize sample_params sample_mint (cs_new Prove) = Inr cs"
    and i: "prove_inv sample_params cs" using sample_prove_run by blast
  then have c: "cs_sat sample_params (aux_assignment cs) (input_assignment cs) cs"
    by (simp add: prove_inv_def is_satisfied_def)
  show ?thesis using s c synthesize_sound [OF sample_params_crh_len s c] by blast
qed

section \<open>Key generation\<close>

text \<open>
  C3. Key generation (\<open>Shape\<close> mode) never fails, and records the same system for every
  witness, a missing one included: the 17 gadget constraints of \<open>mint_layout\<close> over
  1790 variables and 4 public inputs, with no value stored.
\<close>

theorem synthesize_shape:
  assumes "crh_len P" shows "synthesize P w (cs_new Shape) = Inr mint_shape"
  using assms by (rule synthesize_shape_eq)

theorem synthesize_shape_witness:
  "synthesize sample_params \<lparr>proof_generation_key = None, public_key_randomness = None\<rparr> (cs_new Shape) = Inr mint_shape"
  by (rule synthesize_shape [OF sample_params_crh_len])

text \<open>
  C4. Every successful synthesis, proving or key generation, emits exactly the constraints
  of \<open>mint_layout\<close>, allocates 1790 variables and exposes 4 public inputs.
\<close>

theorem synthesize_layout:
  assumes "crh_len P" and "synthesize P w (cs_new m) = Inr cs"
  shows "cs_gadgets cs = mint_layout \<and> length (cs_aux cs) = 1790 \<and> length (cs_inputs cs) = 4 \<and> cs_mode cs = m"
  using synthesize_extends [OF assms] by (auto simp: extends_by_def cs_new_def)

theorem synthesize_layout_witness:
  "\<exists>cs. synthesize sample_params sample_mint (cs_new Prove) = Inr cs \<and> cs_gadgets cs = mint_layout \<and>
     length (cs_aux cs) = 1790 \<and> length (cs_inputs cs) = 4"
proof -
  obtain cs where s: "synthesize sample_params sample_mint (cs_new Prove) = Inr cs"
    using sample_prove_run by blast
  with synthesize_layout [OF sample_params_crh_len s] show ?thesis by blast
qed

text \<open>
  C9. The prover's system is the proving key's: erasing the values of a successful
  proving run gives exactly what key generation records, for any witness handed to key
  generation.
\<close>

theorem synthesize_prove_keygen:
  assumes P: "crh_len P" and s: "synthesize P w (cs_new Prove) = Inr cs"
  shows "synthesize P w' (cs_new Shape) = Inr (cs_erase cs)"
proof -
  from synthesize_extends [OF P s] have "cs_erase cs = mint_shape"
    by (auto simp: extends_by_def cs_new_def mint_shape_def cs_erase_def map_replicate_const)
  with synthesize_shape_eq [OF P] show ?thesis by simp
qed

theorem synthesize_prove_keygen_witness:
  "\<exists>cs. synthesize sample_params sample_mint (cs_new Prove) = Inr cs \<and>
     synthesize sample_params \<lparr>proof_generation_key = None, public_key_randomness = None\<rparr> (cs_new Shape) =
       Inr (cs_erase cs)"
proof -
  obtain cs where s: "synthesize sample_params sample_mint (cs_new Prove) = Inr cs"
    using sample_prove_run by blast
  with synthesize_prove_keygen [OF sample_params_crh_len s] show ?thesis by blast
qed

section \<open>Errors\<close>

text \<open>
  C5. Synthesis fails only with \<open>AssignmentMissing\<close> or \<open>DivisionByZero\<close>: the
  \<open>assert_eq!(ivk_preimage.len(), 512)\<close> never fires.
\<close>

lemma synthesize_errors:
  "synthesize P w cs = Inl e \<Longrightarrow> e = AssignmentMissing \<or> e = DivisionByZero"
  by (cases e) (auto simp: synthesize_def dest: gadget_Inl synth_blocks_Inl synth_ivk_preimage_Inl split: prod.splits)

theorem synthesize_errors_witness:
  "synthesize sample_params \<lparr>proof_generation_key = None, public_key_randomness = None\<rparr> (cs_new Prove) = Inl AssignmentMissing \<and>
   (AssignmentMissing = AssignmentMissing \<or> AssignmentMissing = DivisionByZero)"
proof
  show s: "synthesize sample_params \<lparr>proof_generation_key = None, public_key_randomness = None\<rparr> (cs_new Prove) = Inl AssignmentMissing"
    by (simp add: synthesize_def witness_point_def alloc_point_def alloc_def cs_new_def)
  show "AssignmentMissing = AssignmentMissing \<or> AssignmentMissing = DivisionByZero"
    using synthesize_errors [OF s] .
qed

text \<open>
  C6. The prover without a proof-generation key fails with \<open>AssignmentMissing\<close> at the
  first allocation, whatever the rest of the witness.
\<close>

theorem synthesize_missing_key:
  assumes "cs_mode cs = Prove" and "proof_generation_key w = None"
  shows "synthesize P w cs = Inl AssignmentMissing"
  using assms by (simp add: synthesize_def witness_point_def alloc_point_def alloc_def)

theorem synthesize_missing_key_witness:
  "synthesize sample_params \<lparr>proof_generation_key = None, public_key_randomness = Some 0\<rparr> (cs_new Prove) = Inl AssignmentMissing"
  by (rule synthesize_missing_key) (simp_all add: cs_new_def)

text \<open>
  C8. The prover with an \<open>ak\<close> of small order fails with \<open>DivisionByZero\<close> in
  \<open>assert_not_small_order\<close>, before any other constraint.
\<close>

theorem synthesize_small_order:
  assumes "cs_mode cs = Prove" and "proof_generation_key w = Some k" and "\<not> not_small_order (ak k)"
  shows "synthesize P w cs = Inl DivisionByZero"
  using assms by (rule synthesize_small_order_fails)

theorem synthesize_small_order_witness:
  "synthesize sample_params \<lparr>proof_generation_key = Some \<lparr>ak = identity, nsk = 0\<rparr>, public_key_randomness = Some 0\<rparr>
     (cs_new Prove) = Inl DivisionByZero"
  using synthesize_small_order [of "cs_new Prove" _ "\<lparr>ak = identity, nsk = 0\<rparr>"] identity_small_order
  by (simp add: cs_new_def)

text \<open>
  C10. The prover with a key whose \<open>ak\<close> is not of small order but without the
  randomness \<open>ar\<close> fails with \<open>AssignmentMissing\<close> at the first bit of \<open>ar\<close>.
\<close>

theorem synthesize_missing_randomness:
  assumes "cs_mode cs = Prove" and "proof_generation_key w = Some k" and "not_small_order (ak k)"
    and "public_key_randomness w = None"
  shows "synthesize P w cs = Inl AssignmentMissing"
  using synth_prefix_Prove [OF assms(1,2)] assms(3,4)
  by (auto simp: synthesize_def assert_not_small_order_def synth_rk_def boolean_vec_def bit_values_def
                 fr_num_bits_def emit_def allocs_None_Prove)


theorem synthesize_missing_randomness_witness:
  "synthesize sample_params \<lparr>proof_generation_key = Some \<lparr>ak = sample_point, nsk = 0\<rparr>, public_key_randomness = None\<rparr>
     (cs_new Prove) = Inl AssignmentMissing"
  using synthesize_missing_randomness [of "cs_new Prove" _ "\<lparr>ak = sample_point, nsk = 0\<rparr>" sample_params]
        sample_point_not_small_order
  by (simp add: cs_new_def)

lemma ivk_ref_value:
  assumes P: "crh_len P" and a: "snd a < 2 ^ 255" and nk: "snd nk < 2 ^ 255"
  shows "ivk_ref P a nk = Inr (bits_val (ivk_bits P a nk)) \<and> bits_val (ivk_bits P a nk) < 2 ^ fr_capacity"
proof -
  define h where "h = crh_ivk_bytes P (point_to_bytes a @ point_to_bytes nk)"
  from crh_ivk_bytes_bits [OF P a nk] have hb: "bytes_to_bits h = crh_ivk P (point_repr a @ point_repr nk)"
    and hl: "length h = 32" by (simp_all add: h_def)
  obtain xs y where xy: "h = xs @ [y]" "length xs = 31"
  proof
    show "h = take 31 h @ [h ! 31]" using take_Suc_conv_app_nth [of 31 h] hl by simp
    show "length (take 31 h) = 31" using hl by simp
  qed
  have v: "le_nat (h[31 := h ! 31 AND 7]) = bits_val (ivk_bits P a nk)"
    using le_nat_mask_last [OF xy(2), of y] by (simp add: xy(1) [symmetric] hb ivk_bits_def fr_capacity_val)
  have b: "bits_val (ivk_bits P a nk) < 2 ^ fr_capacity"
    using bits_val_bound [of "ivk_bits P a nk"] P
    by (simp add: ivk_bits_def crh_len_def fr_capacity_val)
  moreover have "2 ^ fr_capacity < fr_modulus" using fr_modulus_bits by (simp add: fr_capacity_def)
  ultimately have "fr_from_bytes (h[31 := h ! 31 AND 7]) = Some (bits_val (ivk_bits P a nk))"
    using v hl by (simp add: field_from_bytes_def)
  with b show ?thesis by (simp add: ivk_ref_def h_def [symmetric] Let_def)
qed

lemma public_inputs_ref_eq:
  assumes P: "crh_len P" and a: "snd a < 2 ^ 255"
  shows "public_inputs_ref P a n ar = Inr (mint_statement P a n ar)"
proof -
  have "snd (smul n (generator P ProofGenerationKeyGen)) < 2 ^ 255"
    using smul_lt by (blast intro: fq_below_2_255)
  with ivk_ref_value [OF P a] show ?thesis
    by (simp add: public_inputs_ref_def mint_statement_def Let_def)
qed

section \<open>The circuit's \<open>ivk\<close> and public inputs agree with the out-of-circuit ones\<close>

text \<open>
  C11. \<open>ViewingKey::ivk\<close> (Blake2s over the byte encodings, byte 31 masked with 7, read as
  a scalar) never panics and is the value of the first \<open>CAPACITY\<close> = 251 bits of the hash
  the circuit truncates, below \<open>2^251\<close>.
\<close>

theorem ivk_ref_circuit:
  assumes P: "crh_len P" and a: "snd a < 2 ^ 255" and nk: "snd nk < 2 ^ 255"
  shows "ivk_ref P a nk = Inr (bits_val (ivk_bits P a nk)) \<and> bits_val (ivk_bits P a nk) < 2 ^ fr_capacity"
  using P a nk by (rule ivk_ref_value)

theorem ivk_ref_circuit_witness:
  "ivk_ref sample_params identity identity = Inr (bits_val (ivk_bits sample_params identity identity)) \<and>
   bits_val (ivk_bits sample_params identity identity) < 2 ^ fr_capacity"
  by (rule ivk_ref_circuit [OF sample_params_crh_len]) (simp_all add: identity_def)

text \<open>
  C12. The public inputs the test computes out of circuit (\<open>rk\<close>, and \<open>pk_d\<close> from
  \<open>ViewingKey::ivk\<close>) are the statement's, for every \<open>ak\<close> with a canonical \<open>v\<close>.
\<close>

theorem public_inputs_ref_statement:
  assumes P: "crh_len P" and a: "snd a < 2 ^ 255"
  shows "public_inputs_ref P a n ar = Inr (mint_statement P a n ar)"
  using P a by (rule public_inputs_ref_eq)

theorem public_inputs_ref_statement_witness:
  "public_inputs_ref sample_params sample_point 0 0 = Inr (mint_statement sample_params sample_point 0 0)"
  by (rule public_inputs_ref_statement [OF sample_params_crh_len]) (simp add: sample_point_def)

end
