(* ===== verification/Mint_Test.thy ===== *)
theory Mint_Test
  imports Circuit_Correctness
begin

text \<open>
  The unit test \<open>test_mint_asset_circuit\<close> of \<open>src/ironfish-zkp/src/circuits/mint_asset.rs\<close>
  as a function of the values its RNG draws, composing the witness format
  (\<open>Mint_Witness\<close>), the out-of-circuit public inputs and the synthesis
  (\<open>Mint_Circuit\<close>), and the test system's checks (\<open>Constraint_System\<close>). The test
  passes for every honest draw whose bad \<open>rk\<close> differs from the real one in \<open>u\<close>; when they
  agree (a collision the RNG makes with negligible probability) its negative assertion
  fails.
\<close>

section \<open>The test\<close>

text \<open>
  \<open>Result::unwrap\<close> on an error panics with the error's \<open>Debug\<close> form after a fixed
  prefix; the model writes an I/O error by its kind and a synthesis error by its variant.
  On a reader's result an I/O error becomes such a panic and a panic stays one.
\<close>

definition unwrap_failed :: "string \<Rightarrow> failure" where
  "unwrap_failed dbg = Panic (''called `Result::unwrap()` on an `Err` value: '' @ dbg)"

primrec io_kind_debug :: "io_kind \<Rightarrow> string" where
  "io_kind_debug UnexpectedEof = ''UnexpectedEof''"
| "io_kind_debug InvalidInput = ''InvalidInput''"
| "io_kind_debug InvalidData = ''InvalidData''"

primrec synthesis_error_debug :: "synthesis_error \<Rightarrow> string" where
  "synthesis_error_debug AssignmentMissing = ''AssignmentMissing''"
| "synthesis_error_debug DivisionByZero = ''DivisionByZero''"
| "synthesis_error_debug AssertionPanic = ''AssertionPanic''"

definition unwrap_io :: "failure + 'a \<Rightarrow> failure + 'a" where
  "unwrap_io r = (case r of Inl (IoError e) \<Rightarrow> Inl (unwrap_failed (io_kind_debug e)) | _ \<Rightarrow> r)"

text \<open>
  \<open>test_mint_asset_circuit\<close> for the values its seeded RNG draws: the key \<open>k\<close>, the
  randomness \<open>ar\<close>, and the two random points \<open>bad_rk\<close> and \<open>bad_pa\<close>. It computes the
  public inputs out of circuit, writes the witness and reads it back, synthesizes it in a
  fresh \<open>TestConstraintSystem\<close> and runs the assertions in the source's order; each
  \<open>unwrap\<close> of an error and each failed assertion is a panic, and so is the length
  assertion inside \<open>verify\<close>. The second \<open>bad_inputs\<close> is built and never checked, as in
  the source.
\<close>

definition mint_test :: "params \<Rightarrow> point_decoder \<Rightarrow> proof_generation_key \<Rightarrow> nat \<Rightarrow> point \<Rightarrow> point \<Rightarrow> failure + unit" where
  "mint_test P dec k ar bad_rk bad_pa =
     bind_res (public_inputs_ref P (ak k) (nsk k) ar) (\<lambda>public_inputs.
     let circuit = \<lparr>proof_generation_key = Some k, public_key_randomness = Some ar\<rparr>;
         writer = mint_write circuit
     in bind_res (unwrap_io (mint_read dec writer)) (\<lambda>_.
        case synthesize P circuit (cs_new Prove) of
          Inl e \<Rightarrow> Inl (unwrap_failed (synthesis_error_debug e))
        | Inr cs \<Rightarrow>
            if \<not> is_satisfied P cs then Inl (Panic ''assertion failed: cs.is_satisfied()'')
            else bind_res (tcs_verify cs public_inputs) (\<lambda>ok.
            if \<not> ok then Inl (Panic ''assertion failed: cs.verify(&public_inputs)'')
            else let bad_inputs = public_inputs[0 := fst bad_rk] in
            bind_res (tcs_verify cs bad_inputs) (\<lambda>bad_ok.
            if bad_ok then Inl (Panic ''assertion failed: !cs.verify(&bad_inputs)'')
            else let bad_inputs = public_inputs[2 := fst bad_pa] in
            bind_res (tcs_verify cs public_inputs) (\<lambda>ok'.
            if \<not> ok' then Inl (Panic ''assertion failed: cs.verify(&public_inputs)'')
            else Inr ())))))"

definition sample_point_decoder :: point_decoder where
  "sample_point_decoder bs = (if bs = point_to_bytes sample_point then Some sample_point else None)"

section \<open>The run of an honest draw\<close>

lemma mint_test_read:
  assumes "pgk_valid dec k" and "ar < fr_modulus"
  shows "unwrap_io (mint_read dec (mint_write \<lparr>proof_generation_key = Some k, public_key_randomness = Some ar\<rparr>)) =
           Inr (\<lparr>proof_generation_key = Some k, public_key_randomness = Some ar\<rparr>, [])"
proof -
  have "witness_valid dec \<lparr>proof_generation_key = Some k, public_key_randomness = Some ar\<rparr>"
    using assms by (simp add: witness_valid_def)
  then have "mint_read dec (mint_write \<lparr>proof_generation_key = Some k, public_key_randomness = Some ar\<rparr> @ []) =
               Inr (\<lparr>proof_generation_key = Some k, public_key_randomness = Some ar\<rparr>, [])"
    using parses_mint_read by (simp only: parses_def)
  then show ?thesis by (simp add: unwrap_io_def)
qed

lemma mint_test_run:
  assumes P: "crh_len P" and k: "pgk_valid dec k" and ar: "ar < fr_modulus"
    and c: "on_curve (ak k)" and s: "not_small_order (ak k)"
    and d: "add_defined (ak k) (smul ar (generator P SpendingKeyGen))"
  shows "\<exists>cs. synthesize P \<lparr>proof_generation_key = Some k, public_key_randomness = Some ar\<rparr> (cs_new Prove) = Inr cs \<and>
     is_satisfied P cs \<and> public_inputs_ref P (ak k) (nsk k) ar = Inr (mint_statement P (ak k) (nsk k) ar) \<and>
     cs_inputs cs = map Some (mint_statement P (ak k) (nsk k) ar)"
proof -
  have n: "nsk k < fr_modulus" using k by (simp add: pgk_valid_def)
  have "snd (ak k) < fq_modulus" using c by (auto simp: on_curve_def split: prod.splits)
  then have a: "snd (ak k) < 2 ^ 255" by (rule fq_below_2_255)
  obtain cs where "synthesize P \<lparr>proof_generation_key = Some k, public_key_randomness = Some ar\<rparr> (cs_new Prove) = Inr cs"
    "prove_inv P cs" "cs_inputs cs = map Some (mint_statement P (ak k) (nsk k) ar)"
    using synthesize_prove [OF P _ _ ar n c s d, of "\<lparr>proof_generation_key = Some k, public_key_randomness = Some ar\<rparr>"]
    by auto
  then show ?thesis using public_inputs_ref_eq [OF P a] by (auto simp: prove_inv_def)
qed

section \<open>The test's outcome\<close>

text \<open>
  C7. \<open>test_mint_asset_circuit\<close> passes for every honest draw (\<open>ak\<close> on the curve, not of
  small order and decodable, \<open>nsk\<close> and \<open>ar\<close> canonical scalars, \<open>ak + [ar] G\<close>
  defined) whose bad randomized key differs from \<open>rk\<close> in its \<open>u\<close> coordinate.
\<close>

theorem mint_test_passes:
  assumes P: "crh_len P" and k: "pgk_valid dec k" and ar: "ar < fr_modulus"
    and c: "on_curve (ak k)" and s: "not_small_order (ak k)"
    and d: "add_defined (ak k) (smul ar (generator P SpendingKeyGen))"
    and bad: "fst bad_rk \<noteq> fst (ed_add (ak k) (smul ar (generator P SpendingKeyGen)))"
  shows "mint_test P dec k ar bad_rk bad_pa = Inr ()"
  using mint_test_run [OF P k ar c s d] mint_test_read [OF k ar] bad
  by (auto simp: mint_test_def tcs_verify_eq verify_iff mint_statement_def Let_def)


text \<open>
  C13. The test's negative assertion is a real check: for an honest draw whose bad
  randomized key has the \<open>u\<close> coordinate of \<open>rk\<close>, \<open>!cs.verify(&bad_inputs)\<close> fails.
\<close>

theorem mint_test_bad_rk_collision:
  assumes P: "crh_len P" and k: "pgk_valid dec k" and ar: "ar < fr_modulus"
    and c: "on_curve (ak k)" and s: "not_small_order (ak k)"
    and d: "add_defined (ak k) (smul ar (generator P SpendingKeyGen))"
    and bad: "fst bad_rk = fst (ed_add (ak k) (smul ar (generator P SpendingKeyGen)))"
  shows "mint_test P dec k ar bad_rk bad_pa = Inl (Panic ''assertion failed: !cs.verify(&bad_inputs)'')"
  using mint_test_run [OF P k ar c s d] mint_test_read [OF k ar] bad
  by (auto simp: mint_test_def tcs_verify_eq verify_iff mint_statement_def Let_def)

text \<open>
  C14. A key whose \<open>ak\<close> is of small order gets through the out-of-circuit computation and
  the byte round trip, and the test panics in \<open>circuit.synthesize(&mut cs).unwrap()\<close>
  with the synthesis error \<open>DivisionByZero\<close> (a failing read would panic with an I/O
  error kind instead).
\<close>

theorem mint_test_small_order:
  assumes P: "crh_len P" and k: "pgk_valid dec k" and ar: "ar < fr_modulus"
    and a: "snd (ak k) < fq_modulus" and s: "\<not> not_small_order (ak k)"
  shows "mint_test P dec k ar bad_rk bad_pa =
           Inl (Panic ''called `Result::unwrap()` on an `Err` value: DivisionByZero'')"
  using public_inputs_ref_eq [OF P fq_below_2_255 [OF a]] mint_test_read [OF k ar]
        synthesize_small_order_fails [of "cs_new Prove" _ k P, OF _ _ s]
  by (simp add: mint_test_def cs_new_def unwrap_failed_def)

section \<open>Witnesses\<close>

lemma sample_key_valid: "pgk_valid sample_point_decoder \<lparr>ak = sample_point, nsk = 0\<rparr>"
  by (simp add: pgk_valid_def sample_point_decoder_def)

lemma sample_rk: "ed_add sample_point identity = sample_point"
  by (simp add: ed_add_identity sample_point_def fq_modulus_def)

theorem mint_test_passes_witness:
  "mint_test sample_params sample_point_decoder \<lparr>ak = sample_point, nsk = 0\<rparr> 0 identity identity = Inr ()"
  using mint_test_passes [OF sample_params_crh_len sample_key_valid, of 0 identity identity]
        sample_point_on_curve sample_point_not_small_order sample_add_defined
  by (simp add: sample_rk) (simp add: identity_def sample_point_def)

theorem mint_test_bad_rk_collision_witness:
  "mint_test sample_params sample_point_decoder \<lparr>ak = sample_point, nsk = 0\<rparr> 0 sample_point identity =
     Inl (Panic ''assertion failed: !cs.verify(&bad_inputs)'')"
  using mint_test_bad_rk_collision [OF sample_params_crh_len sample_key_valid, of 0 sample_point identity]
        sample_point_on_curve sample_point_not_small_order sample_add_defined
  by (simp add: sample_rk)

theorem mint_test_small_order_witness:
  "mint_test sample_params sample_decoder \<lparr>ak = identity, nsk = 0\<rparr> 0 identity identity =
     Inl (Panic ''called `Result::unwrap()` on an `Err` value: DivisionByZero'')"
  using mint_test_small_order [OF sample_params_crh_len, of sample_decoder "\<lparr>ak = identity, nsk = 0\<rparr>" 0]
        identity_small_order
  by (simp add: pgk_valid_def sample_decoder_def identity_def fq_modulus_def)

end
