(* ===== verification/Ephemeral.thy ===== *)
theory Ephemeral
  imports Jubjub
begin

text \<open>
  The Diffie-Hellman ephemeral key pair of note encryption
  (\<open>struct EphemeralKeyPair\<close> of \<open>src/ironfish-rust/src/keys/ephemeral.rs\<close>): a secret
  scalar and its public point under \<open>PUBLIC_KEY_GENERATOR\<close>, the derived \<open>Default\<close>,
  \<open>new\<close>, the getters (the record's selectors), and the 192-byte form
  (\<open>to_bytes_le\<close>, \<open>from_bytes_le\<close>). \<open>new\<close> draws the secret from
  \<open>thread_rng()\<close>; the model takes the drawn scalar as an argument, so every statement
  about \<open>new\<close> holds for every value the generator can return. Slicing a vector
  shorter than the range, \<open>unwrap\<close> of a failed scalar decode and an invalid point
  encoding are panics. The unit test \<open>test_ephemeral_key_pair\<close> is modelled as
  \<open>ekp_test\<close>; its assertions compare what \<open>new\<close> stored with the same expressions.
\<close>

section \<open>The key pair and its operations\<close>

record ephemeral_key_pair =
  secret :: nat
  public :: ext_point

text \<open>\<open>#[derive(Default)]\<close>: \<open>Fr::zero()\<close> and \<open>SubgroupPoint::identity()\<close>.\<close>

definition ekp_default :: ephemeral_key_pair where
  "ekp_default = \<lparr>secret = 0, public = ext_identity\<rparr>"

definition ekp_new :: "generators \<Rightarrow> nat \<Rightarrow> ephemeral_key_pair" where
  "ekp_new g s = \<lparr>secret = s, public = ext_of_affine (smul s (public_key_generator g))\<rparr>"

text \<open>The getters \<open>secret()\<close> and \<open>public()\<close> return references to the fields.\<close>

definition ekp_secret :: "ephemeral_key_pair \<Rightarrow> nat" where
  "ekp_secret kp = secret kp"

definition ekp_public :: "ephemeral_key_pair \<Rightarrow> ext_point" where
  "ekp_public kp = public kp"

definition ekp_to_bytes_le :: "ephemeral_key_pair \<Rightarrow> byte list" where
  "ekp_to_bytes_le kp = fr_to_bytes (secret kp) @ ext_to_bytes_le (public kp)"

definition ekp_from_bytes_le :: "byte list \<Rightarrow> failure + ephemeral_key_pair" where
  "ekp_from_bytes_le bytes =
     (if length bytes < 32 then Inl (Panic ''range end index 32 out of range'')
      else if length bytes < 192 then Inl (Panic ''range end index 192 out of range'')
      else case fr_from_bytes (take 32 bytes) of
             None \<Rightarrow> Inl (Panic ''called unwrap on a None CtOption'')
           | Some s \<Rightarrow>
               (case ext_from_bytes_le (take 160 (drop 32 bytes)) of
                  None \<Rightarrow> Inl (Panic ''invalid point encoding'')
                | Some p \<Rightarrow> Inr \<lparr>secret = s, public = p\<rparr>))"

text \<open>
  \<open>test_ephemeral_key_pair\<close>, for the scalar \<open>new\<close> draws: its three \<open>assert_eq!\<close>
  compare points with \<open>SubgroupPoint\<close>'s equality (projective) and scalars by value; a
  failed one panics.
\<close>

definition ekp_test :: "generators \<Rightarrow> nat \<Rightarrow> failure + unit" where
  "ekp_test g s =
     (let key_pair = ekp_new g s in
      if \<not> ext_eq (ekp_public key_pair) (ext_of_affine (smul (ekp_secret key_pair) (public_key_generator g)))
      then Inl (Panic ''assertion failed: left == right'')
      else if \<not> ext_eq (ekp_public key_pair) (public key_pair)
      then Inl (Panic ''assertion failed: left == right'')
      else if ekp_secret key_pair \<noteq> secret key_pair
      then Inl (Panic ''assertion failed: left == right'')
      else Inr ())"

section \<open>The invariant\<close>

text \<open>
  The invariant of the type: the secret is a canonical scalar and the public point is
  \<open>[secret] PUBLIC_KEY_GENERATOR\<close> (as points: projectively equal). The byte form is
  canonical when, moreover, every stored coordinate is a canonical \<open>Fq\<close> element.
\<close>

definition keypair_inv :: "generators \<Rightarrow> ephemeral_key_pair \<Rightarrow> bool" where
  "keypair_inv g kp \<longleftrightarrow> secret kp < fr_modulus \<and>
     ext_eq (public kp) (ext_of_affine (smul (secret kp) (public_key_generator g)))"

definition keypair_canonical :: "ephemeral_key_pair \<Rightarrow> bool" where
  "keypair_canonical kp \<longleftrightarrow> secret kp < fr_modulus \<and>
     list_all (\<lambda>c. c < fq_modulus) (ext_coords (public kp))"

section \<open>Lemmas\<close>

lemma length_ekp_to_bytes_le [simp]: "length (ekp_to_bytes_le kp) = 192"
  by (simp add: ekp_to_bytes_le_def)

lemma ekp_from_to_bytes:
  assumes "keypair_canonical kp"
  shows "ekp_from_bytes_le (ekp_to_bytes_le kp @ rest) = Inr kp"
proof -
  have pub: "take 160 (ext_to_bytes_le (public kp) @ rest) = ext_to_bytes_le (public kp)"
    by simp
  have sec: "fr_from_bytes (fr_to_bytes (secret kp)) = Some (secret kp)"
    using assms by (simp add: keypair_canonical_def fr_roundtrip)
  have "ext_from_bytes_le (ext_to_bytes_le (public kp)) = Some (public kp)"
    using assms by (intro ext_roundtrip) (simp add: keypair_canonical_def list_all_iff)
  with sec show ?thesis
    by (simp add: ekp_from_bytes_le_def ekp_to_bytes_le_def pub)
qed

lemma ekp_new_canonical: "s < fr_modulus \<Longrightarrow> keypair_canonical (ekp_new g s)"
  using smul_lt [of s "public_key_generator g"]
  by (simp add: keypair_canonical_def ekp_new_def ext_of_affine_def ext_coords_def)

lemma ekp_new_inv: "s < fr_modulus \<Longrightarrow> keypair_inv g (ekp_new g s)"
  by (simp add: keypair_inv_def ekp_new_def ext_eq_refl)

section \<open>Properties of the key pair\<close>

text \<open>
  C22. A fresh key pair satisfies the invariant \<open>public = [secret] PUBLIC_KEY_GENERATOR\<close>,
  and storing it as 192 bytes and reading it back gives the same pair.
\<close>

theorem ekp_new_stored:
  assumes "s < fr_modulus"
  shows "keypair_inv g (ekp_new g s) \<and>
         ekp_from_bytes_le (ekp_to_bytes_le (ekp_new g s)) = Inr (ekp_new g s)"
proof
  show "keypair_inv g (ekp_new g s)" using assms by (rule ekp_new_inv)
  have "ekp_from_bytes_le (ekp_to_bytes_le (ekp_new g s) @ []) = Inr (ekp_new g s)"
    using assms by (intro ekp_from_to_bytes ekp_new_canonical)
  then show "ekp_from_bytes_le (ekp_to_bytes_le (ekp_new g s)) = Inr (ekp_new g s)" by simp
qed

text \<open>
  C23. Byte round trip, exactly: \<open>from_bytes_le\<close> gives back the pair from its bytes
  (followed by anything) if and only if the secret is a canonical scalar and every stored
  coordinate a canonical \<open>Fq\<close> element.
\<close>

theorem ekp_roundtrip_iff:
  "ekp_from_bytes_le (ekp_to_bytes_le kp @ rest) = Inr kp \<longleftrightarrow>
     secret kp < fr_modulus \<and> (\<forall>c \<in> set (ext_coords (public kp)). c < fq_modulus)"
proof
  assume dec: "ekp_from_bytes_le (ekp_to_bytes_le kp @ rest) = Inr kp"
  then obtain s p where s: "fr_from_bytes (fr_to_bytes (secret kp)) = Some s"
    and p: "ext_from_bytes_le (ext_to_bytes_le (public kp)) = Some p"
    and kp: "kp = \<lparr>secret = s, public = p\<rparr>"
    by (auto simp: ekp_from_bytes_le_def ekp_to_bytes_le_def split: option.splits)
  from s have "s < fr_modulus" by (rule field_from_bytes_canonical)
  moreover from kp have "secret kp = s" "public kp = p" by (simp_all add: kp)
  ultimately show "secret kp < fr_modulus \<and> (\<forall>c \<in> set (ext_coords (public kp)). c < fq_modulus)"
    using ext_from_bytes_canonical [OF p] by simp
next
  assume "secret kp < fr_modulus \<and> (\<forall>c \<in> set (ext_coords (public kp)). c < fq_modulus)"
  then have "keypair_canonical kp" by (simp add: keypair_canonical_def list_all_iff)
  then show "ekp_from_bytes_le (ekp_to_bytes_le kp @ rest) = Inr kp" by (rule ekp_from_to_bytes)
qed

text \<open>
  C24. \<open>from_bytes_le\<close> panics (it never returns an error value) exactly when the input
  is shorter than 192 bytes, its first 32 bytes are not a canonical scalar, or one of
  the five 32-byte coordinates after them is not a canonical \<open>Fq\<close> element.
\<close>

theorem ekp_from_bytes_panics:
  "(\<exists>msg. ekp_from_bytes_le bs = Inl (Panic msg)) \<longleftrightarrow>
     length bs < 192 \<or> fr_modulus \<le> le_nat (take 32 bs) \<or>
     \<not> list_all (\<lambda>i. le_nat (take 32 (drop (32 + 32 * i) bs)) < fq_modulus) [0, 1, 2, 3, 4]"
proof (cases "length bs < 192")
  case False
  then have "length (take 160 (drop 32 bs)) = 160" by simp
  from ext_from_bytes_None [OF this] False
  have "ext_from_bytes_le (take 160 (drop 32 bs)) = None \<longleftrightarrow>
          \<not> list_all (\<lambda>i. le_nat (take 32 (drop (32 + 32 * i) bs)) < fq_modulus) [0, 1, 2, 3, 4]"
    by (simp add: take_drop)
  with False show ?thesis
    by (auto simp: ekp_from_bytes_le_def field_from_bytes_def split: option.splits)
qed (auto simp: ekp_from_bytes_le_def)

text \<open>
  C25. \<open>from_bytes_le\<close> does not re-establish the invariant: for every choice of
  generator, some 192 bytes decode to a pair whose public point is not
  \<open>[secret] PUBLIC_KEY_GENERATOR\<close> (secret 0 with the point of order 2).
\<close>

theorem ekp_from_bytes_unchecked:
  "\<exists>bs kp. length bs = 192 \<and> ekp_from_bytes_le bs = Inr kp \<and> \<not> keypair_inv g kp"
proof (intro exI conjI)
  let ?kp = "\<lparr>secret = 0, public = ext_of_affine (0, fq_modulus - 1)\<rparr>"
  show "length (ekp_to_bytes_le ?kp) = 192" by simp
  have "keypair_canonical ?kp"
    by (simp add: keypair_canonical_def ext_of_affine_def ext_coords_def fq_modulus_def)
  then have "ekp_from_bytes_le (ekp_to_bytes_le ?kp @ []) = Inr ?kp" by (rule ekp_from_to_bytes)
  then show "ekp_from_bytes_le (ekp_to_bytes_le ?kp) = Inr ?kp" by simp
  show "\<not> keypair_inv g ?kp"
    by (simp add: keypair_inv_def ext_eq_def ext_of_affine_def identity_def fq_mul_def fq_modulus_def)
qed

section \<open>Witnesses\<close>

theorem ekp_new_stored_witness:
  "keypair_inv \<lparr>spending_key_generator = identity, proof_generation_key_generator = identity,
                 public_key_generator = identity\<rparr>
     (ekp_new \<lparr>spending_key_generator = identity, proof_generation_key_generator = identity,
                public_key_generator = identity\<rparr> 0)"
  using ekp_new_stored [of 0] by simp

theorem ekp_roundtrip_iff_witness:
  "ekp_from_bytes_le (ekp_to_bytes_le ekp_default @ [7]) = Inr ekp_default"
proof -
  have "secret ekp_default < fr_modulus \<and>
        (\<forall>c \<in> set (ext_coords (public ekp_default)). c < fq_modulus)"
    by (simp add: ekp_default_def ext_identity_def ext_coords_def fq_modulus_def)
  then show ?thesis using ekp_roundtrip_iff [of ekp_default "[7]"] by simp
qed

theorem ekp_from_bytes_panics_witness:
  "\<exists>msg. ekp_from_bytes_le [1, 2, 3] = Inl (Panic msg)"
  using ekp_from_bytes_panics [of "[1, 2, 3]"] by simp

end
