(* ===== verification/Spec2Isabelle.thy ===== *)
theory Spec2Isabelle
  imports Mint_Test Ephemeral
begin

text \<open>
  \<^bold>\<open>A verification development of the Mint-Asset circuit and the ephemeral key pair
  of ironfish-optimize.\<close>

  \<^bold>\<open>The program.\<close> Two Rust files. \<open>src/ironfish-zkp/src/circuits/mint_asset.rs\<close>
  defines \<open>MintAsset\<close>, the witness of the Mint-Asset zero-knowledge statement (an
  optional proof-generation key \<open>(ak, nsk)\<close> and an optional rerandomizer \<open>ar\<close>), its
  byte format (\<open>write\<close>, \<open>read\<close>, the serde \<open>Serialize\<close>/\<open>Deserialize\<close> bridge)
  and \<open>Circuit::synthesize\<close>, which emits the constraints binding the witness to the
  public inputs \<open>rk.u, rk.v, pk_d.u, pk_d.v\<close>. \<open>src/ironfish-rust/src/keys/ephemeral.rs\<close>
  defines \<open>EphemeralKeyPair\<close>, a secret scalar and its public point, with a 192-byte
  storage form. Both rest on external crates: the fields \<open>Fr\<close>, \<open>Fq\<close> and the Jubjub
  curve (\<open>jubjub\<close>, \<open>blstrs\<close>), the constraint system and gadgets (\<open>bellperson\<close>,
  \<open>zcash_proofs\<close>), and \<open>ProofGenerationKey\<close> (\<open>zcash_primitives\<close>).

  \<^bold>\<open>The library.\<close>
  \<^item> \<open>Prelude\<close>: bytes (\<open>8 word\<close>), little-endian byte and bit strings and their
    values, the Rust reader model (a reader is the list of bytes it has left), failures
    (\<open>IoError\<close>, \<open>Panic\<close>) as values of a sum type with \<open>bind_res\<close> for \<open>?\<close>, and
    the \<open>parses\<close> property of readers (a parser reads its encoding back and fails with
    \<open>UnexpectedEof\<close> on every strict prefix), which composes along \<open>bind_res\<close>.
  \<^item> \<open>Scalar_Fields\<close>: the moduli of \<open>Fr\<close> and \<open>Fq\<close>, \<open>NUM_BITS\<close> and
    \<open>CAPACITY\<close>, the canonical 32-byte codec, \<open>Fq\<close> arithmetic with a Bezout inverse
    and the lemma that checks an inverse by one multiplication.
  \<^item> \<open>Jubjub\<close>: affine points, the addition and doubling formulas exactly as the
    circuit gadgets compute them (with the denominators they invert), scalar
    multiplication, the point representation \<open>repr\<close> and its 32-byte form, extended
    coordinates and their 160-byte form, and the generators as parameters.
  \<^item> \<open>Mint_Witness\<close> (\<open>mint_asset.rs\<close> lines 21-95): \<open>mint_write\<close>,
    \<open>mint_read\<close>, \<open>mint_serialize\<close>, \<open>mint_deserialize\<close>; the external
    \<open>ProofGenerationKey\<close> codec is modelled from the spec (\<open>pgk_to_bytes_le\<close>,
    \<open>pgk_read\<close>), with the decoder of compressed points as a parameter.
  \<^item> \<open>Ephemeral\<close> (\<open>ephemeral.rs\<close>): \<open>ekp_default\<close>, \<open>ekp_new\<close> (the random
    scalar is an argument), the getters \<open>ekp_secret\<close> and \<open>ekp_public\<close>,
    \<open>ekp_to_bytes_le\<close>, \<open>ekp_from_bytes_le\<close>, the invariant \<open>keypair_inv\<close>, and the
    unit test \<open>test_ephemeral_key_pair\<close> as \<open>ekp_test\<close> (lines 59-70), whose
    assertions compare what \<open>new\<close> stored with the expressions \<open>new\<close> used and so
    carry no property of their own.
  \<^item> \<open>Constraint_System\<close>: the constraint system of \<open>bellperson\<close> and the gadgets of
    \<open>zcash_proofs\<close> and \<open>bellperson\<close> at gadget granularity (modelled from the spec).
    A system (\<open>cs\<close>) is a mode (\<open>Prove\<close>, the prover's \<open>TestConstraintSystem\<close>, or
    \<open>Shape\<close>, key generation), the auxiliary values, the public inputs and the emitted
    gadget constraints. Each gadget allocates fresh variables, evaluates its witness
    closures in \<open>Prove\<close> mode only (\<open>AssignmentMissing\<close> without a value,
    \<open>DivisionByZero\<close> on a zero denominator) and emits one constraint whose contract is
    \<open>gadget_sat\<close>. The frame relation \<open>extends_by\<close> says what a call appends.
    \<open>tcs_verify\<close> is \<open>TestConstraintSystem::verify\<close> with its length assertion (a
    panic); \<open>verify\<close> is the predicate that it returns \<open>true\<close>.
  \<^item> \<open>Prove_Mode\<close>: the invariant \<open>prove_inv\<close> of a proving run (every value known,
    every constraint in range and satisfied by the recorded assignment), kept by every
    gadget given values for its inputs; what each gadget fails with.
  \<^item> \<open>Mint_Circuit\<close> (\<open>mint_asset.rs\<close> lines 97-190): \<open>synthesize\<close> as the composition
    of one definition per block of the source (\<open>synth_rk\<close>, \<open>synth_nk\<close>,
    \<open>synth_ivk_preimage\<close>, \<open>synth_ivk\<close>, \<open>synth_pk_d\<close>); the out-of-circuit
    \<open>ivk_ref\<close> and \<open>public_inputs_ref\<close> of the test (lines 212-229); the statement
    \<open>mint_statement\<close> and the fixed layout \<open>mint_layout\<close>.
  \<^item> \<open>Sample_Point\<close>: a concrete Jubjub point of large order, its doublings checked
    with precomputed inverses, for the witnesses.
  \<^item> \<open>Circuit_Correctness\<close>: the circuit's theorems.
  \<^item> \<open>Mint_Test\<close> (\<open>mint_asset.rs\<close> lines 205-261): the unit test
    \<open>test_mint_asset_circuit\<close> as \<open>mint_test\<close>, a function of the values its RNG draws
    that composes the witness format, the out-of-circuit public inputs, the synthesis and
    the test system's \<open>is_satisfied\<close> and \<open>tcs_verify\<close>; each \<open>unwrap\<close> of an error
    is a \<open>Panic\<close> value carrying the error (\<open>unwrap_failed\<close>), and each failed
    assertion is a \<open>Panic\<close> value.

  \<^bold>\<open>What is shown.\<close> The circuit is complete (an honest witness gives a satisfied
  system and \<open>verify\<close> accepts exactly the statement's inputs) and sound (every
  satisfying assignment of the emitted constraints proves the Mint-Asset statement); key
  generation succeeds for every witness with the same 17 gadget constraints, 1790
  variables and 4 inputs, and erasing the values of any proving run (\<open>cs_erase\<close>, the
  abstraction from prover to key generation) gives exactly that system; synthesis fails
  only with \<open>AssignmentMissing\<close> (no key, or no \<open>ar\<close>) or \<open>DivisionByZero\<close>
  (small-order \<open>ak\<close>), never in the \<open>assert_eq!\<close>; the byte-level
  \<open>ivk\<close> (byte 31 masked with 7) equals the circuit's 251-bit truncation and the test's
  public inputs are the statement's. The unit test \<open>test_mint_asset_circuit\<close> passes for every honest draw
  whose random bad \<open>rk\<close> differs from \<open>rk\<close> in \<open>u\<close>, and its negative assertion
  fails when they agree; with a small-order \<open>ak\<close> it gets through the byte round trip
  and panics in the synthesis \<open>unwrap\<close> on \<open>DivisionByZero\<close>. The witness format
  round-trips for every
  combination of present fields, rejects every truncation with \<open>UnexpectedEof\<close>, has
  the lengths 2, 34, 66 and 98, reads any presence byte other than 1 as absent, panics
  (rather than failing) on a non-canonical \<open>ar\<close>, and its serde bridge turns every read
  failure into a panic. A fresh key pair satisfies its invariant and survives storage;
  the 192-byte decoder round-trips exactly on canonical pairs, panics exactly on short
  input, a non-canonical scalar or a non-canonical coordinate, and accepts pairs that
  break the invariant.

  \<^bold>\<open>Bounds and parameters.\<close> No fuel is needed: the code has no loops, every
  function of the model is structurally recursive or decreases a size measure
  (\<open>smul\<close> halves its scalar, \<open>bits_to_bytes\<close> drops a byte of bits), and \<open>fun\<close>
  proves their termination, so the development states no separate termination or
  liveness property. The bit widths are those of the fields (\<open>NUM_BITS\<close> 252 and 255,
  \<open>CAPACITY\<close> 251). The generators and Blake2s are parameters (\<open>params\<close>), with the
  only law \<open>crh_len\<close> (256 output bits); the witnesses instantiate them with the
  identity and a constant hash.

  \<^bold>\<open>Not modelled.\<close> The rank-1 constraints inside each gadget (so the test's
  \<open>assert_eq!\<close> on the count 25341, the one step of \<open>mint_test\<close> left out), Blake2s
  itself, the generator constants, square roots in the compressed point decoder (a
  parameter), and the random number generators (their outputs are arguments). Points
  are stored with \<open>Z = 1\<close> (\<open>ext_of_affine\<close>) where jubjub keeps the projective
  coordinates its scalar multiplication produced: the model's 160-byte form of
  \<open>[s] G\<close> is one representative of the point, equal to jubjub's as a point
  (\<open>ext_eq\<close>) but not byte for byte. \<open>unwrap\<close> panics carry the error's kind or
  variant, not its full \<open>Debug\<close> text. The 160-byte point decoder checks canonical
  coordinates only (the spec makes an invalid encoding fatal and says no more). The only lines of the two source files the map leaves out are their
  \<open>use\<close> declarations, comments and module headers.
\<close>

end
